(* ===== verification/Prelude.thy ===== *)
theory Prelude
  imports Main "HOL-Library.Word" "HOL-Library.FSet"
begin

text \<open>
  Shared vocabulary of the development: machine integers with Rust's checked operations, results
  as sums with the combinators that stand for \<^verbatim>\<open>?\<close>, fallible traversal of lists, and
  big-endian byte strings of fixed-width words. Everything here models the language and its
  standard library; nothing refers to the program yet.
\<close>

unbundle bit_operations_syntax

named_theorems result_simps \<open>how the result combinators reduce\<close>
named_theorems bind_simps \<open>when a chain of fallible steps succeeds, step by step\<close>
named_theorems checked_simps \<open>checked arithmetic in terms of natural numbers\<close>


section \<open>Machine integers\<close>

type_synonym byte = "8 word"
type_synonym bytes = "byte list"
type_synonym u32 = "32 word"
type_synonym u64 = "64 word"

text \<open>
  \<open>usize\<close> counts elements and bytes of values in memory. It is a natural number; the one place
  its width matters is the conversion from \<open>u64\<close>, which fails beyond the target's largest
  \<open>usize\<close> (32 bits on the WASI target, 64 bits on native targets).
\<close>

type_synonym usize = nat

lemma unat_less_2p: "unat (w :: 'a::len word) < 2 ^ LENGTH('a)"
  by (rule unsigned_less)

lemma unat_ex_iff: "(\<exists>w :: 'a::len word. unat w = k) \<longleftrightarrow> k < 2 ^ LENGTH('a)"
proof
  assume "k < 2 ^ LENGTH('a)"
  then have "unat (of_nat k :: 'a word) = k" by (simp add: unat_of_nat)
  then show "\<exists>w :: 'a word. unat w = k" ..
qed (auto simp: unat_less_2p)

definition checked_add :: "'a::len word \<Rightarrow> 'a word \<Rightarrow> 'a word option" where
  "checked_add a b = (if unat a + unat b < 2 ^ LENGTH('a) then Some (a + b) else None)"

lemma checked_add_Some [checked_simps]:
  "checked_add a b = Some c \<longleftrightarrow> unat c = unat a + unat b"
proof
  assume "checked_add a b = Some c"
  then have "unat a + unat b < 2 ^ LENGTH('a)" "c = a + b"
    by (auto simp: checked_add_def split: if_splits)
  then show "unat c = unat a + unat b"
    by (simp add: unat_word_ariths)
next
  assume c: "unat c = unat a + unat b"
  then have lt: "unat a + unat b < 2 ^ LENGTH('a)"
    using unat_less_2p [of c] by simp
  then have "unat (a + b) = unat c"
    using c by (simp add: unat_word_ariths)
  with lt show "checked_add a b = Some c"
    by (simp add: checked_add_def word_unat_eq_iff)
qed

lemma checked_add_None [checked_simps]:
  "checked_add (a :: 'a::len word) b = None \<longleftrightarrow> 2 ^ LENGTH('a) \<le> unat a + unat b"
  by (auto simp: checked_add_def)

lemma checked_succ_Some:
  "checked_add a 1 = Some b \<longleftrightarrow> b = a + 1 \<and> Suc (unat a) < 2 ^ LENGTH('a)" for a :: "'a::len word"
  by (auto simp: checked_add_def)

lemma unat_succ: "Suc (unat a) < 2 ^ LENGTH('a) \<Longrightarrow> unat (a + 1) = Suc (unat a)" for a :: "'a::len word"
  by (simp add: unat_word_ariths)

definition checked_mul :: "'a::len word \<Rightarrow> 'a word \<Rightarrow> 'a word option" where
  "checked_mul a b = (if unat a * unat b < 2 ^ LENGTH('a) then Some (a * b) else None)"

lemma checked_mul_Some [checked_simps]:
  "checked_mul a b = Some c \<longleftrightarrow> unat c = unat a * unat b"
proof
  assume "checked_mul a b = Some c"
  then have "unat a * unat b < 2 ^ LENGTH('a)" "c = a * b"
    by (auto simp: checked_mul_def split: if_splits)
  then show "unat c = unat a * unat b"
    by (simp add: unat_word_ariths)
next
  assume c: "unat c = unat a * unat b"
  then have lt: "unat a * unat b < 2 ^ LENGTH('a)"
    using unat_less_2p [of c] by simp
  then have "unat (a * b) = unat c"
    using c by (simp add: unat_word_ariths)
  with lt show "checked_mul a b = Some c"
    by (simp add: checked_mul_def word_unat_eq_iff)
qed

definition u64_try_from :: "usize \<Rightarrow> u64 option" where
  "u64_try_from n = (if n < 2 ^ 64 then Some (of_nat n) else None)"

lemma unat_of_nat_u64 [simp]: "n < 18446744073709551616 \<Longrightarrow> unat (of_nat n :: u64) = n"
  by (simp add: unat_of_nat)

lemma word_eq_of_nat: "unat w = n \<Longrightarrow> w = of_nat n"
  by auto

lemma of_nat_u64_eq_iff:
  "n < 18446744073709551616 \<Longrightarrow> (of_nat n :: u64) = w \<longleftrightarrow> n = unat w"
  by (metis unat_of_nat_u64 word_eq_of_nat)

lemma u64_try_from_Some [checked_simps]: "u64_try_from n = Some w \<longleftrightarrow> unat w = n"
proof
  show "u64_try_from n = Some w \<Longrightarrow> unat w = n"
    by (auto simp: u64_try_from_def unat_of_nat split: if_splits)
  show "unat w = n \<Longrightarrow> u64_try_from n = Some w"
    using unat_less_2p [of w] by (auto simp: u64_try_from_def)
qed

lemma u64_try_from_of_nat: "u64_try_from n = Some w \<longleftrightarrow> w = of_nat n \<and> n < 2 ^ 64"
  by (auto simp: u64_try_from_def)

lemma u64_try_from_None [checked_simps]: "u64_try_from n = None \<longleftrightarrow> 2 ^ 64 \<le> n"
  by (auto simp: u64_try_from_def)

definition usize_try_from :: "usize \<Rightarrow> u64 \<Rightarrow> usize option" where
  "usize_try_from usize_max w = (if unat w \<le> usize_max then Some (unat w) else None)"

lemma usize_try_from_Some [checked_simps]:
  "usize_try_from m w = Some n \<longleftrightarrow> n = unat w \<and> n \<le> m"
  by (auto simp: usize_try_from_def)

definition usize_checked_add :: "usize \<Rightarrow> usize \<Rightarrow> usize \<Rightarrow> usize option" where
  "usize_checked_add usize_max a b = (if a + b \<le> usize_max then Some (a + b) else None)"

lemma usize_checked_add_Some [checked_simps]:
  "usize_checked_add m a b = Some c \<longleftrightarrow> c = a + b \<and> c \<le> m"
  by (auto simp: usize_checked_add_def)

lemma usize_checked_add_None [checked_simps]: "usize_checked_add m a b = None \<longleftrightarrow> m < a + b"
  by (auto simp: usize_checked_add_def)

definition div_ceil :: "nat \<Rightarrow> nat \<Rightarrow> nat" where
  "div_ceil a b = a div b + (if a mod b = 0 then 0 else 1)"

lemma unat_min: "unat (min a b) = min (unat a) (unat (b :: 'a::len word))"
  by (simp add: min_def word_le_nat_alt)

lemma unat_max: "unat (max a b) = max (unat a) (unat (b :: 'a::len word))"
  by (simp add: max_def word_le_nat_alt)


section \<open>Results\<close>

text \<open>A \<open>Result\<close> is a sum with the error on the left; \<open>and_then\<close> is the operator \<^verbatim>\<open>?\<close>.\<close>

definition and_then :: "'e + 'a \<Rightarrow> ('a \<Rightarrow> 'e + 'b) \<Rightarrow> 'e + 'b" where
  "and_then r f = (case r of Inl e \<Rightarrow> Inl e | Inr x \<Rightarrow> f x)"

lemma and_then_simps [simp, result_simps]:
  "and_then (Inl e) f = Inl e"
  "and_then (Inr x) f = f x"
  by (simp_all add: and_then_def)

lemma and_then_Inr [result_simps]:
  "and_then r f = Inr y \<longleftrightarrow> (\<exists>x. r = Inr x \<and> f x = Inr y)"
  by (cases r) auto

lemma and_then_Inl:
  "and_then r f = Inl e \<longleftrightarrow> r = Inl e \<or> (\<exists>x. r = Inr x \<and> f x = Inl e)"
  by (cases r) auto

definition ok_or :: "'a option \<Rightarrow> 'e \<Rightarrow> 'e + 'a" where
  "ok_or x e = (case x of None \<Rightarrow> Inl e | Some y \<Rightarrow> Inr y)"

lemma ok_or_simps [simp, result_simps]:
  "ok_or None e = Inl e"
  "ok_or (Some x) e = Inr x"
  by (simp_all add: ok_or_def)

lemma ok_or_Inr [result_simps]: "ok_or x e = Inr y \<longleftrightarrow> x = Some y"
  by (cases x) auto

definition map_err :: "('e \<Rightarrow> 'f) \<Rightarrow> 'e + 'a \<Rightarrow> 'f + 'a" where
  "map_err f r = (case r of Inl e \<Rightarrow> Inl (f e) | Inr x \<Rightarrow> Inr x)"

lemma map_err_simps [simp, result_simps]:
  "map_err f (Inl e) = Inl (f e)"
  "map_err f (Inr x) = Inr x"
  by (simp_all add: map_err_def)

lemma map_err_Inr [result_simps]: "map_err f r = Inr y \<longleftrightarrow> r = Inr y"
  by (cases r) auto

definition guard :: "bool \<Rightarrow> 'e \<Rightarrow> 'e + unit" where
  "guard c e = (if c then Inr () else Inl e)"

text \<open>\<open>guard c e\<close> is \<^verbatim>\<open>if !c { return Err(e) }\<close>.\<close>

lemma guard_simps [simp, result_simps]:
  "guard True e = Inr ()"
  "guard False e = Inl e"
  by (simp_all add: guard_def)

lemma guard_Inr [result_simps]: "guard c e = Inr u \<longleftrightarrow> c"
  by (simp add: guard_def)

lemma guard_bind [bind_simps]: "and_then (guard c e) f = Inr y \<longleftrightarrow> c \<and> f () = Inr y"
  by (simp add: guard_def)

lemma ok_or_bind [bind_simps]: "and_then (ok_or x e) f = Inr y \<longleftrightarrow> (\<exists>v. x = Some v \<and> f v = Inr y)"
  by (cases x) auto

lemma if_err_Inr:
  "(if c then Inl e else r) = Inr y \<longleftrightarrow> \<not> c \<and> r = Inr y"
  by simp

fun traverse :: "('a \<Rightarrow> 'e + 'b) \<Rightarrow> 'a list \<Rightarrow> 'e + 'b list" where
  "traverse f [] = Inr []"
| "traverse f (x # xs) = and_then (f x) (\<lambda>y. and_then (traverse f xs) (\<lambda>ys. Inr (y # ys)))"

text \<open>\<open>traverse\<close> is \<^verbatim>\<open>.map(f).collect::<Result<_, _>>()\<close>: the first error wins.\<close>

lemma traverse_Inr_iff:
  "traverse f xs = Inr ys \<longleftrightarrow> list_all2 (\<lambda>x y. f x = Inr y) xs ys"
  by (induction xs arbitrary: ys) (auto simp: and_then_Inr list_all2_Cons1)

lemma traverse_length: "traverse f xs = Inr ys \<Longrightarrow> length ys = length xs"
  by (auto simp: traverse_Inr_iff list_all2_lengthD)

lemma traverse_map_inverse:
  "(\<And>x. x \<in> set xs \<Longrightarrow> g (f x) = Inr x) \<Longrightarrow> traverse g (map f xs) = Inr xs"
  by (induction xs) auto

text \<open>\<open>opt_traverse\<close> is \<^verbatim>\<open>.map(f).transpose()\<close> on an optional value.\<close>

fun opt_traverse :: "('a \<Rightarrow> 'e + 'b) \<Rightarrow> 'a option \<Rightarrow> 'e + 'b option" where
  "opt_traverse f None = Inr None"
| "opt_traverse f (Some x) = and_then (f x) (\<lambda>y. Inr (Some y))"

fun try_fold :: "('b \<Rightarrow> 'a \<Rightarrow> 'e + 'b) \<Rightarrow> 'b \<Rightarrow> 'a list \<Rightarrow> 'e + 'b" where
  "try_fold f s [] = Inr s"
| "try_fold f s (x # xs) = and_then (f s x) (\<lambda>s'. try_fold f s' xs)"

fun try_for_each :: "('a \<Rightarrow> 'e + unit) \<Rightarrow> 'a list \<Rightarrow> 'e + unit" where
  "try_for_each f [] = Inr ()"
| "try_for_each f (x # xs) = and_then (f x) (\<lambda>_. try_for_each f xs)"

lemma try_for_each_Inr: "try_for_each f xs = Inr u \<longleftrightarrow> (\<forall>x\<in>set xs. f x = Inr ())"
  by (induction xs) (auto simp: and_then_Inr)


section \<open>Decimal numerals\<close>

function show_nat :: "nat \<Rightarrow> string" where
  "show_nat n =
    (if n < 10 then [char_of (48 + n)] else show_nat (n div 10) @ [char_of (48 + n mod 10)])"
  by pat_completeness auto
termination by (relation "measure id") auto

declare show_nat.simps [simp del]


section \<open>Lists\<close>

text \<open>\<open>slice.strip_prefix(p)\<close>: what follows the prefix, if it is one.\<close>

fun strip_prefix :: "'a list \<Rightarrow> 'a list \<Rightarrow> 'a list option" where
  "strip_prefix [] ys = Some ys"
| "strip_prefix (x # xs) [] = None"
| "strip_prefix (x # xs) (y # ys) = (if x = y then strip_prefix xs ys else None)"

lemma strip_prefix_Some [simp]: "strip_prefix xs ys = Some zs \<longleftrightarrow> ys = xs @ zs"
  by (induction xs ys rule: strip_prefix.induct) auto

lemma strip_prefix_None: "strip_prefix xs ys = None \<longleftrightarrow> (\<nexists>zs. ys = xs @ zs)"
  by (induction xs ys rule: strip_prefix.induct) auto

lemma strip_prefix_append [simp]: "strip_prefix xs (xs @ ys) = Some ys"
  by (simp add: strip_prefix_Some)

text \<open>\<open>iter().position(p)\<close>: the first index whose element satisfies the predicate.\<close>

fun position :: "('a \<Rightarrow> bool) \<Rightarrow> 'a list \<Rightarrow> nat option" where
  "position p [] = None"
| "position p (x # xs) = (if p x then Some 0 else map_option Suc (position p xs))"

lemma position_Some: "position p xs = Some i \<Longrightarrow> i < length xs \<and> p (xs ! i)"
  by (induction xs arbitrary: i) (auto split: if_splits)

lemma position_None: "position p xs = None \<longleftrightarrow> (\<forall>x\<in>set xs. \<not> p x)"
  by (induction xs) auto

lemma position_append:
  "position p (xs @ ys) =
    (case position p xs of Some i \<Rightarrow> Some i | None \<Rightarrow> map_option (\<lambda>i. length xs + i) (position p ys))"
  by (induction xs) (cases "position p ys", auto split: option.splits)+

text \<open>\<open>&bytes[start..end]\<close>.\<close>

definition slice :: "'a list \<Rightarrow> nat \<times> nat \<Rightarrow> 'a list" where
  "slice xs rg = take (snd rg - fst rg) (drop (fst rg) xs)"

lemma slice_middle [simp]: "slice (a @ b @ c) (length a, length a + length b) = b"
  by (simp add: slice_def)

lemma slice_slice:
  assumes "snd r \<le> length (slice xs q)"
  shows "slice xs (fst q + fst r, fst q + snd r) = slice (slice xs q) r"
proof -
  have "snd r \<le> snd q - fst q"
    using assms by (simp add: slice_def)
  then have "min (snd r - fst r) (snd q - fst q - fst r) = snd r - fst r"
    by arith
  then show ?thesis
    by (simp add: slice_def drop_take add.commute)
qed

definition last_opt :: "'a list \<Rightarrow> 'a option" where
  "last_opt xs = (if xs = [] then None else Some (last xs))"

lemma last_opt_simps [simp]:
  "last_opt [] = None"
  "last_opt (xs @ [x]) = Some x"
  by (simp_all add: last_opt_def)

text \<open>\<open>windows(2).all(p)\<close>: the predicate holds of every pair of neighbours.\<close>

fun all_pairs :: "('a \<Rightarrow> 'a \<Rightarrow> bool) \<Rightarrow> 'a list \<Rightarrow> bool" where
  "all_pairs p (x # y # zs) = (p x y \<and> all_pairs p (y # zs))"
| "all_pairs p xs = True"

lemma all_pairs_less_iff:
  "all_pairs (\<lambda>a b. f a < f b) xs \<longleftrightarrow> sorted_wrt (<) (map f xs)" for f :: "'a \<Rightarrow> 'b::linorder"
proof (induction xs rule: induct_list012)
  case (3 x y zs)
  have "(\<forall>z\<in>set zs. f x < f z)" if "f x < f y" and "sorted_wrt (<) (map f (y # zs))"
    using that by (auto intro: less_trans)
  with 3 show ?case by auto
qed auto


section \<open>Big-endian byte strings\<close>

fun be_bytes :: "nat \<Rightarrow> 'a::len word \<Rightarrow> bytes" where
  "be_bytes 0 w = []"
| "be_bytes (Suc n) w = be_bytes n (drop_bit 8 w) @ [ucast w]"

definition of_be_bytes :: "bytes \<Rightarrow> 'a::len word" where
  "of_be_bytes bs = foldl (\<lambda>acc b. push_bit 8 acc OR ucast b) 0 bs"

lemma length_be_bytes [simp]: "length (be_bytes n w) = n"
  by (induction n arbitrary: w) auto

lemma of_be_bytes_Nil [simp]: "of_be_bytes [] = 0"
  by (simp add: of_be_bytes_def)

lemma of_be_bytes_snoc [simp]: "of_be_bytes (bs @ [b]) = push_bit 8 (of_be_bytes bs) OR ucast b"
  by (simp add: of_be_bytes_def)

lemma of_be_bytes_be_bytes_take:
  "of_be_bytes (be_bytes n w) = take_bit (8 * n) (w :: 'a::len word)"
proof (induction n arbitrary: w)
  case (Suc n)
  have "push_bit 8 (take_bit (8 * n) (drop_bit 8 w)) OR ucast (ucast w :: byte)
      = take_bit (8 * Suc n) w"
    by (rule bit_word_eqI) (auto simp: bit_simps)
  with Suc show ?case by simp
qed simp

lemma of_be_bytes_be_bytes [simp]:
  "LENGTH('a) \<le> 8 * n \<Longrightarrow> of_be_bytes (be_bytes n w) = (w :: 'a::len word)"
  by (simp add: of_be_bytes_be_bytes_take take_bit_word_eq_self)

lemma bit_of_be_bytes:
  "bit (of_be_bytes bs :: 'a::len word) i \<Longrightarrow> i < 8 * length bs"
proof (induction bs arbitrary: i rule: rev_induct)
  case (snoc b bs)
  from snoc.prems have "8 \<le> i \<and> bit (of_be_bytes bs :: 'a word) (i - 8) \<or> i < 8"
    by (auto simp: bit_simps dest: bit_imp_le_length)
  with snoc.IH [of "i - 8"] show ?case by auto
qed simp

lemma be_bytes_of_be_bytes:
  "8 * length bs \<le> LENGTH('a) \<Longrightarrow> be_bytes (length bs) (of_be_bytes bs :: 'a::len word) = bs"
proof (induction bs rule: rev_induct)
  case (snoc b bs)
  let ?w = "of_be_bytes bs :: 'a word"
  have "drop_bit 8 (push_bit 8 ?w OR ucast b) = ?w"
  proof (rule bit_word_eqI)
    fix i assume "i < LENGTH('a)"
    then show "bit (drop_bit 8 (push_bit 8 ?w OR ucast b)) i \<longleftrightarrow> bit ?w i"
      using snoc.prems bit_of_be_bytes [of bs i, where 'a = 'a]
      by (auto simp: bit_simps dest: bit_imp_le_length)
  qed
  moreover have "ucast (push_bit 8 ?w OR ucast b) = b"
    using snoc.prems by (intro bit_word_eqI) (auto simp: bit_simps)
  ultimately show ?case
    using snoc by simp
qed simp

end
