(* ===== verification/Identity.thy ===== *)
theory Identity
  imports Prelude
begin

text \<open>
  The public vocabulary of \<^verbatim>\<open>src/src/lib.rs\<close>: identifiers, references to immutable objects and
  to commits, and the error type. A BLAKE3 digest is the 256-bit word of its 32 bytes and a UUID
  the 128-bit word of its 16 bytes, both read big-endian, so that the derived byte-wise order of
  the Rust types is the order of the words and the fixed array widths are part of the type.
\<close>


section \<open>Errors\<close>

text \<open>The variants of \<open>object_store::Error\<close> the program distinguishes; every other one is
  \<open>OtherStoreError\<close>.\<close>

datatype store_error =
    Generic | NotFound | AlreadyExists | Precondition | NotModified
  | NotSupported | NotImplemented | OtherStoreError

datatype error =
    LogNotFound
  | InvalidLogId
  | InvalidDigest
  | InvalidFormat string
  | CorruptObject
  | ViewExpired
  | InvalidStagedObject
  | CollectionFence
  | UnsupportedBackend string
  | LimitExceeded string
  | ConfigurationMismatch string
  | RequestDenied
  | Store store_error

type_synonym 'a result = "error + 'a"

definition invalid :: "string \<Rightarrow> error" where
  "invalid message = InvalidFormat message"


section \<open>Digests and identifiers\<close>

type_synonym digest = "256 word"
type_synonym uuid = "128 word"
type_synonym transaction_id = uuid
type_synonym retention_id = uuid
type_synonym storage_id = uuid

definition DIGEST_LEN :: nat where "DIGEST_LEN = 32"
definition UUID_LEN :: nat where "UUID_LEN = 16"
definition MAX_LOG_ID_LEN :: nat where "MAX_LOG_ID_LEN = 128"

definition digest_as_bytes :: "digest \<Rightarrow> bytes" where
  "digest_as_bytes d = be_bytes DIGEST_LEN d"

definition uuid_as_bytes :: "uuid \<Rightarrow> bytes" where
  "uuid_as_bytes u = be_bytes UUID_LEN u"

lemma length_digest_as_bytes [simp]: "length (digest_as_bytes d) = 32"
  by (simp add: digest_as_bytes_def DIGEST_LEN_def)

lemma length_uuid_as_bytes [simp]: "length (uuid_as_bytes u) = 16"
  by (simp add: uuid_as_bytes_def UUID_LEN_def)

type_synonym log_id = string

definition is_ascii_alphanumeric :: "char \<Rightarrow> bool" where
  "is_ascii_alphanumeric c \<longleftrightarrow>
    (let n = of_char c :: nat
     in (48 \<le> n \<and> n \<le> 57) \<or> (65 \<le> n \<and> n \<le> 90) \<or> (97 \<le> n \<and> n \<le> 122))"

definition LogId_new :: "string \<Rightarrow> log_id result" where
  "LogId_new value =
    (let ok = value \<noteq> [] \<and> length value \<le> MAX_LOG_ID_LEN
          \<and> list_all (\<lambda>byte. is_ascii_alphanumeric byte
                \<or> byte = CHR ''-'' \<or> byte = CHR ''_'' \<or> byte = CHR ''.'') value
     in if \<not> ok \<or> value = ''.'' \<or> value = ''..'' then Inl InvalidLogId else Inr value)"

definition log_id_ok :: "log_id \<Rightarrow> bool" where
  "log_id_ok s \<longleftrightarrow> LogId_new s = Inr s"

lemma LogId_new_Inr [simp]: "LogId_new s = Inr t \<longleftrightarrow> t = s \<and> log_id_ok s"
  by (auto simp: log_id_ok_def LogId_new_def Let_def)

lemma log_id_ok_length: "log_id_ok s \<Longrightarrow> length s \<le> MAX_LOG_ID_LEN"
  by (auto simp: log_id_ok_def LogId_new_def Let_def split: if_splits)


section \<open>References\<close>

datatype object_kind = Blob | Node | Checkpoint

record object_ref =
  or_kind :: object_kind
  or_storage_id :: storage_id
  or_digest :: digest
  or_len :: u64
  or_subtree_objects :: u64

definition validate_count :: "object_ref \<Rightarrow> unit result" where
  "validate_count r =
    (if or_subtree_objects r = 0 \<or> (or_kind r = Blob \<and> or_subtree_objects r \<noteq> 1)
     then Inl CorruptObject else Inr ())"

lemma validate_count_Inr:
  "validate_count r = Inr u \<longleftrightarrow>
    0 < unat (or_subtree_objects r) \<and> (or_kind r = Blob \<longrightarrow> or_subtree_objects r = 1)"
  by (auto simp: validate_count_def unat_gt_0)

record commit_ref =
  cr_sequence :: u64
  cr_transaction_id :: transaction_id
  cr_storage_id :: storage_id
  cr_digest :: digest
  cr_len :: u64

record checkpoint_ref =
  cp_through_sequence :: u64
  cp_through_commit :: digest
  cp_object :: object_ref

record plan_ref =
  pl_storage_id :: storage_id
  pl_digest :: digest
  pl_len :: u64


section \<open>Physical keys\<close>

datatype immutable_kind = KCommit | KBlob | KNode | KCheckpoint | KCollectionPlan

fun kind_rank :: "immutable_kind \<Rightarrow> nat" where
  "kind_rank KCommit = 0"
| "kind_rank KBlob = 1"
| "kind_rank KNode = 2"
| "kind_rank KCheckpoint = 3"
| "kind_rank KCollectionPlan = 4"

lemma kind_rank_inject [simp]: "kind_rank a = kind_rank b \<longleftrightarrow> a = b"
  by (cases a; cases b) auto

datatype immutable_key =
  ImmutableKey (k_incarnation: uuid) (k_kind: immutable_kind) (k_storage_id: storage_id)
    (k_digest: digest)

text \<open>\<^verbatim>\<open>derive(Ord)\<close> compares the fields of a key lexicographically, in declaration order.\<close>

instantiation immutable_key :: linorder
begin

definition less_immutable_key :: "immutable_key \<Rightarrow> immutable_key \<Rightarrow> bool" where
  "less_immutable_key a b \<longleftrightarrow>
    k_incarnation a < k_incarnation b \<or> k_incarnation a = k_incarnation b \<and>
    (kind_rank (k_kind a) < kind_rank (k_kind b) \<or> k_kind a = k_kind b \<and>
     (k_storage_id a < k_storage_id b \<or> k_storage_id a = k_storage_id b \<and>
      k_digest a < k_digest b))"

definition less_eq_immutable_key :: "immutable_key \<Rightarrow> immutable_key \<Rightarrow> bool" where
  "less_eq_immutable_key a b \<longleftrightarrow> a < b \<or> a = b"

instance
proof
  fix x y z :: immutable_key
  show "x < y \<longleftrightarrow> x \<le> y \<and> \<not> y \<le> x"
    by (auto simp: less_eq_immutable_key_def less_immutable_key_def)
  show "x \<le> x"
    by (simp add: less_eq_immutable_key_def)
  show "x \<le> y \<Longrightarrow> y \<le> z \<Longrightarrow> x \<le> z"
    by (auto simp: less_eq_immutable_key_def less_immutable_key_def)
  show "x \<le> y \<Longrightarrow> y \<le> x \<Longrightarrow> x = y"
    by (auto simp: less_eq_immutable_key_def less_immutable_key_def)
  show "x \<le> y \<or> y \<le> x"
    using kind_rank_inject [of "k_kind x" "k_kind y"]
    by (auto simp: less_eq_immutable_key_def less_immutable_key_def immutable_key.expand
      not_less_iff_gr_or_eq simp del: kind_rank_inject)
qed

end

end
