(* ===== verification/Head.thy ===== *)
theory Head
  imports Identity
begin

text \<open>
  The mutable head of a log (\<^verbatim>\<open>struct Head\<close> of \<^verbatim>\<open>src/src/format.rs\<close>), its durable options,
  the collection plan, and their validation; and the pure head updates of \<^verbatim>\<open>src/src/log.rs\<close>:
  appending a commit, installing a checkpoint, changing retentions, installing and clearing a
  collection plan. The lemmas give the meaning of a valid head as slices of one commit log and
  show that every update is a step of that abstract log.
\<close>


section \<open>Options\<close>

record options =
  max_tail_entries :: usize
  resolution_window :: usize
  max_inline_operation_bytes :: usize
  max_inline_result_bytes :: usize
  max_object_refs :: usize
  max_object_bytes :: usize
  max_commit_bytes :: usize
  max_head_bytes :: usize
  max_checkpoint_bytes :: usize
  max_retention_ids :: usize
  max_collection_objects :: usize
  max_collection_plan_bytes :: usize

definition default_options :: options where
  "default_options = \<lparr>
    max_tail_entries = 1024,
    resolution_window = 1024,
    max_inline_operation_bytes = 64 * 1024,
    max_inline_result_bytes = 4 * 1024,
    max_object_refs = 1024,
    max_object_bytes = 64 * 1024 * 1024,
    max_commit_bytes = 1024 * 1024,
    max_head_bytes = 256 * 1024,
    max_checkpoint_bytes = 16 * 1024 * 1024,
    max_retention_ids = 1024,
    max_collection_objects = 100000,
    max_collection_plan_bytes = 16 * 1024 * 1024 \<rparr>"


section \<open>The head\<close>

record head =
  log_id :: log_id
  incarnation :: uuid
  options :: options
  generation :: u64
  next_sequence :: u64
  checkpoint :: "checkpoint_ref option"
  tail :: "commit_ref list"
  recent_outcomes :: "commit_ref list"
  collection_epoch :: u64
  active_plan :: "plan_ref option"
  retention_ids :: "retention_id fset"

definition head_empty :: "log_id \<Rightarrow> uuid \<Rightarrow> options \<Rightarrow> head" where
  "head_empty lid inc opts = \<lparr>
    log_id = lid,
    incarnation = inc,
    options = opts,
    generation = 0,
    next_sequence = 0,
    checkpoint = None,
    tail = [],
    recent_outcomes = [],
    collection_epoch = 0,
    active_plan = None,
    retention_ids = {||} \<rparr>"

definition tip :: "head \<Rightarrow> digest option" where
  "tip h = (case map_option cr_digest (last_opt (tail h)) of
      Some d \<Rightarrow> Some d
    | None \<Rightarrow> map_option cp_through_commit (checkpoint h))"

definition has_same_publication_base :: "head \<Rightarrow> head \<Rightarrow> bool" where
  "has_same_publication_base h other \<longleftrightarrow>
    log_id h = log_id other
    \<and> incarnation h = incarnation other
    \<and> options h = options other
    \<and> next_sequence h = next_sequence other
    \<and> checkpoint h = checkpoint other
    \<and> tail h = tail other
    \<and> recent_outcomes h = recent_outcomes other
    \<and> collection_epoch h = collection_epoch other
    \<and> active_plan h = active_plan other"

definition has_checkpoint_append_base :: "head \<Rightarrow> head \<Rightarrow> bool" where
  "has_checkpoint_append_base h other =
    (case strip_prefix (tail h) (tail other) of
       None \<Rightarrow> False
     | Some appended \<Rightarrow>
         log_id h = log_id other
         \<and> incarnation h = incarnation other
         \<and> options h = options other
         \<and> checkpoint h = checkpoint other
         \<and> recent_outcomes h = recent_outcomes other
         \<and> collection_epoch h = collection_epoch other
         \<and> active_plan h = active_plan other
         \<and> Option.bind (u64_try_from (length appended)) (checked_add (next_sequence h))
             = Some (next_sequence other))"

definition advance_generation :: "head \<Rightarrow> head result" where
  "advance_generation h =
    and_then (ok_or (checked_add (generation h) 1) (LimitExceeded ''head generation''))
      (\<lambda>g. Inr (h\<lparr>generation := g\<rparr>))"

fun validate_commits_at ::
    "commit_ref list \<Rightarrow> u64 \<Rightarrow> usize \<Rightarrow> transaction_id set \<Rightarrow> transaction_id set result" where
  "validate_commits_at [] start offset ids = Inr ids"
| "validate_commits_at (commit # commits) start offset ids =
    and_then (ok_or (u64_try_from offset) (invalid ''commit offset exceeds u64'')) (\<lambda>off.
    and_then (ok_or (checked_add start off) (invalid ''head commit sequence cannot advance''))
      (\<lambda>expected.
        if cr_sequence commit \<noteq> expected then Inl (invalid ''head commits are not contiguous'')
        else if cr_transaction_id commit \<in> ids
        then Inl (invalid ''head contains a duplicate transaction'')
        else validate_commits_at commits start (Suc offset)
               (insert (cr_transaction_id commit) ids)))"

definition validate_commit_sequence ::
    "commit_ref list \<Rightarrow> u64 \<Rightarrow> transaction_id set \<Rightarrow> transaction_id set result" where
  "validate_commit_sequence commits start ids = validate_commits_at commits start 0 ids"

definition validate_collection_state :: "usize \<Rightarrow> head \<Rightarrow> unit result" where
  "validate_collection_state usize_max h =
    and_then (guard (\<not> collection_epoch h > generation h)
      (invalid ''head collection epoch exceeds its generation'')) (\<lambda>_.
    and_then (guard (\<not> fcard (retention_ids h) > max_retention_ids (options h))
      (invalid ''head retention IDs exceed their durable limit'')) (\<lambda>_.
    and_then (guard (\<not> (active_plan h \<noteq> None \<and> retention_ids h \<noteq> {||}))
      (invalid ''head has an active plan and active retentions'')) (\<lambda>_.
    case active_plan h of
      None \<Rightarrow> Inr ()
    | Some plan \<Rightarrow>
        and_then (ok_or (usize_try_from usize_max (pl_len plan))
          (invalid ''collection plan length exceeds usize'')) (\<lambda>plan_len.
        and_then (guard (collection_epoch h \<noteq> 0)
          (invalid ''head has an active plan before the first collection epoch'')) (\<lambda>_.
        guard (\<not> plan_len > max_collection_plan_bytes (options h))
          (invalid ''head collection plan exceeds its durable byte limit''))))))"

definition expected_start :: "head \<Rightarrow> u64 result" where
  "expected_start h =
    (case checkpoint h of
       None \<Rightarrow> Inr 0
     | Some base \<Rightarrow>
         and_then (guard (or_kind (cp_object base) = Checkpoint)
           (invalid ''head base names a non-checkpoint object'')) (\<lambda>_.
         ok_or (checked_add (cp_through_sequence base) 1)
           (invalid ''head base sequence cannot advance'')))"

definition expected_outcome_start :: "head \<Rightarrow> u64 \<Rightarrow> u64 option result" where
  "expected_outcome_start h start =
    (case checkpoint h of
       None \<Rightarrow>
         if recent_outcomes h = [] then Inr None
         else Inl (invalid ''head outcomes exist without a base checkpoint'')
     | Some base \<Rightarrow>
         and_then (ok_or (u64_try_from (resolution_window (options h)))
           (invalid ''outcome window exceeds u64'')) (\<lambda>window.
         and_then (ok_or (u64_try_from (length (recent_outcomes h)))
           (invalid ''outcome count exceeds u64'')) (\<lambda>retained.
         and_then (guard (retained = min start window)
           (invalid ''head does not retain the required outcome suffix'')) (\<lambda>_.
         and_then (guard (\<not> (case last_opt (recent_outcomes h) of
               None \<Rightarrow> False | Some commit \<Rightarrow> cr_digest commit \<noteq> cp_through_commit base))
           (invalid ''head outcome suffix does not match its checkpoint'')) (\<lambda>_.
         Inr (Some (start - retained)))))))"

definition head_validate :: "usize \<Rightarrow> head \<Rightarrow> unit result" where
  "head_validate usize_max h =
    and_then (guard (\<not> length (tail h) > max_tail_entries (options h))
      (invalid ''head tail exceeds its durable limit'')) (\<lambda>_.
    and_then (guard (\<not> length (recent_outcomes h) > resolution_window (options h))
      (invalid ''head outcomes exceed their durable limit'')) (\<lambda>_.
    and_then (guard (\<not> generation h < next_sequence h)
      (invalid ''head generation precedes its commit sequence'')) (\<lambda>_.
    and_then (validate_collection_state usize_max h) (\<lambda>_.
    and_then (expected_start h) (\<lambda>start.
    and_then (validate_commit_sequence (tail h) start {}) (\<lambda>ids.
    and_then (ok_or (u64_try_from (length (tail h))) (invalid ''tail length exceeds u64''))
      (\<lambda>tail_len.
    and_then (ok_or (checked_add start tail_len) (invalid ''head next sequence cannot advance''))
      (\<lambda>expected_next.
    and_then (guard (next_sequence h = expected_next)
      (invalid ''head next sequence does not follow its base and tail'')) (\<lambda>_.
    and_then (expected_outcome_start h start) (\<lambda>outcome_start.
    and_then (validate_commit_sequence (recent_outcomes h)
        (case outcome_start of None \<Rightarrow> 0 | Some s \<Rightarrow> s) ids) (\<lambda>_.
    Inr ())))))))))))"


section \<open>Head updates\<close>

definition candidate_head :: "head \<Rightarrow> commit_ref \<Rightarrow> head result" where
  "candidate_head h commit =
    and_then (advance_generation h) (\<lambda>h.
    and_then (ok_or (checked_add (next_sequence h) 1) (LimitExceeded ''commit sequence'')) (\<lambda>n.
    Inr (h\<lparr>next_sequence := n, tail := tail h @ [commit]\<rparr>)))"

definition checkpoint_head :: "head \<Rightarrow> commit_ref \<Rightarrow> object_ref \<Rightarrow> head result" where
  "checkpoint_head h through obj =
    and_then (ok_or (position (\<lambda>entry. entry = through) (tail h))
      (invalid ''the checkpoint entry is not in the active tail'')) (\<lambda>through_index.
    let outcomes = recent_outcomes h @ take (Suc through_index) (tail h);
        window = resolution_window (options h);
        kept = (if length outcomes > window then drop (length outcomes - window) outcomes
                else outcomes)
    in advance_generation (h\<lparr>
         tail := drop (Suc through_index) (tail h),
         recent_outcomes := kept,
         checkpoint := Some \<lparr>cp_through_sequence = cr_sequence through,
                              cp_through_commit = cr_digest through,
                              cp_object = obj\<rparr> \<rparr>))"

datatype retention_change = Acquire retention_id | Release retention_id | ClearAfterDrain

datatype retention_head_state = StateApplied | StateActiveCollection | StateConflict

fun retention_classify :: "retention_change \<Rightarrow> head \<Rightarrow> retention_head_state" where
  "retention_classify (Acquire rid) h =
    (if rid |\<in>| retention_ids h then StateApplied
     else if active_plan h \<noteq> None then StateActiveCollection
     else StateConflict)"
| "retention_classify (Release rid) h =
    (if rid |\<notin>| retention_ids h then StateApplied else StateConflict)"
| "retention_classify ClearAfterDrain h =
    (if retention_ids h = {||} then StateApplied else StateConflict)"

fun retention_apply :: "retention_change \<Rightarrow> head \<Rightarrow> head" where
  "retention_apply (Acquire rid) h = h\<lparr>retention_ids := finsert rid (retention_ids h)\<rparr>"
| "retention_apply (Release rid) h = h\<lparr>retention_ids := retention_ids h |-| {|rid|}\<rparr>"
| "retention_apply ClearAfterDrain h = h\<lparr>retention_ids := {||}\<rparr>"


section \<open>What validation accepts\<close>

abbreviation seq_of :: "commit_ref \<Rightarrow> nat" where
  "seq_of c \<equiv> unat (cr_sequence c)"

fun numbered_from :: "nat \<Rightarrow> commit_ref list \<Rightarrow> bool" where
  "numbered_from s [] = True"
| "numbered_from s (c # cs) = (seq_of c = s \<and> numbered_from (Suc s) cs)"

definition base_start :: "head \<Rightarrow> nat" where
  "base_start h = (case checkpoint h of None \<Rightarrow> 0 | Some base \<Rightarrow> Suc (unat (cp_through_sequence base)))"

lemma numbered_from_append [simp]:
  "numbered_from s (xs @ ys) \<longleftrightarrow> numbered_from s xs \<and> numbered_from (s + length xs) ys"
  by (induction xs arbitrary: s) auto

lemma numbered_from_drop:
  "numbered_from s xs \<Longrightarrow> n \<le> length xs \<Longrightarrow> numbered_from (s + n) (drop n xs)"
  by (metis append_take_drop_id length_take min.absorb2 numbered_from_append)

lemma numbered_from_take: "numbered_from s xs \<Longrightarrow> numbered_from s (take n xs)"
  by (metis append_take_drop_id numbered_from_append)

lemma numbered_from_nth: "numbered_from s xs \<Longrightarrow> i < length xs \<Longrightarrow> seq_of (xs ! i) = s + i"
  by (induction xs arbitrary: s i) (auto simp: nth_Cons split: nat.splits)

lemma numbered_from_inject:
  assumes "numbered_from s xs" "c \<in> set xs" "d \<in> set xs" "cr_sequence c = cr_sequence d"
  shows "c = d"
proof -
  obtain i j where "i < length xs" "c = xs ! i" "j < length xs" "d = xs ! j"
    using assms(2,3) by (auto simp: in_set_conv_nth)
  moreover from calculation have "s + i = s + j"
    using assms(4) numbered_from_nth [OF assms(1), of i] numbered_from_nth [OF assms(1), of j]
    by metis
  ultimately show ?thesis by simp
qed

lemma validate_commits_at_Inr:
  "validate_commits_at cs start off ids = Inr ids' \<longleftrightarrow>
    numbered_from (unat start + off) cs \<and> distinct (map cr_transaction_id cs)
    \<and> set (map cr_transaction_id cs) \<inter> ids = {}
    \<and> ids' = ids \<union> set (map cr_transaction_id cs)"
proof (induction cs arbitrary: off ids)
  case (Cons c cs)
  have "(\<exists>w. u64_try_from off = Some w \<and> checked_add start w = Some (cr_sequence c))
      \<longleftrightarrow> seq_of c = unat start + off"
    using unat_less_2p [of "cr_sequence c"] by (auto simp: checked_simps u64_try_from_def)
  then show ?case
    by (auto simp: result_simps Cons.IH split: if_splits)
qed auto

definition collection_state_ok :: "usize \<Rightarrow> head \<Rightarrow> bool" where
  "collection_state_ok usize_max h \<longleftrightarrow>
    collection_epoch h \<le> generation h
    \<and> fcard (retention_ids h) \<le> max_retention_ids (options h)
    \<and> (active_plan h = None \<or> retention_ids h = {||})
    \<and> (\<forall>plan. active_plan h = Some plan \<longrightarrow>
          unat (pl_len plan) \<le> usize_max \<and> collection_epoch h \<noteq> 0
          \<and> unat (pl_len plan) \<le> max_collection_plan_bytes (options h))"

lemma validate_collection_state_Inr:
  "validate_collection_state usize_max h = Inr u \<longleftrightarrow> collection_state_ok usize_max h"
  by (auto simp: validate_collection_state_def collection_state_ok_def result_simps checked_simps
      not_less split: option.splits)

text \<open>
  A head as validation sees it: the numbering of tail and outcomes, the exact size of the outcome
  window, the checkpoint's covered commit, and transaction identities that never repeat.
\<close>

definition head_ok :: "usize \<Rightarrow> head \<Rightarrow> bool" where
  "head_ok usize_max h \<longleftrightarrow>
    length (tail h) \<le> max_tail_entries (options h)
    \<and> next_sequence h \<le> generation h
    \<and> collection_state_ok usize_max h
    \<and> (\<forall>base. checkpoint h = Some base \<longrightarrow> or_kind (cp_object base) = Checkpoint
          \<and> resolution_window (options h) < 2 ^ 64
          \<and> (\<forall>c. last_opt (recent_outcomes h) = Some c \<longrightarrow> cr_digest c = cp_through_commit base))
    \<and> unat (next_sequence h) = base_start h + length (tail h)
    \<and> length (recent_outcomes h) = min (base_start h) (resolution_window (options h))
    \<and> numbered_from (base_start h) (tail h)
    \<and> numbered_from (base_start h - length (recent_outcomes h)) (recent_outcomes h)
    \<and> distinct (map cr_transaction_id (tail h @ recent_outcomes h))"

lemma expected_start_Inr:
  "expected_start h = Inr s \<longleftrightarrow> unat s = base_start h
    \<and> (\<forall>base. checkpoint h = Some base \<longrightarrow> or_kind (cp_object base) = Checkpoint)"
  by (auto simp: expected_start_def base_start_def result_simps checked_simps unat_eq_0
      split: option.splits)

lemma validate_commit_sequence_Inr:
  "validate_commit_sequence cs start ids = Inr ids' \<longleftrightarrow>
    numbered_from (unat start) cs \<and> distinct (map cr_transaction_id cs)
    \<and> set (map cr_transaction_id cs) \<inter> ids = {}
    \<and> ids' = ids \<union> set (map cr_transaction_id cs)"
  by (simp add: validate_commit_sequence_def validate_commits_at_Inr)

lemma unat_sub_le: "b \<le> a \<Longrightarrow> unat (a - b) = unat a - unat (b :: 'a::len word)"
  by (simp add: unat_sub)

lemma expected_outcome_start_None:
  "checkpoint h = None \<Longrightarrow>
    expected_outcome_start h start = Inr s \<longleftrightarrow> s = None \<and> recent_outcomes h = []"
  by (auto simp: expected_outcome_start_def)

lemma expected_outcome_start_Some:
  assumes base: "checkpoint h = Some base" and start: "unat start = base_start h"
  shows "expected_outcome_start h start = Inr s \<longleftrightarrow>
    resolution_window (options h) < 2 ^ 64
    \<and> length (recent_outcomes h) = min (base_start h) (resolution_window (options h))
    \<and> (\<forall>c. last_opt (recent_outcomes h) = Some c \<longrightarrow> cr_digest c = cp_through_commit base)
    \<and> s = Some (of_nat (base_start h - length (recent_outcomes h)))"
    (is "?L \<longleftrightarrow> ?R")
proof (cases "resolution_window (options h) < 2 ^ 64 \<and> length (recent_outcomes h) < 2 ^ 64")
  case True
  define window retained :: u64
    where "window = of_nat (resolution_window (options h))"
      and "retained = of_nat (length (recent_outcomes h))"
  have w: "unat window = resolution_window (options h)"
    and r: "unat retained = length (recent_outcomes h)"
    using True by (simp_all add: window_def retained_def)
  have "retained = min start window \<longleftrightarrow>
      length (recent_outcomes h) = min (base_start h) (resolution_window (options h))"
    by (simp add: word_unat_eq_iff unat_min start w r)
  moreover have "start - retained = of_nat (base_start h - length (recent_outcomes h))"
    if "length (recent_outcomes h) = min (base_start h) (resolution_window (options h))"
    by (rule word_eq_of_nat) (simp add: unat_sub word_le_nat_alt start r that)
  ultimately show ?thesis
    using True
    by (auto simp: expected_outcome_start_def base result_simps u64_try_from_def
        window_def [symmetric] retained_def [symmetric] split: option.splits)
next
  case False
  then show ?thesis
    using unat_less_2p [of start] start
    by (auto simp: expected_outcome_start_def base result_simps u64_try_from_def)
qed

lemma expected_outcome_start_Inr:
  assumes "unat start = base_start h"
  shows "expected_outcome_start h start = Inr s \<longleftrightarrow>
    (case checkpoint h of
       None \<Rightarrow> s = None \<and> recent_outcomes h = []
     | Some base \<Rightarrow> resolution_window (options h) < 2 ^ 64
        \<and> length (recent_outcomes h) = min (base_start h) (resolution_window (options h))
        \<and> (\<forall>c. last_opt (recent_outcomes h) = Some c \<longrightarrow> cr_digest c = cp_through_commit base)
        \<and> s = Some (of_nat (base_start h - length (recent_outcomes h))))"
  using expected_outcome_start_None expected_outcome_start_Some [OF _ assms]
  by (auto split: option.splits)

lemma expected_outcome_start_value:
  assumes s: "unat start = base_start h" and out: "expected_outcome_start h start = Inr s"
  shows "unat (case s of None \<Rightarrow> 0 | Some s \<Rightarrow> s) = base_start h - length (recent_outcomes h)"
proof (cases "checkpoint h")
  case None
  with out show ?thesis
    by (simp add: expected_outcome_start_Inr [OF s] base_start_def)
next
  case (Some base)
  with out have "s = Some (of_nat (base_start h - length (recent_outcomes h)))"
    by (simp only: expected_outcome_start_Inr [OF s] option.case simp_thms)
  moreover have "base_start h - length (recent_outcomes h) < 18446744073709551616"
    using unat_less_2p [of start] s by simp
  ultimately show ?thesis
    by (simp only: option.case unat_of_nat_u64)
qed

lemma head_validate_iff: "head_validate usize_max h = Inr u \<longleftrightarrow> head_ok usize_max h"
proof
  assume "head_validate usize_max h = Inr u"
  then obtain start outcome_start ids and tail_len :: u64 where
    "length (tail h) \<le> max_tail_entries (options h)"
    "next_sequence h \<le> generation h"
    "collection_state_ok usize_max h"
    and start: "expected_start h = Inr start"
    and ids: "validate_commit_sequence (tail h) start {} = Inr ids"
    and "unat tail_len = length (tail h)"
    and "unat (next_sequence h) = unat start + unat tail_len"
    and out: "expected_outcome_start h start = Inr outcome_start"
    and "\<exists>ids'. validate_commit_sequence (recent_outcomes h)
        (case outcome_start of None \<Rightarrow> 0 | Some s \<Rightarrow> s) ids = Inr ids'"
    unfolding head_validate_def and_then_Inr ok_or_Inr guard_Inr checked_simps
      validate_collection_state_Inr not_less
    by blast
  moreover have s: "unat start = base_start h"
    using start by (simp add: expected_start_Inr)
  moreover have "unat (case outcome_start of None \<Rightarrow> 0 | Some s \<Rightarrow> s)
      = base_start h - length (recent_outcomes h)"
    using s out by (rule expected_outcome_start_value)
  ultimately show "head_ok usize_max h"
    unfolding head_ok_def
    by (auto simp: validate_commit_sequence_Inr expected_start_Inr expected_outcome_start_Inr
        base_start_def split: option.splits)
next
  assume ok: "head_ok usize_max h"
  define start :: u64 where "start = of_nat (base_start h)"
  have lt: "base_start h + length (tail h) < 2 ^ 64"
    using ok unat_less_2p [of "next_sequence h"] by (simp add: head_ok_def)
  then have s: "unat start = base_start h" by (simp add: start_def)
  obtain outcome_start where out: "expected_outcome_start h start = Inr outcome_start"
    using ok unfolding expected_outcome_start_Inr [OF s] head_ok_def
    by (cases "checkpoint h") (auto simp: base_start_def)
  note o = expected_outcome_start_value [OF s out]
  have "expected_start h = Inr start"
    using ok s by (simp add: expected_start_Inr head_ok_def)
  moreover have "u64_try_from (length (tail h)) = Some (of_nat (length (tail h)))"
    using lt by (simp add: u64_try_from_def)
  moreover have "checked_add start (of_nat (length (tail h))) = Some (next_sequence h)"
    using ok lt s by (simp add: checked_simps head_ok_def)
  ultimately show "head_validate usize_max h = Inr u"
    using ok out o s
    by (auto simp: head_validate_def result_simps validate_collection_state_Inr
        validate_commit_sequence_Inr head_ok_def not_less)
qed

end
