(* ===== verification/Head_Log.thy ===== *)
theory Head_Log
  imports Head
begin

text \<open>
  The abstract log behind a head. The promise of the mutable head is one append-only list of
  commits: \<open>represents h L\<close> says which slices of the list \<open>L\<close> the head \<open>h\<close> keeps (the active tail,
  the window of compacted outcomes, the tip). \<open>head_step\<close> lists the head updates the program
  publishes; the lemmas show that each of them refines a step of the abstract log, moves the
  counters in one direction only, and keeps the head valid.
\<close>

named_theorems step_defs \<open>definitions of the head updates\<close>


section \<open>Maintenance updates of the head\<close>

definition retention_head :: "retention_change \<Rightarrow> head \<Rightarrow> head result" where
  "retention_head change h = advance_generation (retention_apply change h)"

definition install_plan_head :: "head \<Rightarrow> u64 \<Rightarrow> plan_ref \<Rightarrow> head result" where
  "install_plan_head h epoch plan =
    and_then (advance_generation h) (\<lambda>h.
    Inr (h\<lparr>collection_epoch := epoch, active_plan := Some plan\<rparr>))"

definition clear_plan_head :: "head \<Rightarrow> head result" where
  "clear_plan_head h = advance_generation (h\<lparr>active_plan := None\<rparr>)"

definition can_advance :: "head \<Rightarrow> bool" where
  "can_advance h \<longleftrightarrow> Suc (unat (generation h)) < 2 ^ 64"

lemma unat_generation_succ: "can_advance h \<Longrightarrow> unat (generation h + 1) = Suc (unat (generation h))"
  by (simp add: can_advance_def unat_succ)

lemma advance_generation_Inr:
  "advance_generation h = Inr h' \<longleftrightarrow> can_advance h \<and> h' = h\<lparr>generation := generation h + 1\<rparr>"
  by (auto simp: advance_generation_def result_simps checked_succ_Some can_advance_def)

lemma candidate_head_Inr:
  "candidate_head h c = Inr h' \<longleftrightarrow>
    can_advance h \<and> Suc (unat (next_sequence h)) < 2 ^ 64
    \<and> h' = h\<lparr>generation := generation h + 1, next_sequence := next_sequence h + 1,
        tail := tail h @ [c]\<rparr>"
  by (auto simp: candidate_head_def result_simps checked_succ_Some advance_generation_Inr)

lemma retention_head_Inr:
  "retention_head ch h = Inr h' \<longleftrightarrow>
    can_advance h \<and> h' = h\<lparr>generation := generation h + 1,
      retention_ids := retention_ids (retention_apply ch h)\<rparr>"
  by (cases ch) (auto simp: retention_head_def advance_generation_Inr can_advance_def)

lemma install_plan_head_Inr:
  "install_plan_head h e p = Inr h' \<longleftrightarrow>
    can_advance h \<and> h' = h\<lparr>generation := generation h + 1, collection_epoch := e,
      active_plan := Some p\<rparr>"
  by (auto simp: install_plan_head_def result_simps advance_generation_Inr)

lemma clear_plan_head_Inr:
  "clear_plan_head h = Inr h' \<longleftrightarrow>
    can_advance h \<and> h' = h\<lparr>generation := generation h + 1, active_plan := None\<rparr>"
  by (auto simp: clear_plan_head_def advance_generation_Inr can_advance_def)

definition keep_window :: "nat \<Rightarrow> 'a list \<Rightarrow> 'a list" where
  "keep_window w xs = drop (length xs - w) xs"

definition compacted_head :: "head \<Rightarrow> nat \<Rightarrow> commit_ref \<Rightarrow> object_ref \<Rightarrow> head" where
  "compacted_head h i through obj = h\<lparr>generation := generation h + 1,
     tail := drop (Suc i) (tail h),
     recent_outcomes := keep_window (resolution_window (options h))
       (recent_outcomes h @ take (Suc i) (tail h)),
     checkpoint := Some \<lparr>cp_through_sequence = cr_sequence through,
       cp_through_commit = cr_digest through, cp_object = obj\<rparr>\<rparr>"

lemma base_start_compacted [simp]: "base_start (compacted_head h i through obj) = Suc (seq_of through)"
  by (simp add: base_start_def compacted_head_def)

lemma checkpoint_head_Inr:
  "checkpoint_head h through obj = Inr h' \<longleftrightarrow>
    can_advance h \<and> (\<exists>i. position (\<lambda>entry. entry = through) (tail h) = Some i
      \<and> h' = compacted_head h i through obj)"
proof -
  have keep: "(if length xs > w then drop (length xs - w) xs else xs) = keep_window w xs"
    for w and xs :: "commit_ref list"
    by (simp add: keep_window_def)
  show ?thesis
    unfolding checkpoint_head_def Let_def keep
    by (auto simp: result_simps advance_generation_Inr can_advance_def compacted_head_def)
qed

lemmas update_Inr [step_defs] =
  candidate_head_Inr checkpoint_head_Inr retention_head_Inr install_plan_head_Inr
  clear_plan_head_Inr


section \<open>The published steps\<close>

inductive head_step :: "head \<Rightarrow> head \<Rightarrow> bool" where
  step_append: "cr_sequence c = next_sequence h \<Longrightarrow> candidate_head h c = Inr h' \<Longrightarrow> head_step h h'"
| step_checkpoint: "checkpoint_head h through obj = Inr h' \<Longrightarrow> head_step h h'"
| step_retention: "retention_classify ch h = StateConflict \<Longrightarrow> retention_head ch h = Inr h' \<Longrightarrow>
    head_step h h'"
| step_install: "active_plan h = None \<Longrightarrow> retention_ids h = {||} \<Longrightarrow>
    checked_add (collection_epoch h) 1 = Some e \<Longrightarrow> install_plan_head h e p = Inr h' \<Longrightarrow>
    head_step h h'"
| step_clear: "active_plan h = Some p \<Longrightarrow> clear_plan_head h = Inr h' \<Longrightarrow> head_step h h'"

lemma head_step_generation: "head_step h h' \<Longrightarrow> unat (generation h') = Suc (unat (generation h))"
  by (induction rule: head_step.induct)
    (auto simp: step_defs compacted_head_def unat_generation_succ)

lemma head_step_identity:
  "head_step h h' \<Longrightarrow> log_id h' = log_id h \<and> incarnation h' = incarnation h \<and> options h' = options h"
  by (induction rule: head_step.induct) (auto simp: step_defs compacted_head_def)

lemma head_step_epoch: "head_step h h' \<Longrightarrow> collection_epoch h \<le> collection_epoch h'"
  by (induction rule: head_step.induct) (auto simp: step_defs compacted_head_def checked_simps word_le_nat_alt)

lemma head_step_sequence: "head_step h h' \<Longrightarrow> next_sequence h \<le> next_sequence h'"
  by (induction rule: head_step.induct)
    (auto simp: step_defs compacted_head_def word_le_nat_alt unat_succ)


section \<open>The abstract log\<close>

definition represents :: "head \<Rightarrow> commit_ref list \<Rightarrow> bool" where
  "represents h L \<longleftrightarrow>
    unat (next_sequence h) = length L
    \<and> base_start h \<le> length L
    \<and> numbered_from 0 L
    \<and> tail h = drop (base_start h) L
    \<and> recent_outcomes h = keep_window (resolution_window (options h)) (take (base_start h) L)
    \<and> (case checkpoint h of None \<Rightarrow> True
       | Some base \<Rightarrow> cp_through_commit base = cr_digest (L ! (base_start h - 1)))"

lemma represents_empty: "represents (head_empty lid inc opts) []"
  by (simp add: represents_def head_empty_def base_start_def keep_window_def)

lemma keep_window_append:
  "keep_window w (keep_window w xs @ ys) = keep_window w (xs @ ys)"
  by (cases "length xs \<le> w") (auto simp: keep_window_def add.commute)

lemma represents_append:
  assumes "represents h L" "cr_sequence c = next_sequence h" "candidate_head h c = Inr h'"
  shows "represents h' (L @ [c])"
  using assms
  by (auto simp: represents_def candidate_head_Inr base_start_def nth_append unat_succ
      split: option.splits)

lemma position_tail_start:
  assumes rep: "represents h L" and pos: "position (\<lambda>e. e = through) (tail h) = Some i"
  shows "base_start h + i < length L" "through = L ! (base_start h + i)"
    "seq_of through = base_start h + i"
proof -
  show len: "base_start h + i < length L" and thr: "through = L ! (base_start h + i)"
    using rep position_Some [OF pos] by (auto simp: represents_def)
  show "seq_of through = base_start h + i"
    using rep numbered_from_nth [of 0 L "base_start h + i"] len thr by (simp add: represents_def)
qed

lemma represents_checkpoint:
  assumes rep: "represents h L" and cp: "checkpoint_head h through obj = Inr h'"
  shows "represents h' L"
proof -
  obtain i where pos: "position (\<lambda>e. e = through) (tail h) = Some i"
    and h': "h' = compacted_head h i through obj"
    using cp by (auto simp: checkpoint_head_Inr)
  note through = position_tail_start [OF rep pos]
  have start: "base_start h' = Suc (base_start h + i)"
    by (simp add: h' through(3))
  have "take (base_start h) L @ take (Suc i) (drop (base_start h) L) = take (base_start h') L"
    by (simp add: start take_add [symmetric])
  with rep have "recent_outcomes h' = keep_window (resolution_window (options h)) (take (base_start h') L)"
    by (simp add: h' compacted_head_def represents_def keep_window_append)
  with rep through start show ?thesis
    by (simp add: represents_def h' compacted_head_def add.commute)
qed

text \<open>One published step appends at most one commit to the abstract log and removes none.\<close>

lemma head_step_represents:
  assumes "head_step h h'" "represents h L"
  shows "represents h' L \<or> (\<exists>c. cr_sequence c = next_sequence h \<and> represents h' (L @ [c]))"
  using assms
proof (induction rule: head_step.induct)
  case (step_append c h h')
  then show ?case using represents_append by blast
next
  case (step_checkpoint h through obj h')
  then show ?case using represents_checkpoint by blast
qed (auto simp: represents_def base_start_def step_defs split: option.splits)


section \<open>Validity of the updates\<close>

lemma head_empty_ok: "head_ok usize_max (head_empty lid inc opts)"
  by (simp add: head_ok_def head_empty_def collection_state_ok_def base_start_def fcard_fempty)

lemma candidate_head_ok:
  assumes ok: "head_ok usize_max h" and room: "length (tail h) < max_tail_entries (options h)"
    and seq: "cr_sequence c = next_sequence h"
    and fresh: "cr_transaction_id c \<notin> cr_transaction_id ` set (tail h @ recent_outcomes h)"
    and cand: "candidate_head h c = Inr h'"
  shows "head_ok usize_max h'"
proof -
  have h': "h' = h\<lparr>generation := generation h + 1, next_sequence := next_sequence h + 1,
      tail := tail h @ [c]\<rparr>" and adv: "can_advance h" "Suc (unat (next_sequence h)) < 2 ^ 64"
    using cand by (auto simp: candidate_head_Inr)
  have "collection_state_ok usize_max h'"
    using ok adv(1)
    by (auto simp: h' head_ok_def collection_state_ok_def word_le_nat_alt unat_generation_succ)
  with ok room seq fresh adv show ?thesis
    by (auto simp: head_ok_def h' base_start_def word_le_nat_alt unat_generation_succ unat_succ
        image_iff split: option.splits)
qed

lemma length_keep_window [simp]: "length (keep_window w xs) = min w (length xs)"
  by (simp add: keep_window_def)

lemma numbered_from_keep_window:
  "numbered_from s xs \<Longrightarrow> numbered_from (s + (length xs - w)) (keep_window w xs)"
  by (simp add: keep_window_def numbered_from_drop)

lemma last_opt_keep_window:
  "last_opt (keep_window w xs) = Some c \<Longrightarrow> last_opt xs = Some c"
  by (auto simp: keep_window_def last_opt_def split: if_splits)

lemma last_take_Suc: "i < length xs \<Longrightarrow> last_opt (ys @ take (Suc i) xs) = Some (xs ! i)"
  by (simp add: take_Suc_conv_app_nth last_opt_def)

lemma distinct_keep_window:
  assumes "distinct (map f (t @ xs))"
  shows "distinct (map f (drop n t @ keep_window w (xs @ take n t)))"
proof -
  have "distinct (map f ((take n t @ drop n t) @ xs))"
    using assms by (simp only: append_take_drop_id)
  then have d: "distinct (map f (drop n t @ xs @ take n t))"
    unfolding map_append distinct_append set_append by blast
  obtain k where k: "xs @ take n t = k @ keep_window w (xs @ take n t)"
    unfolding keep_window_def by (metis append_take_drop_id)
  have "distinct (map f (drop n t @ k @ keep_window w (xs @ take n t)))"
    using d by (simp only: k [symmetric])
  then show ?thesis
    unfolding map_append distinct_append set_append by blast
qed

lemma tail_index:
  assumes "head_ok usize_max h" "position (\<lambda>e. e = through) (tail h) = Some i"
  shows "i < length (tail h)" "through = tail h ! i" "seq_of through = base_start h + i"
  using assms position_Some [OF assms(2)] numbered_from_nth [of "base_start h" "tail h" i]
  by (auto simp: head_ok_def)

lemma checkpoint_head_ok:
  assumes ok: "head_ok usize_max h" and kind: "or_kind obj = Checkpoint"
    and window: "resolution_window (options h) < 2 ^ 64"
    and cp: "checkpoint_head h through obj = Inr h'"
  shows "head_ok usize_max h'"
proof -
  obtain i where pos: "position (\<lambda>e. e = through) (tail h) = Some i" and adv: "can_advance h"
    and h': "h' = compacted_head h i through obj"
    using cp by (auto simp: checkpoint_head_Inr)
  note i = tail_index [OF ok pos]
  let ?w = "resolution_window (options h)"
  let ?out = "recent_outcomes h @ take (Suc i) (tail h)"
  have start: "base_start h' = base_start h + Suc i"
    by (simp add: h' i(3))
  have out: "length (recent_outcomes h) = min (base_start h) ?w"
    and num: "numbered_from (base_start h) (tail h)"
    and num': "numbered_from (base_start h - length (recent_outcomes h)) (recent_outcomes h)"
    and dist: "distinct (map cr_transaction_id (tail h @ recent_outcomes h))"
    using ok unfolding head_ok_def by blast+
  have outcomes: "recent_outcomes h' = keep_window ?w ?out"
    and tail: "tail h' = drop (Suc i) (tail h)"
    and opts: "options h' = options h" and base: "checkpoint h' = Some \<lparr>cp_through_sequence =
      cr_sequence through, cp_through_commit = cr_digest through, cp_object = obj\<rparr>"
    by (simp_all add: h' compacted_head_def)
  have len: "length ?out = min (base_start h) ?w + Suc i"
    using i(1) out by simp
  have "numbered_from (base_start h - length (recent_outcomes h)) ?out"
    using num num' numbered_from_take [of _ "tail h" "Suc i"] out by simp
  then have "numbered_from (base_start h - length (recent_outcomes h) + (length ?out - ?w))
      (recent_outcomes h')"
    unfolding outcomes by (rule numbered_from_keep_window)
  moreover have "base_start h - length (recent_outcomes h) + (length ?out - ?w)
      = base_start h' - length (recent_outcomes h')"
    unfolding start outcomes length_keep_window len out by (simp add: min_def)
  moreover have "length (recent_outcomes h') = min (base_start h') ?w"
    unfolding start outcomes length_keep_window len by (simp add: min_def)
  moreover have "numbered_from (base_start h') (tail h')"
    using numbered_from_drop [OF num, of "Suc i"] i(1) by (simp add: start tail)
  moreover have "distinct (map cr_transaction_id (tail h' @ recent_outcomes h'))"
    unfolding tail outcomes by (rule distinct_keep_window [OF dist])
  moreover have "cr_digest c = cr_digest through" if "last_opt (recent_outcomes h') = Some c" for c
    using last_opt_keep_window [of ?w ?out c] that last_take_Suc [OF i(1), of "recent_outcomes h"] i(2)
    by (simp add: outcomes)
  moreover have "collection_state_ok usize_max h'"
    using ok adv by (auto simp: h' compacted_head_def head_ok_def collection_state_ok_def
      word_le_nat_alt unat_generation_succ)
  moreover have "next_sequence h' \<le> generation h'" "length (tail h') \<le> max_tail_entries (options h)"
    "unat (next_sequence h') = base_start h' + length (tail h')"
  proof -
    have "generation h' = generation h + 1" "next_sequence h' = next_sequence h"
      by (simp_all add: h' compacted_head_def)
    moreover have "next_sequence h \<le> generation h" "length (tail h) \<le> max_tail_entries (options h)"
      "unat (next_sequence h) = base_start h + length (tail h)"
      using ok unfolding head_ok_def by blast+
    ultimately show "next_sequence h' \<le> generation h'"
      "length (tail h') \<le> max_tail_entries (options h)"
      "unat (next_sequence h') = base_start h' + length (tail h')"
      using adv i(1) by (simp_all add: tail start word_le_nat_alt unat_generation_succ)
  qed
  ultimately show ?thesis
    using kind window by (simp add: head_ok_def opts base)
qed

lemma retention_head_ok:
  assumes ok: "head_ok usize_max h" and conflict: "retention_classify ch h = StateConflict"
    and room: "\<forall>rid. ch = Acquire rid \<longrightarrow> fcard (retention_ids h) < max_retention_ids (options h)"
    and upd: "retention_head ch h = Inr h'"
  shows "head_ok usize_max h'"
proof -
  have h': "h' = h\<lparr>generation := generation h + 1, retention_ids := retention_ids (retention_apply ch h)\<rparr>"
    and adv: "can_advance h"
    using upd by (auto simp: retention_head_Inr)
  have "fcard (retention_ids (retention_apply ch h)) \<le> max_retention_ids (options h)"
    using ok room
    by (cases ch) (auto simp: head_ok_def collection_state_ok_def fcard_finsert_if fcard_fempty
      intro: order_trans [OF fcard_mono])
  moreover have "active_plan h = None \<or> retention_ids (retention_apply ch h) = {||}"
    using ok conflict
    by (cases ch) (auto simp: head_ok_def collection_state_ok_def split: if_splits)
  ultimately show ?thesis
    using ok adv
    by (auto simp: h' head_ok_def collection_state_ok_def base_start_def word_le_nat_alt
      unat_generation_succ split: option.splits)
qed

lemma install_plan_head_ok:
  assumes ok: "head_ok usize_max h" and "retention_ids h = {||}"
    and "checked_add (collection_epoch h) 1 = Some e"
    and "unat (pl_len p) \<le> usize_max" "unat (pl_len p) \<le> max_collection_plan_bytes (options h)"
    and "install_plan_head h e p = Inr h'"
  shows "head_ok usize_max h'"
  using assms
  by (auto simp: head_ok_def collection_state_ok_def base_start_def install_plan_head_Inr
    word_le_nat_alt unat_generation_succ checked_simps unat_eq_0 [symmetric] split: option.splits)

lemma clear_plan_head_ok:
  assumes "head_ok usize_max h" "clear_plan_head h = Inr h'"
  shows "head_ok usize_max h'"
  using assms
  by (auto simp: head_ok_def collection_state_ok_def base_start_def clear_plan_head_Inr
    word_le_nat_alt unat_generation_succ split: option.splits)


section \<open>The publication base never returns\<close>

text \<open>
  A candidate is published only onto the publication base it was prepared for. The progress of a
  head counts everything the base compares; retention updates leave it alone and every other
  published step increases it, so a base that has been left is never current again.
\<close>

definition progress :: "head \<Rightarrow> nat" where
  "progress h = unat (next_sequence h) + base_start h
    + 2 * unat (collection_epoch h) + (if active_plan h = None then 1 else 0)"

lemma same_base_refl [simp]: "has_same_publication_base h h"
  by (simp add: has_same_publication_base_def)

lemma same_base_sym: "has_same_publication_base a b \<Longrightarrow> has_same_publication_base b a"
  by (auto simp: has_same_publication_base_def)

lemma same_base_trans:
  "has_same_publication_base a b \<Longrightarrow> has_same_publication_base b c \<Longrightarrow> has_same_publication_base a c"
  by (auto simp: has_same_publication_base_def)

lemma same_base_progress: "has_same_publication_base a b \<Longrightarrow> progress a = progress b"
  by (simp add: has_same_publication_base_def progress_def base_start_def)

lemma head_step_progress:
  assumes "head_step h h'" "head_ok usize_max h"
  shows "progress h < progress h' \<or> has_same_publication_base h h'"
  using assms
proof (induction rule: head_step.induct)
  case (step_append c h h')
  then show ?case
    by (auto simp: progress_def candidate_head_Inr base_start_def unat_succ)
next
  case (step_checkpoint h through obj h')
  then obtain i where i: "position (\<lambda>e. e = through) (tail h) = Some i"
      "h' = compacted_head h i through obj"
    by (auto simp: checkpoint_head_Inr)
  have "base_start h < base_start h'"
    using tail_index [OF step_checkpoint.prems i(1)] by (simp add: i(2))
  then show ?case by (simp add: progress_def i(2) compacted_head_def)
next
  case (step_install h e p h')
  then show ?case
    by (auto simp: progress_def install_plan_head_Inr base_start_def checked_simps)
qed (auto simp: progress_def base_start_def has_same_publication_base_def step_defs)

definition head_chain :: "usize \<Rightarrow> head list \<Rightarrow> bool" where
  "head_chain usize_max hs \<longleftrightarrow> successively head_step hs \<and> (\<forall>h\<in>set hs. head_ok usize_max h)"

lemma head_chain_nth:
  assumes "head_chain usize_max hs" "Suc i < length hs"
  shows "head_step (hs ! i) (hs ! Suc i)"
  using assms by (simp add: head_chain_def successively_conv_nth)

text \<open>A relation between neighbours of a chain that is reflexive and transitive relates any two.\<close>

lemma chain_lift:
  assumes step: "\<And>i. Suc i < length hs \<Longrightarrow> R (hs ! i) (hs ! Suc i)"
    and refl: "\<And>x. R x x" and trans: "\<And>x y z. R x y \<Longrightarrow> R y z \<Longrightarrow> R x z"
  shows "i \<le> j \<Longrightarrow> j < length hs \<Longrightarrow> R (hs ! i) (hs ! j)"
proof (induction j)
  case (Suc j)
  show ?case
  proof (cases "i = Suc j")
    case False
    with Suc have "R (hs ! i) (hs ! j)" by simp
    with step [of j] Suc.prems trans show ?thesis by blast
  qed (simp add: refl)
qed (simp add: refl)

definition base_advances :: "head \<Rightarrow> head \<Rightarrow> bool" where
  "base_advances a b \<longleftrightarrow> progress a < progress b \<or> has_same_publication_base a b"

lemma base_advances_progress: "base_advances a b \<Longrightarrow> progress a \<le> progress b"
  using same_base_progress [of a b] by (auto simp: base_advances_def)

lemma base_advances_trans: "base_advances a b \<Longrightarrow> base_advances b c \<Longrightarrow> base_advances a c"
  using same_base_progress [of a b] same_base_progress [of b c] same_base_trans [of a b c]
  by (auto simp: base_advances_def)

lemma head_chain_progress:
  assumes chain: "head_chain usize_max hs" and "i \<le> j" "j < length hs"
  shows "base_advances (hs ! i) (hs ! j)"
proof (rule chain_lift [OF _ _ base_advances_trans assms(2,3)])
  fix k assume k: "Suc k < length hs"
  then show "base_advances (hs ! k) (hs ! Suc k)"
    unfolding base_advances_def using chain
    by (intro head_step_progress [OF head_chain_nth [OF chain k], of usize_max])
      (simp add: head_chain_def)
qed (simp add: base_advances_def)

lemma publication_base_never_returns:
  assumes chain: "head_chain usize_max hs" and "i \<le> j" "j \<le> k" "k < length hs"
    and same: "has_same_publication_base (hs ! i) (hs ! k)"
  shows "has_same_publication_base (hs ! i) (hs ! j)"
proof -
  have "base_advances (hs ! i) (hs ! j)" "base_advances (hs ! j) (hs ! k)"
    using head_chain_progress [OF chain] assms(2-4) by simp_all
  then show ?thesis
    using base_advances_progress [of "hs ! j" "hs ! k"] same_base_progress [OF same]
    by (auto simp: base_advances_def)
qed

lemma head_chain_generation:
  assumes chain: "head_chain usize_max hs" and "i \<le> j" "j < length hs"
  shows "unat (generation (hs ! j)) = unat (generation (hs ! i)) + (j - i)"
  using assms(2,3)
proof (induction j)
  case (Suc j)
  show ?case
  proof (cases "i = Suc j")
    case False
    with Suc.prems Suc.IH have "unat (generation (hs ! j)) = unat (generation (hs ! i)) + (j - i)"
      by simp
    moreover have "unat (generation (hs ! Suc j)) = Suc (unat (generation (hs ! j)))"
      using head_chain_nth [OF chain Suc.prems(2)] by (rule head_step_generation)
    ultimately show ?thesis using False Suc.prems by simp
  qed simp
qed simp

end
