(* ===== verification/Head_Properties.thy ===== *)
theory Head_Properties
  imports Head_Log
begin

text \<open>
  The properties of the mutable head: what validation accepts, that every update keeps a head
  valid, that published heads refine one append-only log, and that a publication base that has been
  left never becomes current again.
\<close>


section \<open>A sample history\<close>

definition sample_ref :: commit_ref where
  "sample_ref = \<lparr>cr_sequence = 0, cr_transaction_id = 5, cr_storage_id = 6, cr_digest = 9, cr_len = 10\<rparr>"

definition sample_snapshot :: object_ref where
  "sample_snapshot = \<lparr>or_kind = Checkpoint, or_storage_id = 8, or_digest = 4, or_len = 3,
     or_subtree_objects = 1\<rparr>"

definition head0 :: head where "head0 = head_empty ''log'' 7 default_options"

definition head1 :: head where
  "head1 = head0\<lparr>generation := 1, next_sequence := 1, tail := [sample_ref]\<rparr>"

definition head2 :: head where
  "head2 = head1\<lparr>generation := 2, tail := [], recent_outcomes := [sample_ref],
     checkpoint := Some \<lparr>cp_through_sequence = 0, cp_through_commit = 9, cp_object = sample_snapshot\<rparr>\<rparr>"

definition head3 :: head where
  "head3 = head2\<lparr>generation := 3, retention_ids := {|11|}\<rparr>"

lemmas sample_defs = head3_def head2_def head1_def head0_def head_empty_def default_options_def
  sample_ref_def sample_snapshot_def

lemma sample_candidate: "candidate_head head0 sample_ref = Inr head1"
  by (simp add: candidate_head_Inr can_advance_def sample_defs)

lemma sample_compaction: "checkpoint_head head1 sample_ref sample_snapshot = Inr head2"
  by (simp add: checkpoint_head_Inr can_advance_def compacted_head_def keep_window_def sample_defs)

lemma sample_retention: "retention_head (Acquire 11) head2 = Inr head3"
  by (simp add: retention_head_Inr can_advance_def sample_defs)

lemma head0_ok: "head_ok usize_max head0"
  unfolding head0_def by (rule head_empty_ok)

lemma head1_ok: "head_ok usize_max head1"
  by (rule candidate_head_ok [OF head0_ok _ _ _ sample_candidate]) (simp_all add: sample_defs)

lemma head2_ok: "head_ok usize_max head2"
  by (rule checkpoint_head_ok [OF head1_ok _ _ sample_compaction]) (simp_all add: sample_defs)

lemma head3_ok: "head_ok usize_max head3"
  by (rule retention_head_ok [OF head2_ok _ _ sample_retention]) (simp_all add: sample_defs fcard_fempty)

lemma sample_chain: "head_chain usize_max [head0, head1, head2, head3]"
proof -
  have "head_step head0 head1"
    by (rule step_append [OF _ sample_candidate]) (simp add: sample_defs)
  moreover have "head_step head1 head2"
    by (rule step_checkpoint [OF sample_compaction])
  moreover have "head_step head2 head3"
    by (rule step_retention [OF _ sample_retention]) (simp add: sample_defs)
  ultimately show ?thesis
    by (simp add: head_chain_def head0_ok head1_ok head2_ok head3_ok)
qed


section \<open>Validation\<close>

text \<open>
  C30. \<open>Head::validate\<close> accepts a head exactly when its tail and retained outcomes are contiguously
  numbered slices around the checkpoint, the outcome suffix has exactly the size the window
  demands and ends in the checkpoint's covered commit, no transaction id repeats, the counters are
  ordered, and the collection state (epoch, plan, retentions) is consistent and within the durable
  limits.
\<close>

theorem head_validate_spec: "head_validate usize_max h = Inr () \<longleftrightarrow> head_ok usize_max h"
  by (rule head_validate_iff)


section \<open>Updates keep heads valid\<close>

text \<open>
  C31. Every update keeps the head valid. From a head that passes validation: appending a commit that
  continues the sequence with a transaction id the head does not retain, while the tail has room; compacting
  behind a checkpoint object; acquiring a retention while there is room, or releasing one; installing a collection
  plan of admissible length on a head without retentions, at the next epoch; and clearing a plan. The
  result, when the update returns one, passes validation again.
\<close>

theorem head_updates_keep_valid:
  assumes "head_validate usize_max h = Inr ()" "resolution_window (options h) < 2 ^ 64"
  shows "(length (tail h) < max_tail_entries (options h) \<and> cr_sequence c = next_sequence h
        \<and> cr_transaction_id c \<notin> cr_transaction_id ` set (tail h @ recent_outcomes h) \<and> candidate_head h c = Inr h'
      \<longrightarrow> head_validate usize_max h' = Inr ())
    \<and> (or_kind obj = Checkpoint \<and> checkpoint_head h through obj = Inr h' \<longrightarrow> head_validate usize_max h' = Inr ())
    \<and> (retention_classify ch h = StateConflict \<and> retention_head ch h = Inr h'
        \<and> (\<forall>rid. ch = Acquire rid \<longrightarrow> fcard (retention_ids h) < max_retention_ids (options h))
      \<longrightarrow> head_validate usize_max h' = Inr ())
    \<and> (retention_ids h = {||} \<and> checked_add (collection_epoch h) 1 = Some e \<and> install_plan_head h e p = Inr h'
        \<and> unat (pl_len p) \<le> usize_max \<and> unat (pl_len p) \<le> max_collection_plan_bytes (options h)
      \<longrightarrow> head_validate usize_max h' = Inr ())
    \<and> (clear_plan_head h = Inr h' \<longrightarrow> head_validate usize_max h' = Inr ())"
proof -
  have ok: "head_ok usize_max h" using assms(1) by (simp add: head_validate_iff)
  note updates = candidate_head_ok [OF ok] checkpoint_head_ok [OF ok] retention_head_ok [OF ok]
    install_plan_head_ok [OF ok] clear_plan_head_ok [OF ok]
  show ?thesis
    unfolding head_validate_iff using assms(2) by (auto intro: updates)
qed

theorem head_updates_keep_valid_witness: "head_validate 100 head1 = Inr () \<and> head_validate 100 head2 = Inr ()"
proof
  show "head_validate 100 head1 = Inr ()"
    using head_updates_keep_valid [THEN conjunct1, of 100 head0 sample_ref head1]
    by (simp add: sample_candidate head_validate_iff head0_ok) (simp add: sample_defs)
  show "head_validate 100 head2 = Inr ()"
    using head_updates_keep_valid [THEN conjunct2, THEN conjunct1, of 100 head1 sample_snapshot sample_ref head2]
    by (simp add: sample_compaction head_validate_iff head1_ok) (simp add: sample_defs)
qed


section \<open>The published log\<close>

lemma represents_chain:
  assumes "successively head_step hs" "i \<le> j" "j < length hs" "represents (hs ! i) L"
  shows "\<exists>L'. represents (hs ! j) (L @ L')"
  using assms(2,3)
proof (induction j)
  case (Suc j)
  show ?case
  proof (cases "i = Suc j")
    case False
    with Suc obtain L' where "represents (hs ! j) (L @ L')" by auto
    moreover have "head_step (hs ! j) (hs ! Suc j)"
      using assms(1) Suc.prems(2) by (simp add: successively_conv_nth)
    ultimately have "represents (hs ! Suc j) (L @ L') \<or> (\<exists>c. represents (hs ! Suc j) ((L @ L') @ [c]))"
      using head_step_represents by blast
    then show ?thesis by (metis append_assoc)
  qed (use assms(4) in \<open>auto intro: exI [of _ "[]"]\<close>)
qed (use assms(4) in \<open>auto intro: exI [of _ "[]"]\<close>)

text \<open>
  C6. Published heads refine one append-only log. Whatever sequence of commits, checkpoints,
  retention changes and collection plans is published, if a head shows the commit list \<open>L\<close> (tail,
  outcome window, tip and next sequence are slices of \<open>L\<close>) then every later head shows an extension
  of \<open>L\<close>: no update removes, reorders or rewrites a commit.
\<close>

theorem published_log_append_only:
  assumes "head_chain usize_max hs" "i \<le> j" "j < length hs" "represents (hs ! i) L"
  shows "\<exists>L'. represents (hs ! j) (L @ L')"
  using assms represents_chain by (auto simp: head_chain_def)

theorem published_log_append_only_witness: "\<exists>L'. represents head2 ([] @ L')"
proof -
  have "represents head0 []" unfolding head0_def by (rule represents_empty)
  then show ?thesis
    using published_log_append_only [OF sample_chain [of 100], of 0 2 "[]"] by simp
qed

text \<open>
  C15. No ABA on the publication base. A candidate is published only while the current head still
  has the publication base it was prepared for; along every history of published valid heads, once
  the base has been left it never becomes current again, so a head with an equal base proves that
  no commit, checkpoint or plan was published in between.
\<close>

theorem base_never_returns:
  assumes "head_chain usize_max hs" "i \<le> j" "j \<le> k" "k < length hs"
    and "has_same_publication_base (hs ! i) (hs ! k)"
  shows "has_same_publication_base (hs ! i) (hs ! j)"
  using assms by (rule publication_base_never_returns)

theorem base_never_returns_witness: "has_same_publication_base head2 head3"
  using base_never_returns [OF sample_chain [of 100], of 2 3 3]
  by (simp add: has_same_publication_base_def sample_defs)

text \<open>
  The generation counts publications: between two heads of a published history it grows by exactly the number of
  updates between them, without wrap-around.
\<close>

lemma generation_counts_updates:
  assumes "head_chain usize_max hs" "i \<le> j" "j < length hs"
  shows "unat (generation (hs ! j)) = unat (generation (hs ! i)) + (j - i)"
  using assms by (rule head_chain_generation)

end
