(* ===== verification/Wire.thy ===== *)
theory Wire
  imports Head
begin

text \<open>
  The wire structures of \<^verbatim>\<open>src/src/format.rs\<close> and their conversions from and to the values of the
  log. A \<open>Vec<u8>\<close>, \<open>ByteVec\<close> or \<open>Cow<[u8]>\<close> is a byte list. The contract all conversions share is
  the locale \<open>wire_conversion\<close>: reading back a written value gives the value, and a value that was
  read writes back to exactly the wire it came from; lists and optional fields inherit it.
\<close>

named_theorems wire_defs \<open>conversions between values and wire structures\<close>


section \<open>Wire structures\<close>

definition FORMAT_VERSION :: u32 where "FORMAT_VERSION = 1"

record envelope_wire =
  ew_payload :: bytes
  ew_digest :: bytes

record object_ref_wire =
  orw_kind :: byte
  orw_digest :: bytes
  orw_len :: u64
  orw_storage_id :: bytes
  orw_subtree_objects :: u64

record commit_ref_wire =
  crw_sequence :: u64
  crw_transaction_id :: bytes
  crw_digest :: bytes
  crw_len :: u64
  crw_storage_id :: bytes

record checkpoint_ref_wire =
  cpw_through_sequence :: u64
  cpw_through_commit :: bytes
  cpw_object :: "object_ref_wire option"

record plan_ref_wire =
  plw_storage_id :: bytes
  plw_digest :: bytes
  plw_len :: u64

record options_wire =
  ow_max_tail_entries :: u64
  ow_resolution_window :: u64
  ow_max_inline_operation_bytes :: u64
  ow_max_inline_result_bytes :: u64
  ow_max_object_refs :: u64
  ow_max_commit_bytes :: u64
  ow_max_head_bytes :: u64
  ow_max_checkpoint_bytes :: u64
  ow_max_object_bytes :: u64
  ow_max_retention_ids :: u64
  ow_max_collection_objects :: u64
  ow_max_collection_plan_bytes :: u64

record head_wire =
  hw_format_version :: u32
  hw_log_id :: string
  hw_generation :: u64
  hw_next_sequence :: u64
  hw_checkpoint :: "checkpoint_ref_wire option"
  hw_tail :: "commit_ref_wire list"
  hw_recent_outcomes :: "commit_ref_wire list"
  hw_incarnation :: bytes
  hw_options :: options_wire
  hw_collection_epoch :: u64
  hw_active_plan :: "plan_ref_wire option"
  hw_retention_ids :: "bytes list"

record commit_wire =
  cw_format_version :: u32
  cw_log_id :: string
  cw_transaction_id :: bytes
  cw_expected_tip :: "bytes option"
  cw_operation :: bytes
  cw_result :: bytes
  cw_objects :: "object_ref_wire list"
  cw_incarnation :: bytes

record checkpoint_wire =
  kw_format_version :: u32
  kw_log_id :: string
  kw_through_sequence :: u64
  kw_through_commit :: bytes
  kw_snapshot :: bytes
  kw_incarnation :: bytes
  kw_objects :: "object_ref_wire list"

record token_wire =
  tw_format_version :: u32
  tw_head_digest :: bytes
  tw_e_tag :: "string option"
  tw_storage_version :: "string option"
  tw_transaction_id :: bytes
  tw_operation :: bytes
  tw_result :: bytes
  tw_objects :: "object_ref_wire list"
  tw_storage_id :: bytes
  tw_publication_base_digest :: bytes
  tw_generation :: u64
  tw_next_sequence :: u64
  tw_tip :: "bytes option"
  tw_log_id :: string
  tw_incarnation :: bytes
  tw_options_digest :: bytes

record candidate_wire =
  xw_incarnation :: bytes
  xw_kind :: byte
  xw_storage_id :: bytes
  xw_digest :: bytes
  xw_bytes :: u64

record plan_wire =
  pw_format_version :: u32
  pw_log_id :: string
  pw_collection_epoch :: u64
  pw_candidates :: "candidate_wire list"


section \<open>Fixed-width fields\<close>

definition require_version :: "u32 \<Rightarrow> unit result" where
  "require_version version =
    (if version \<noteq> FORMAT_VERSION
     then Inl (InvalidFormat (''unsupported format version '' @ show_nat (unat version)))
     else Inr ())"

lemma require_version_Inr [simp]: "require_version v = Inr u \<longleftrightarrow> v = FORMAT_VERSION"
  by (simp add: require_version_def)

lemma require_version_ok [simp]: "require_version FORMAT_VERSION = Inr ()"
  by simp

definition digest_of_bytes :: "bytes \<Rightarrow> digest result" where
  "digest_of_bytes value =
    (if length value = DIGEST_LEN then Inr (of_be_bytes value)
     else Inl (invalid ''digest has an invalid length''))"

definition uuid_of_bytes :: "bytes \<Rightarrow> string \<Rightarrow> uuid result" where
  "uuid_of_bytes value name =
    (if length value \<noteq> UUID_LEN then Inl (InvalidFormat (name @ '' has an invalid length''))
     else Inr (of_be_bytes value))"

definition transaction_id_of_bytes :: "bytes \<Rightarrow> transaction_id result" where
  "transaction_id_of_bytes value = uuid_of_bytes value ''transaction ID''"

definition storage_id_of_bytes :: "bytes \<Rightarrow> storage_id result" where
  "storage_id_of_bytes value = uuid_of_bytes value ''physical storage ID''"

lemma digest_of_bytes_Inr [simp]: "digest_of_bytes b = Inr d \<longleftrightarrow> b = digest_as_bytes d"
  using be_bytes_of_be_bytes [of b, where 'a = 256]
  by (auto simp: digest_of_bytes_def digest_as_bytes_def DIGEST_LEN_def)

lemma uuid_of_bytes_Inr [simp]: "uuid_of_bytes b name = Inr u \<longleftrightarrow> b = uuid_as_bytes u"
  using be_bytes_of_be_bytes [of b, where 'a = 128]
  by (auto simp: uuid_of_bytes_def uuid_as_bytes_def UUID_LEN_def)

lemma id_of_bytes_Inr [simp]:
  "transaction_id_of_bytes b = Inr u \<longleftrightarrow> b = uuid_as_bytes u"
  "storage_id_of_bytes b = Inr u \<longleftrightarrow> b = uuid_as_bytes u"
  by (simp_all add: transaction_id_of_bytes_def storage_id_of_bytes_def)

lemma of_as_bytes [simp]:
  "digest_of_bytes (digest_as_bytes d) = Inr d"
  "uuid_of_bytes (uuid_as_bytes u) name = Inr u"
  "transaction_id_of_bytes (uuid_as_bytes u) = Inr u"
  "storage_id_of_bytes (uuid_as_bytes u) = Inr u"
  by simp_all

lemma of_bytes_bind [bind_simps]:
  "and_then (digest_of_bytes b) f = Inr y \<longleftrightarrow> (\<exists>d. b = digest_as_bytes d \<and> f d = Inr y)"
  "and_then (uuid_of_bytes b name) g = Inr y \<longleftrightarrow> (\<exists>u. b = uuid_as_bytes u \<and> g u = Inr y)"
  "and_then (storage_id_of_bytes b) g = Inr y \<longleftrightarrow> (\<exists>u. b = uuid_as_bytes u \<and> g u = Inr y)"
  "and_then (require_version v) h = Inr y \<longleftrightarrow> v = FORMAT_VERSION \<and> h () = Inr y"
  "and_then (LogId_new s) k = Inr y \<longleftrightarrow> log_id_ok s \<and> k s = Inr y"
  by (auto simp: and_then_Inr)

lemma digest_as_bytes_inject [simp]: "digest_as_bytes a = digest_as_bytes b \<longleftrightarrow> a = b"
  by (metis digest_of_bytes_Inr sum.inject(2))

lemma uuid_as_bytes_inject [simp]: "uuid_as_bytes a = uuid_as_bytes b \<longleftrightarrow> a = b"
  by (metis uuid_of_bytes_Inr sum.inject(2))

fun retention_ids_from :: "retention_id option \<Rightarrow> retention_id fset \<Rightarrow> bytes list \<Rightarrow> retention_id fset result" where
  "retention_ids_from previous ids [] = Inr ids"
| "retention_ids_from previous ids (value # values) =
    and_then (uuid_of_bytes value ''retention ID'') (\<lambda>rid.
      if (case previous of None \<Rightarrow> False | Some p \<Rightarrow> p \<ge> rid)
      then Inl (invalid ''head retention IDs are not strictly sorted'')
      else retention_ids_from (Some rid) (finsert rid ids) values)"

definition retention_ids_of_bytes :: "bytes list \<Rightarrow> retention_id fset result" where
  "retention_ids_of_bytes values = retention_ids_from None {||} values"

lemma retention_ids_from_Inr:
  "retention_ids_from prev ids bs = Inr S \<longleftrightarrow>
    (\<exists>us. bs = map uuid_as_bytes us \<and> sorted_wrt (<) us \<and> S = ids |\<union>| fset_of_list us
      \<and> (\<forall>p u. prev = Some p \<longrightarrow> u \<in> set us \<longrightarrow> p < u))"
proof (induction bs arbitrary: prev ids)
  case (Cons b bs)
  show ?case (is "?L \<longleftrightarrow> ?R")
  proof
    assume ?L
    then obtain u where u: "b = uuid_as_bytes u" "retention_ids_from (Some u) (finsert u ids) bs = Inr S"
      and p: "\<forall>p. prev = Some p \<longrightarrow> p < u"
      by (auto simp: result_simps split: if_splits option.splits)
    then obtain us where us: "bs = map uuid_as_bytes us" "sorted_wrt (<) us" "\<forall>v\<in>set us. u < v"
      "S = finsert u ids |\<union>| fset_of_list us"
      by (auto simp: Cons.IH)
    show ?R
    proof (intro exI conjI allI impI)
      show "b # bs = map uuid_as_bytes (u # us)" using u us by simp
      show "sorted_wrt (<) (u # us)" using us by simp
      show "S = ids |\<union>| fset_of_list (u # us)" using us by auto
      show "p < v" if "prev = Some p" "v \<in> set (u # us)" for p v
        using that p us by (auto dest: less_trans)
    qed
  next
    assume ?R
    then obtain u us where *: "b = uuid_as_bytes u" "bs = map uuid_as_bytes us"
      "sorted_wrt (<) (u # us)" "S = ids |\<union>| fset_of_list (u # us)" "\<forall>p. prev = Some p \<longrightarrow> p < u"
      by (auto simp: Cons_eq_map_conv)
    then have "retention_ids_from (Some u) (finsert u ids) bs = Inr S"
      unfolding Cons.IH by (intro exI [of _ us]) auto
    with * show ?L
      by (auto simp: result_simps split: option.splits)
  qed
qed auto

lemma retention_ids_of_bytes_Inr:
  "retention_ids_of_bytes bs = Inr S \<longleftrightarrow> bs = map uuid_as_bytes (sorted_list_of_fset S)"
proof -
  have strict: "sorted_wrt (<) us \<longleftrightarrow> us = sorted_list_of_fset (fset_of_list us)" for us :: "uuid list"
    by (metis distinct_sorted_list_of_set fset_of_list.rep_eq sorted_list_of_fset.rep_eq
      sorted_list_of_set.idem_if_sorted_distinct sorted_sorted_list_of_set strict_sorted_iff)
  show ?thesis
    unfolding retention_ids_of_bytes_def retention_ids_from_Inr
    using strict by (metis (no_types, lifting) bot_fset.rep_eq option.distinct(1) sorted_list_of_fset_simps(2)
      sup_bot.left_neutral)
qed


section \<open>The contract of a conversion\<close>

locale wire_conversion =
  fixes to_wire :: "'a \<Rightarrow> 'w" and of_wire :: "'w \<Rightarrow> 'a result" and ok :: "'a \<Rightarrow> bool"
  assumes of_wire_Inr: "of_wire w = Inr x \<longleftrightarrow> w = to_wire x \<and> ok x"
begin

lemma of_to_wire: "ok x \<Longrightarrow> of_wire (to_wire x) = Inr x"
  by (simp add: of_wire_Inr)

lemma to_wire_inject: "ok x \<Longrightarrow> ok y \<Longrightarrow> to_wire x = to_wire y \<longleftrightarrow> x = y"
  by (metis of_to_wire sum.inject(2))

lemma traverse_of_wire: "traverse of_wire ws = Inr xs \<longleftrightarrow> ws = map to_wire xs \<and> list_all ok xs"
proof (induction ws arbitrary: xs)
  case (Cons w ws)
  then show ?case
    by (cases xs) (auto simp: result_simps of_wire_Inr)
qed auto

lemma traverse_to_wire: "list_all ok xs \<Longrightarrow> traverse of_wire (map to_wire xs) = Inr xs"
  by (simp add: traverse_of_wire)

lemma opt_traverse_of_wire:
  "opt_traverse of_wire w = Inr x \<longleftrightarrow> w = map_option to_wire x \<and> (\<forall>y. x = Some y \<longrightarrow> ok y)"
  by (cases w; cases x) (auto simp: result_simps of_wire_Inr)

lemma opt_traverse_to_wire:
  "(\<forall>y. x = Some y \<longrightarrow> ok y) \<Longrightarrow> opt_traverse of_wire (map_option to_wire x) = Inr x"
  by (simp add: opt_traverse_of_wire)

end

lemma wire_conversionI:
  assumes "\<And>w x. of_wire w = Inr x \<Longrightarrow> w = to_wire x \<and> ok x"
    and "\<And>x. ok x \<Longrightarrow> of_wire (to_wire x) = Inr x"
  shows "wire_conversion to_wire of_wire ok"
  using assms by unfold_locales blast


section \<open>Conversions of the references\<close>

definition commit_ref_to_wire :: "commit_ref \<Rightarrow> commit_ref_wire" where
  "commit_ref_to_wire c = \<lparr>
    crw_sequence = cr_sequence c,
    crw_transaction_id = uuid_as_bytes (cr_transaction_id c),
    crw_digest = digest_as_bytes (cr_digest c),
    crw_len = cr_len c,
    crw_storage_id = uuid_as_bytes (cr_storage_id c) \<rparr>"

definition commit_ref_of_wire :: "commit_ref_wire \<Rightarrow> commit_ref result" where
  "commit_ref_of_wire w =
    and_then (transaction_id_of_bytes (crw_transaction_id w)) (\<lambda>t.
    and_then (storage_id_of_bytes (crw_storage_id w)) (\<lambda>s.
    and_then (digest_of_bytes (crw_digest w)) (\<lambda>d.
    Inr \<lparr>cr_sequence = crw_sequence w, cr_transaction_id = t, cr_storage_id = s,
         cr_digest = d, cr_len = crw_len w\<rparr>)))"

fun object_kind_wire :: "object_kind \<Rightarrow> byte" where
  "object_kind_wire Blob = 1"
| "object_kind_wire Checkpoint = 2"
| "object_kind_wire Node = 3"

definition object_ref_to_wire :: "object_ref \<Rightarrow> object_ref_wire" where
  "object_ref_to_wire r = \<lparr>
    orw_kind = object_kind_wire (or_kind r),
    orw_digest = digest_as_bytes (or_digest r),
    orw_len = or_len r,
    orw_storage_id = uuid_as_bytes (or_storage_id r),
    orw_subtree_objects = or_subtree_objects r \<rparr>"

definition object_ref_of_wire :: "object_ref_wire \<Rightarrow> object_ref result" where
  "object_ref_of_wire w =
    and_then (if orw_kind w = object_kind_wire Blob then Inr Blob
              else if orw_kind w = object_kind_wire Checkpoint then Inr Checkpoint
              else if orw_kind w = object_kind_wire Node then Inr Node
              else Inl (invalid ''invalid object kind'')) (\<lambda>kind.
    and_then (storage_id_of_bytes (orw_storage_id w)) (\<lambda>s.
    and_then (digest_of_bytes (orw_digest w)) (\<lambda>d.
    let r = \<lparr>or_kind = kind, or_storage_id = s, or_digest = d, or_len = orw_len w,
             or_subtree_objects = orw_subtree_objects w\<rparr>
    in and_then (validate_count r) (\<lambda>_. Inr r))))"

definition checkpoint_ref_to_wire :: "checkpoint_ref \<Rightarrow> checkpoint_ref_wire" where
  "checkpoint_ref_to_wire c = \<lparr>
    cpw_through_sequence = cp_through_sequence c,
    cpw_through_commit = digest_as_bytes (cp_through_commit c),
    cpw_object = Some (object_ref_to_wire (cp_object c)) \<rparr>"

definition checkpoint_ref_of_wire :: "checkpoint_ref_wire \<Rightarrow> checkpoint_ref result" where
  "checkpoint_ref_of_wire w =
    and_then (ok_or (cpw_object w) (invalid ''checkpoint object is missing'')) (\<lambda>ow.
    and_then (object_ref_of_wire ow) (\<lambda>obj.
    if or_kind obj \<noteq> Checkpoint
    then Inl (invalid ''checkpoint reference names a non-checkpoint object'')
    else and_then (digest_of_bytes (cpw_through_commit w)) (\<lambda>d.
    Inr \<lparr>cp_through_sequence = cpw_through_sequence w, cp_through_commit = d, cp_object = obj\<rparr>)))"

definition plan_ref_to_wire :: "plan_ref \<Rightarrow> plan_ref_wire" where
  "plan_ref_to_wire p = \<lparr>
    plw_storage_id = uuid_as_bytes (pl_storage_id p),
    plw_digest = digest_as_bytes (pl_digest p),
    plw_len = pl_len p \<rparr>"

definition plan_ref_of_wire :: "plan_ref_wire \<Rightarrow> plan_ref result" where
  "plan_ref_of_wire w =
    and_then (storage_id_of_bytes (plw_storage_id w)) (\<lambda>s.
    and_then (digest_of_bytes (plw_digest w)) (\<lambda>d.
    Inr \<lparr>pl_storage_id = s, pl_digest = d, pl_len = plw_len w\<rparr>))"

definition object_ref_ok :: "object_ref \<Rightarrow> bool" where
  "object_ref_ok r \<longleftrightarrow> validate_count r = Inr ()"

definition checkpoint_ref_ok :: "checkpoint_ref \<Rightarrow> bool" where
  "checkpoint_ref_ok c \<longleftrightarrow> object_ref_ok (cp_object c) \<and> or_kind (cp_object c) = Checkpoint"

interpretation commit_ref_conv: wire_conversion commit_ref_to_wire commit_ref_of_wire "\<lambda>_. True"
  by unfold_locales
    (auto simp: commit_ref_to_wire_def commit_ref_of_wire_def result_simps intro!: commit_ref_wire.equality)

interpretation plan_ref_conv: wire_conversion plan_ref_to_wire plan_ref_of_wire "\<lambda>_. True"
  by unfold_locales
    (auto simp: plan_ref_to_wire_def plan_ref_of_wire_def result_simps intro!: plan_ref_wire.equality)

lemma object_kind_of_wire:
  "(if w = object_kind_wire Blob then Inr Blob
    else if w = object_kind_wire Checkpoint then Inr Checkpoint
    else if w = object_kind_wire Node then Inr Node else Inl e) = Inr k \<longleftrightarrow> w = object_kind_wire k"
  by (cases k) auto

lemma object_kind_wire_inject [simp]: "object_kind_wire a = object_kind_wire b \<longleftrightarrow> a = b"
  by (cases a; cases b) auto

interpretation object_ref_conv: wire_conversion object_ref_to_wire object_ref_of_wire object_ref_ok
  by unfold_locales
    (auto simp: object_ref_to_wire_def object_ref_of_wire_def object_ref_ok_def result_simps Let_def
      object_kind_of_wire validate_count_Inr simp del: object_kind_wire.simps intro!: object_ref_wire.equality)

interpretation checkpoint_ref_conv:
  wire_conversion checkpoint_ref_to_wire checkpoint_ref_of_wire checkpoint_ref_ok
  by (rule wire_conversionI)
    (auto simp: checkpoint_ref_to_wire_def checkpoint_ref_of_wire_def checkpoint_ref_ok_def
      and_then_Inr ok_or_Inr object_ref_conv.of_wire_Inr object_ref_conv.of_to_wire
      split: if_splits intro!: checkpoint_ref_wire.equality)


section \<open>Options\<close>

definition option_to_u64 :: "usize \<Rightarrow> u64 result" where
  "option_to_u64 value = ok_or (u64_try_from value) (LimitExceeded ''durable option'')"

definition option_to_usize :: "usize \<Rightarrow> u64 \<Rightarrow> usize result" where
  "option_to_usize usize_max value =
    ok_or (usize_try_from usize_max value) (LimitExceeded ''durable option'')"

definition options_to_wire :: "options \<Rightarrow> options_wire result" where
  "options_to_wire opts =
    and_then (option_to_u64 (max_tail_entries opts)) (\<lambda>a.
    and_then (option_to_u64 (resolution_window opts)) (\<lambda>b.
    and_then (option_to_u64 (max_inline_operation_bytes opts)) (\<lambda>c.
    and_then (option_to_u64 (max_inline_result_bytes opts)) (\<lambda>d.
    and_then (option_to_u64 (max_object_refs opts)) (\<lambda>e.
    and_then (option_to_u64 (max_commit_bytes opts)) (\<lambda>f.
    and_then (option_to_u64 (max_head_bytes opts)) (\<lambda>g.
    and_then (option_to_u64 (max_checkpoint_bytes opts)) (\<lambda>h.
    and_then (option_to_u64 (max_object_bytes opts)) (\<lambda>i.
    and_then (option_to_u64 (max_retention_ids opts)) (\<lambda>j.
    and_then (option_to_u64 (max_collection_objects opts)) (\<lambda>k.
    and_then (option_to_u64 (max_collection_plan_bytes opts)) (\<lambda>l.
    Inr \<lparr>ow_max_tail_entries = a, ow_resolution_window = b, ow_max_inline_operation_bytes = c,
         ow_max_inline_result_bytes = d, ow_max_object_refs = e, ow_max_commit_bytes = f,
         ow_max_head_bytes = g, ow_max_checkpoint_bytes = h, ow_max_object_bytes = i,
         ow_max_retention_ids = j, ow_max_collection_objects = k,
         ow_max_collection_plan_bytes = l\<rparr>))))))))))))"

definition options_of_wire :: "usize \<Rightarrow> options_wire \<Rightarrow> options result" where
  "options_of_wire usize_max w =
    and_then (option_to_usize usize_max (ow_max_tail_entries w)) (\<lambda>a.
    and_then (option_to_usize usize_max (ow_resolution_window w)) (\<lambda>b.
    and_then (option_to_usize usize_max (ow_max_inline_operation_bytes w)) (\<lambda>c.
    and_then (option_to_usize usize_max (ow_max_inline_result_bytes w)) (\<lambda>d.
    and_then (option_to_usize usize_max (ow_max_object_refs w)) (\<lambda>e.
    and_then (option_to_usize usize_max (ow_max_commit_bytes w)) (\<lambda>f.
    and_then (option_to_usize usize_max (ow_max_head_bytes w)) (\<lambda>g.
    and_then (option_to_usize usize_max (ow_max_checkpoint_bytes w)) (\<lambda>h.
    and_then (option_to_usize usize_max (ow_max_object_bytes w)) (\<lambda>i.
    and_then (option_to_usize usize_max (ow_max_retention_ids w)) (\<lambda>j.
    and_then (option_to_usize usize_max (ow_max_collection_objects w)) (\<lambda>k.
    and_then (option_to_usize usize_max (ow_max_collection_plan_bytes w)) (\<lambda>l.
    Inr \<lparr>max_tail_entries = a, resolution_window = b, max_inline_operation_bytes = c,
         max_inline_result_bytes = d, max_object_refs = e, max_object_bytes = i,
         max_commit_bytes = f, max_head_bytes = g, max_checkpoint_bytes = h,
         max_retention_ids = j, max_collection_objects = k,
         max_collection_plan_bytes = l\<rparr>))))))))))))"

text \<open>Every bound is a value of the target's \<open>usize\<close>.\<close>

definition option_values :: "options \<Rightarrow> usize list" where
  "option_values opts = [max_tail_entries opts, resolution_window opts,
    max_inline_operation_bytes opts, max_inline_result_bytes opts, max_object_refs opts,
    max_object_bytes opts, max_commit_bytes opts, max_head_bytes opts, max_checkpoint_bytes opts,
    max_retention_ids opts, max_collection_objects opts, max_collection_plan_bytes opts]"

definition options_fit :: "usize \<Rightarrow> options \<Rightarrow> bool" where
  "options_fit usize_max opts \<longleftrightarrow> (\<forall>v\<in>set (option_values opts). v \<le> usize_max)"

lemma option_to_u64_Inr: "option_to_u64 n = Inr w \<longleftrightarrow> unat w = n"
  by (simp add: option_to_u64_def result_simps checked_simps)

lemma option_to_usize_Inr: "option_to_usize m w = Inr n \<longleftrightarrow> n = unat w \<and> n \<le> m"
  by (simp add: option_to_usize_def result_simps checked_simps)

lemma options_to_wire_Inr:
  "options_to_wire opts = Inr w \<longleftrightarrow>
    max_tail_entries opts = unat (ow_max_tail_entries w)
    \<and> resolution_window opts = unat (ow_resolution_window w)
    \<and> max_inline_operation_bytes opts = unat (ow_max_inline_operation_bytes w)
    \<and> max_inline_result_bytes opts = unat (ow_max_inline_result_bytes w)
    \<and> max_object_refs opts = unat (ow_max_object_refs w)
    \<and> max_commit_bytes opts = unat (ow_max_commit_bytes w)
    \<and> max_head_bytes opts = unat (ow_max_head_bytes w)
    \<and> max_checkpoint_bytes opts = unat (ow_max_checkpoint_bytes w)
    \<and> max_object_bytes opts = unat (ow_max_object_bytes w)
    \<and> max_retention_ids opts = unat (ow_max_retention_ids w)
    \<and> max_collection_objects opts = unat (ow_max_collection_objects w)
    \<and> max_collection_plan_bytes opts = unat (ow_max_collection_plan_bytes w)"
  by (cases w) (auto simp: options_to_wire_def and_then_Inr option_to_u64_Inr)

lemma options_of_wire_Inr:
  "options_of_wire usize_max w = Inr opts \<longleftrightarrow> options_to_wire opts = Inr w \<and> options_fit usize_max opts"
  unfolding options_to_wire_Inr options_fit_def option_values_def
  by (cases opts) (auto simp: options_of_wire_def and_then_Inr option_to_usize_Inr)

end
