(* ===== verification/Minicbor.thy ===== *)
theory Minicbor
  imports Wire
begin

text \<open>
  The code outside the repository that the formats use, as one record of parameters: BLAKE3, the
  primitive readers and writers of minicbor, the code its derive macros generate for the wire
  structures, and the hexadecimal and UUID text forms. A reader takes the remaining input and
  returns a value with the input that follows it, or an error message. The locale \<open>cbor\<close> states the
  documented behaviour the formats rely on; \<open>Rfc8949\<close> interprets it on a concrete codec.

  The encoders write to a \<open>Vec\<close>, whose writer cannot fail, so an encoder is a function to bytes and
  the branches that report a failed encoding have no case here.
\<close>


section \<open>Parameters\<close>

record externals =
  usize_MAX :: usize
  blake3 :: "bytes \<Rightarrow> digest"
  hex_encode :: "bytes \<Rightarrow> string"
  hex_decode :: "string \<Rightarrow> bytes option"
  uuid_simple :: "uuid \<Rightarrow> string"
  uuid_parse_str :: "string \<Rightarrow> uuid option"
  put_u8 :: "byte \<Rightarrow> bytes"
  put_u32 :: "u32 \<Rightarrow> bytes"
  put_u64 :: "u64 \<Rightarrow> bytes"
  put_bytes_len :: "u64 \<Rightarrow> bytes"
  put_bytes :: "bytes \<Rightarrow> bytes"
  put_str :: "string \<Rightarrow> bytes"
  put_map :: "u64 \<Rightarrow> bytes"
  put_array :: "u64 \<Rightarrow> bytes"
  put_vec :: "bytes list \<Rightarrow> bytes"
  put_struct :: "(nat \<times> bytes option) list \<Rightarrow> bytes"
  get_u8 :: "bytes \<Rightarrow> string + (byte \<times> bytes)"
  get_u32 :: "bytes \<Rightarrow> string + (u32 \<times> bytes)"
  get_u64 :: "bytes \<Rightarrow> string + (u64 \<times> bytes)"
  get_bytes :: "bytes \<Rightarrow> string + (bytes \<times> bytes)"
  get_str :: "bytes \<Rightarrow> string + (string \<times> bytes)"
  get_map :: "bytes \<Rightarrow> string + (u64 option \<times> bytes)"
  get_array :: "bytes \<Rightarrow> string + (u64 option \<times> bytes)"
  get_envelope_wire :: "bytes \<Rightarrow> string + (envelope_wire \<times> bytes)"
  get_head_wire :: "bytes \<Rightarrow> string + (head_wire \<times> bytes)"
  get_commit_wire :: "bytes \<Rightarrow> string + (commit_wire \<times> bytes)"
  get_checkpoint_wire :: "bytes \<Rightarrow> string + (checkpoint_wire \<times> bytes)"
  get_token_wire :: "bytes \<Rightarrow> string + (token_wire \<times> bytes)"

definition Digest_of :: "externals \<Rightarrow> bytes \<Rightarrow> digest" where
  "Digest_of E bs = blake3 E bs"


section \<open>The derived encoders\<close>

text \<open>
  One definition per wire structure, from its attributes: \<open>put_struct\<close> is what
  \<^verbatim>\<open>#[derive(Encode)] #[cbor(map)]\<close> writes for the listed field numbers, where a field that is
  \<open>None\<close> is absent.
\<close>

definition put_envelope_wire :: "externals \<Rightarrow> envelope_wire \<Rightarrow> bytes" where
  "put_envelope_wire E w = put_struct E [
    (1, Some (put_bytes E (ew_payload w))),
    (2, Some (put_bytes E (ew_digest w)))]"

definition put_object_ref_wire :: "externals \<Rightarrow> object_ref_wire \<Rightarrow> bytes" where
  "put_object_ref_wire E w = put_struct E [
    (1, Some (put_u8 E (orw_kind w))),
    (2, Some (put_bytes E (orw_digest w))),
    (3, Some (put_u64 E (orw_len w))),
    (4, Some (put_bytes E (orw_storage_id w))),
    (5, Some (put_u64 E (orw_subtree_objects w)))]"

definition put_commit_ref_wire :: "externals \<Rightarrow> commit_ref_wire \<Rightarrow> bytes" where
  "put_commit_ref_wire E w = put_struct E [
    (1, Some (put_u64 E (crw_sequence w))),
    (2, Some (put_bytes E (crw_transaction_id w))),
    (3, Some (put_bytes E (crw_digest w))),
    (4, Some (put_u64 E (crw_len w))),
    (5, Some (put_bytes E (crw_storage_id w)))]"

definition put_checkpoint_ref_wire :: "externals \<Rightarrow> checkpoint_ref_wire \<Rightarrow> bytes" where
  "put_checkpoint_ref_wire E w = put_struct E [
    (1, Some (put_u64 E (cpw_through_sequence w))),
    (2, Some (put_bytes E (cpw_through_commit w))),
    (3, map_option (put_object_ref_wire E) (cpw_object w))]"

definition put_plan_ref_wire :: "externals \<Rightarrow> plan_ref_wire \<Rightarrow> bytes" where
  "put_plan_ref_wire E w = put_struct E [
    (1, Some (put_bytes E (plw_storage_id w))),
    (2, Some (put_bytes E (plw_digest w))),
    (3, Some (put_u64 E (plw_len w)))]"

definition put_options_wire :: "externals \<Rightarrow> options_wire \<Rightarrow> bytes" where
  "put_options_wire E w = put_struct E [
    (1, Some (put_u64 E (ow_max_tail_entries w))),
    (2, Some (put_u64 E (ow_resolution_window w))),
    (3, Some (put_u64 E (ow_max_inline_operation_bytes w))),
    (4, Some (put_u64 E (ow_max_inline_result_bytes w))),
    (5, Some (put_u64 E (ow_max_object_refs w))),
    (6, Some (put_u64 E (ow_max_commit_bytes w))),
    (7, Some (put_u64 E (ow_max_head_bytes w))),
    (8, Some (put_u64 E (ow_max_checkpoint_bytes w))),
    (9, Some (put_u64 E (ow_max_object_bytes w))),
    (10, Some (put_u64 E (ow_max_retention_ids w))),
    (11, Some (put_u64 E (ow_max_collection_objects w))),
    (12, Some (put_u64 E (ow_max_collection_plan_bytes w)))]"

definition put_head_wire :: "externals \<Rightarrow> head_wire \<Rightarrow> bytes" where
  "put_head_wire E w = put_struct E [
    (1, Some (put_u32 E (hw_format_version w))),
    (2, Some (put_str E (hw_log_id w))),
    (3, Some (put_u64 E (hw_generation w))),
    (4, Some (put_u64 E (hw_next_sequence w))),
    (5, map_option (put_checkpoint_ref_wire E) (hw_checkpoint w)),
    (6, Some (put_vec E (map (put_commit_ref_wire E) (hw_tail w)))),
    (7, Some (put_vec E (map (put_commit_ref_wire E) (hw_recent_outcomes w)))),
    (8, Some (put_bytes E (hw_incarnation w))),
    (9, Some (put_options_wire E (hw_options w))),
    (10, Some (put_u64 E (hw_collection_epoch w))),
    (11, map_option (put_plan_ref_wire E) (hw_active_plan w)),
    (12, Some (put_vec E (map (put_bytes E) (hw_retention_ids w))))]"

definition put_commit_wire :: "externals \<Rightarrow> commit_wire \<Rightarrow> bytes" where
  "put_commit_wire E w = put_struct E [
    (1, Some (put_u32 E (cw_format_version w))),
    (2, Some (put_str E (cw_log_id w))),
    (3, Some (put_bytes E (cw_transaction_id w))),
    (4, map_option (put_bytes E) (cw_expected_tip w)),
    (5, Some (put_bytes E (cw_operation w))),
    (6, Some (put_bytes E (cw_result w))),
    (7, Some (put_vec E (map (put_object_ref_wire E) (cw_objects w)))),
    (8, Some (put_bytes E (cw_incarnation w)))]"

definition put_checkpoint_wire :: "externals \<Rightarrow> checkpoint_wire \<Rightarrow> bytes" where
  "put_checkpoint_wire E w = put_struct E [
    (1, Some (put_u32 E (kw_format_version w))),
    (2, Some (put_str E (kw_log_id w))),
    (3, Some (put_u64 E (kw_through_sequence w))),
    (4, Some (put_bytes E (kw_through_commit w))),
    (5, Some (put_bytes E (kw_snapshot w))),
    (6, Some (put_bytes E (kw_incarnation w))),
    (7, Some (put_vec E (map (put_object_ref_wire E) (kw_objects w))))]"

definition put_token_wire :: "externals \<Rightarrow> token_wire \<Rightarrow> bytes" where
  "put_token_wire E w = put_struct E [
    (1, Some (put_u32 E (tw_format_version w))),
    (2, Some (put_bytes E (tw_head_digest w))),
    (3, map_option (put_str E) (tw_e_tag w)),
    (4, map_option (put_str E) (tw_storage_version w)),
    (5, Some (put_bytes E (tw_transaction_id w))),
    (6, Some (put_bytes E (tw_operation w))),
    (7, Some (put_bytes E (tw_result w))),
    (8, Some (put_vec E (map (put_object_ref_wire E) (tw_objects w)))),
    (9, Some (put_bytes E (tw_storage_id w))),
    (10, Some (put_bytes E (tw_publication_base_digest w))),
    (11, Some (put_u64 E (tw_generation w))),
    (12, Some (put_u64 E (tw_next_sequence w))),
    (13, map_option (put_bytes E) (tw_tip w)),
    (14, Some (put_str E (tw_log_id w))),
    (15, Some (put_bytes E (tw_incarnation w))),
    (16, Some (put_bytes E (tw_options_digest w)))]"

definition put_candidate_wire :: "externals \<Rightarrow> candidate_wire \<Rightarrow> bytes" where
  "put_candidate_wire E w = put_struct E [
    (1, Some (put_bytes E (xw_incarnation w))),
    (2, Some (put_u8 E (xw_kind w))),
    (3, Some (put_bytes E (xw_storage_id w))),
    (4, Some (put_bytes E (xw_digest w))),
    (5, Some (put_u64 E (xw_bytes w)))]"

definition put_plan_wire :: "externals \<Rightarrow> plan_wire \<Rightarrow> bytes" where
  "put_plan_wire E w = put_struct E [
    (1, Some (put_u32 E (pw_format_version w))),
    (2, Some (put_str E (pw_log_id w))),
    (3, Some (put_u64 E (pw_collection_epoch w))),
    (4, Some (put_vec E (map (put_candidate_wire E) (pw_candidates w))))]"


section \<open>Documented behaviour\<close>

text \<open>No Rust value exceeds the address space; \<open>fits\<close> is that bound at 64 bits.\<close>

definition fits :: "'a list \<Rightarrow> bool" where
  "fits bs \<longleftrightarrow> length bs < 2 ^ 64"

lemma fits_append: "fits (a @ b) \<Longrightarrow> fits a \<and> fits b"
  by (simp add: fits_def)

lemma unat_of_length [simp]: "fits xs \<Longrightarrow> unat (of_nat (length xs) :: u64) = length xs"
  by (simp add: fits_def)

text \<open>RFC 8949: the number of bytes of the shortest head that carries an argument.\<close>

definition shortest_head :: "u64 \<Rightarrow> nat" where
  "shortest_head v =
    (if unat v < 24 then 1 else if unat v < 2 ^ 8 then 2 else if unat v < 2 ^ 16 then 3
     else if unat v < 2 ^ 32 then 5 else 9)"

definition present :: "(nat \<times> bytes option) list \<Rightarrow> (nat \<times> bytes) list" where
  "present fs = List.map_filter (\<lambda>(n, v). map_option (Pair n) v) fs"

lemma present_simps [simp]:
  "present [] = []"
  "present ((n, Some v) # fs) = (n, v) # present fs"
  "present ((n, None) # fs) = present fs"
  by (simp_all add: present_def map_filter_simps)

text \<open>Reading inverts writing, whatever follows.\<close>

locale item_codec =
  fixes get :: "bytes \<Rightarrow> string + ('v \<times> bytes)" and put :: "'v \<Rightarrow> bytes"
  assumes get_put: "fits (put v) \<Longrightarrow> get (put v @ rest) = Inr (v, rest)"

locale len_codec =
  fixes get :: "bytes \<Rightarrow> string + (u64 option \<times> bytes)" and put :: "u64 \<Rightarrow> bytes"
  assumes get_put_len: "get (put v @ rest) = Inr (Some v, rest)"

locale cbor =
  u8: item_codec "get_u8 E" "put_u8 E" +
  u32: item_codec "get_u32 E" "put_u32 E" +
  u64: item_codec "get_u64 E" "put_u64 E" +
  bytes: item_codec "get_bytes E" "put_bytes E" +
  str: item_codec "get_str E" "put_str E" +
  envelope: item_codec "get_envelope_wire E" "put_envelope_wire E" +
  head: item_codec "get_head_wire E" "put_head_wire E" +
  commit: item_codec "get_commit_wire E" "put_commit_wire E" +
  checkpoint: item_codec "get_checkpoint_wire E" "put_checkpoint_wire E" +
  token: item_codec "get_token_wire E" "put_token_wire E" +
  map: len_codec "get_map E" "put_map E" +
  array: len_codec "get_array E" "put_array E"
  for E +
  assumes put_u8_u64: "put_u8 E b = put_u64 E (ucast b)"
    and put_u32_u64: "put_u32 E v = put_u64 E (ucast v)"
    and length_put_u64: "length (put_u64 E n) = shortest_head n"
    and length_put_map: "length (put_map E n) = shortest_head n"
    and length_put_array: "length (put_array E n) = shortest_head n"
    and length_put_bytes_len: "length (put_bytes_len E n) = shortest_head n"
    and put_bytes_split: "fits bs \<Longrightarrow> put_bytes E bs = put_bytes_len E (of_nat (length bs)) @ bs"
    and put_vec_items: "fits items \<Longrightarrow> put_vec E items = put_array E (of_nat (length items)) @ concat items"
    and put_struct_fields: "put_struct E fs = put_map E (of_nat (length (present fs)))
      @ concat (map (\<lambda>(n, v). put_u64 E (of_nat n) @ v) (present fs))"
    and put_bytes_grows: "length bs < length (put_bytes E bs)"
begin

lemma length_put_u8: "length (put_u8 E b) = shortest_head (ucast b)"
  by (simp add: put_u8_u64 length_put_u64)

lemma fits_put_len [simp]: "fits (put_u64 E n)" "fits (put_u8 E b)" "fits (put_u32 E v)"
  by (simp_all add: fits_def length_put_u64 put_u8_u64 put_u32_u64 shortest_head_def)

lemma get_u8_put [simp]: "get_u8 E (put_u8 E b @ rest) = Inr (b, rest)"
  by (rule u8.get_put) simp

lemma get_u64_put [simp]: "get_u64 E (put_u64 E n @ rest) = Inr (n, rest)"
  by (rule u64.get_put) simp

lemma fits_put_bytes: "fits (put_bytes E bs) \<Longrightarrow> fits bs"
  using put_bytes_grows [of bs] by (simp add: fits_def)

end

end
