(* ===== verification/Envelope.thy ===== *)
theory Envelope
  imports Minicbor
begin

text \<open>
  Canonical reading (\<^verbatim>\<open>src/src/format.rs\<close>): \<open>MatchingWriter\<close> re-encodes every value as it is read and
  compares it with the input, so a decoder built from \<open>exact_value!\<close> and \<open>exact_len!\<close> accepts exactly
  one encoding. The checked envelope around every stored object is read this way. The lemmas
  characterise what is accepted: the cursor of the decoder and the cursor of the writer never
  part, and an accepted envelope is byte for byte the encoding of its payload.
\<close>


section \<open>Canonical cursors\<close>

definition invalid_canonical_object :: error where
  "invalid_canonical_object = invalid ''encoded object is not canonical format version 1''"

definition valid :: "bool \<Rightarrow> unit result" where
  "valid condition = (if condition then Inr () else Inl invalid_canonical_object)"

lemma valid_Inr [result_simps]: "valid c = Inr u \<longleftrightarrow> c"
  by (simp add: valid_def)

lemma valid_bind [bind_simps]: "and_then (valid c) f = Inr y \<longleftrightarrow> c \<and> f () = Inr y"
  by (simp add: valid_def)

definition matching_write :: "bytes \<Rightarrow> bytes \<Rightarrow> unit + bytes" where
  "matching_write w bs = ok_or (strip_prefix bs w) ()"

lemma matching_write_Inr: "matching_write w bs = Inr w' \<longleftrightarrow> w = bs @ w'"
  by (simp add: matching_write_def result_simps)

lemma matching_write_self [simp]:
  "matching_write (bs @ w) bs = Inr w" "matching_write bs bs = Inr []"
  by (simp_all add: matching_write_Inr)

lemma matching_write_append:
  "matching_write w (a @ b) = and_then (matching_write w a) (\<lambda>w'. matching_write w' b)"
proof -
  have "strip_prefix (a @ b) w = Option.bind (strip_prefix a w) (strip_prefix b)"
    by (induction a w rule: strip_prefix.induct) auto
  then show ?thesis
    by (cases "strip_prefix a w") (simp_all add: matching_write_def del: strip_prefix_Some)
qed

text \<open>A reading state: the input left to the decoder and the input left to the writer.\<close>

type_synonym cursor = "bytes \<times> bytes"

definition exact_value ::
    "(bytes \<Rightarrow> string + ('v \<times> bytes)) \<Rightarrow> ('v \<Rightarrow> bytes) \<Rightarrow> cursor \<Rightarrow> ('v \<times> cursor) result" where
  "exact_value get put st =
    and_then (map_err InvalidFormat (get (fst st))) (\<lambda>(v, d).
    and_then (map_err (\<lambda>_. invalid_canonical_object) (matching_write (snd st) (put v))) (\<lambda>e.
    Inr (v, d, e)))"

definition exact_len ::
    "(bytes \<Rightarrow> string + (u64 option \<times> bytes)) \<Rightarrow> (u64 \<Rightarrow> bytes) \<Rightarrow> cursor \<Rightarrow> (u64 \<times> cursor) result" where
  "exact_len get put st =
    and_then (map_err InvalidFormat (get (fst st))) (\<lambda>(len, d).
    case len of
      None \<Rightarrow> Inl invalid_canonical_object
    | Some v \<Rightarrow>
        and_then (map_err (\<lambda>_. invalid_canonical_object) (matching_write (snd st) (put v))) (\<lambda>e.
        Inr (v, d, e)))"

definition decoder_position :: "bytes \<Rightarrow> cursor \<Rightarrow> nat" where
  "decoder_position bs st = length bs - length (fst st)"

context item_codec
begin

lemma exact_value_Inr:
  assumes "fits bs"
  shows "exact_value get put (bs, bs) = Inr (v, st) \<longleftrightarrow> (\<exists>r. bs = put v @ r \<and> st = (r, r))"
  using assms get_put
  by (fastforce simp: exact_value_def result_simps matching_write_Inr dest: fits_append)

lemma exact_value_put:
  assumes "fits (put v)"
  shows "exact_value get put (put v @ r, put v @ r) = Inr (v, r, r)"
    "exact_value get put (put v, put v) = Inr (v, [], [])"
  using assms get_put [of v] get_put [of v "[]"] by (simp_all add: exact_value_def)

lemma exact_value_bind:
  assumes "fits bs"
  shows "and_then (exact_value get put (bs, bs)) f = Inr y \<longleftrightarrow>
    (\<exists>v r. bs = put v @ r \<and> fits r \<and> f (v, r, r) = Inr y)"
  using assms by (auto simp: and_then_Inr exact_value_Inr dest: fits_append)

end

context len_codec
begin

lemma exact_len_Inr:
  "exact_len get put (bs, bs) = Inr (v, st) \<longleftrightarrow> (\<exists>r. bs = put v @ r \<and> st = (r, r))"
  using get_put_len
  by (fastforce simp: exact_len_def result_simps matching_write_Inr split: option.splits)

lemma exact_len_put: "exact_len get put (put v @ r, put v @ r) = Inr (v, r, r)"
  using get_put_len [of v r] by (simp add: exact_len_def)

lemma exact_len_bind:
  assumes "fits bs"
  shows "and_then (exact_len get put (bs, bs)) f = Inr y \<longleftrightarrow>
    (\<exists>v r. bs = put v @ r \<and> fits r \<and> f (v, r, r) = Inr y)"
  using assms by (auto simp: and_then_Inr exact_len_Inr dest: fits_append)

end


section \<open>Whole-input decoding\<close>

definition decode_exact :: "(bytes \<Rightarrow> string + ('v \<times> bytes)) \<Rightarrow> bytes \<Rightarrow> 'v result" where
  "decode_exact get bs =
    and_then (map_err InvalidFormat (get bs)) (\<lambda>(v, rest).
    if length bs - length rest \<noteq> length bs
    then Inl (invalid ''encoded object contains trailing bytes'') else Inr v)"

definition require_canonical :: "bytes \<Rightarrow> bytes \<Rightarrow> unit result" where
  "require_canonical input canonical =
    (if input \<noteq> canonical then Inl (invalid ''encoded object is not canonical format version 1'')
     else Inr ())"

lemma require_canonical_Inr [result_simps]: "require_canonical a b = Inr u \<longleftrightarrow> a = b"
  by (simp add: require_canonical_def)

definition require_canonical_wire :: "bytes \<Rightarrow> bytes \<Rightarrow> unit result" where
  "require_canonical_wire payload encoded =
    and_then (map_err (\<lambda>_. invalid_canonical_object) (matching_write payload encoded)) (\<lambda>w.
    valid (w = []))"

lemma require_canonical_wire_Inr [result_simps]:
  "require_canonical_wire payload encoded = Inr u \<longleftrightarrow> payload = encoded"
  by (auto simp: require_canonical_wire_def result_simps matching_write_Inr)

lemma decode_exact_put:
  assumes "item_codec get put" "fits (put v)"
  shows "decode_exact get (put v) = Inr v"
  using item_codec.get_put [OF assms, of "[]"] by (simp add: decode_exact_def)


section \<open>The checked envelope\<close>

definition encode_envelope :: "externals \<Rightarrow> bytes \<Rightarrow> bytes" where
  "encode_envelope E payload =
    put_envelope_wire E \<lparr>ew_payload = payload, ew_digest = digest_as_bytes (Digest_of E payload)\<rparr>"

definition decode_envelope ::
    "externals \<Rightarrow> (bytes \<Rightarrow> string + ('v \<times> bytes)) \<Rightarrow> bytes \<Rightarrow> 'v result" where
  "decode_envelope E get bs =
    and_then (decode_exact (get_envelope_wire E) bs) (\<lambda>envelope.
    and_then (digest_of_bytes (ew_digest envelope)) (\<lambda>d.
    if d \<noteq> Digest_of E (ew_payload envelope) then Inl CorruptObject
    else decode_exact get (ew_payload envelope)))"

definition decode_borrowed_envelope :: "externals \<Rightarrow> bytes \<Rightarrow> (nat \<times> nat) result" where
  "decode_borrowed_envelope E bs =
    and_then (exact_len (get_map E) (put_map E) (bs, bs)) (\<lambda>(n, st).
    and_then (valid (n = 2)) (\<lambda>_.
    and_then (exact_value (get_u8 E) (put_u8 E) st) (\<lambda>(k, st).
    and_then (valid (k = 1)) (\<lambda>_.
    and_then (exact_value (get_bytes E) (put_bytes E) st) (\<lambda>(payload, st).
    let payload_range = (decoder_position bs st - length payload, decoder_position bs st) in
    and_then (exact_value (get_u8 E) (put_u8 E) st) (\<lambda>(k, st).
    and_then (valid (k = 2)) (\<lambda>_.
    and_then (exact_value (get_bytes E) (put_bytes E) st) (\<lambda>(encoded_digest, st).
    and_then (valid (decoder_position bs st = length bs)) (\<lambda>_.
    and_then (digest_of_bytes encoded_digest) (\<lambda>d.
    if d \<noteq> Digest_of E payload then Inl CorruptObject else Inr payload_range))))))))))"

text \<open>\<^verbatim>\<open>&bytes[decode_borrowed_envelope(bytes)?]\<close>.\<close>

definition envelope_payload :: "externals \<Rightarrow> bytes \<Rightarrow> bytes result" where
  "envelope_payload E bs = and_then (decode_borrowed_envelope E bs) (\<lambda>rg. Inr (slice bs rg))"

definition payload_start :: "externals \<Rightarrow> bytes \<Rightarrow> nat" where
  "payload_start E payload = 2 + shortest_head (of_nat (length payload))"

context cbor
begin

lemmas exact_bind = u8.exact_value_bind u32.exact_value_bind u64.exact_value_bind
  bytes.exact_value_bind str.exact_value_bind map.exact_len_bind array.exact_len_bind valid_bind

lemmas exact_put = u8.exact_value_put u32.exact_value_put u64.exact_value_put
  bytes.exact_value_put str.exact_value_put map.exact_len_put array.exact_len_put

lemma small_heads:
  "length (put_map E 2) = 1" "length (put_u8 E 1) = 1" "length (put_u8 E 2) = 1"
  by (simp_all add: length_put_map length_put_u8 shortest_head_def)

lemma encode_envelope_form:
  "encode_envelope E p = put_map E 2 @ put_u8 E 1 @ put_bytes E p
    @ put_u8 E 2 @ put_bytes E (digest_as_bytes (Digest_of E p))"
  by (simp add: encode_envelope_def put_envelope_wire_def put_struct_fields put_u8_u64)

lemma encode_envelope_layout:
  assumes "fits (encode_envelope E p)"
  shows "encode_envelope E p = (put_map E 2 @ put_u8 E 1 @ put_bytes_len E (of_nat (length p))) @ p
    @ (put_u8 E 2 @ put_bytes E (digest_as_bytes (Digest_of E p)))"
proof -
  have "fits p"
    using assms unfolding encode_envelope_form by (meson fits_append fits_put_bytes)
  then show ?thesis
    by (simp add: encode_envelope_form put_bytes_split)
qed

lemma slice_envelope:
  assumes "fits (encode_envelope E p)"
  shows "slice (encode_envelope E p) (payload_start E p, payload_start E p + length p) = p"
proof -
  let ?a = "put_map E 2 @ put_u8 E 1 @ put_bytes_len E (of_nat (length p))"
  have "payload_start E p = length ?a"
    by (simp add: payload_start_def small_heads length_put_bytes_len)
  then show ?thesis
    unfolding encode_envelope_layout [OF assms] by (simp only: slice_middle)
qed

text \<open>Accepted envelopes are exactly the encodings, and the range returned is their payload.\<close>

lemma decode_borrowed_envelope_Inr:
  assumes "fits bs"
  shows "decode_borrowed_envelope E bs = Inr rg \<longleftrightarrow>
    (\<exists>p. bs = encode_envelope E p \<and> rg = (payload_start E p, payload_start E p + length p))"
    (is "?L \<longleftrightarrow> ?R")
proof -
  have at: "decoder_position bs (put_u8 E 2 @ put_bytes E (digest_as_bytes (Digest_of E p)), st)
      = payload_start E p + length p" if "bs = encode_envelope E p" for p st
    using encode_envelope_layout [of p] assms that
    by (simp add: payload_start_def small_heads length_put_bytes_len decoder_position_def)
  show ?thesis
  proof
    assume ?L
    then have "\<exists>p. bs = encode_envelope E p
      \<and> rg = (decoder_position bs (put_u8 E 2 @ put_bytes E (digest_as_bytes (Digest_of E p)), []) - length p,
              decoder_position bs (put_u8 E 2 @ put_bytes E (digest_as_bytes (Digest_of E p)), []))"
      unfolding decode_borrowed_envelope_def Let_def encode_envelope_form using assms
      by (simp add: exact_bind cong: conj_cong)
        (auto simp: and_then_Inr decoder_position_def split: if_splits)
    then show ?R
      using at by (metis add_diff_cancel_right')
  next
    assume ?R
    then obtain p where bs: "bs = encode_envelope E p"
      and rg: "rg = (payload_start E p, payload_start E p + length p)"
      by auto
    have "fits (put_bytes E p)" "fits (put_bytes E (digest_as_bytes (Digest_of E p)))"
      using assms unfolding bs encode_envelope_form by (auto dest: fits_append)
    then show ?L
      using at [OF bs] unfolding decode_borrowed_envelope_def rg
      by (simp add: bs encode_envelope_form exact_put valid_def) (simp add: decoder_position_def)
  qed
qed

lemma envelope_payload_Inr:
  assumes "fits bs"
  shows "envelope_payload E bs = Inr p \<longleftrightarrow> bs = encode_envelope E p"
proof
  assume "envelope_payload E bs = Inr p"
  then show "bs = encode_envelope E p"
    using assms slice_envelope
    by (auto simp: envelope_payload_def and_then_Inr decode_borrowed_envelope_Inr)
next
  assume "bs = encode_envelope E p"
  then have "decode_borrowed_envelope E bs = Inr (payload_start E p, payload_start E p + length p)"
    using assms by (auto simp: decode_borrowed_envelope_Inr)
  with \<open>bs = _\<close> assms slice_envelope show "envelope_payload E bs = Inr p"
    by (simp add: envelope_payload_def)
qed

lemma encode_envelope_fits: "fits (encode_envelope E p) \<Longrightarrow> fits p"
  unfolding encode_envelope_form by (meson fits_append fits_put_bytes)

end

end
