(* ===== verification/Head_Shape.thy ===== *)
theory Head_Shape
  imports Envelope
begin

text \<open>
  The allocation-free structural check of an encoded head (\<open>validate_head_shape\<close> and
  \<open>head_shape_map\<close> of \<^verbatim>\<open>src/src/format.rs\<close>), run before the derived decoder. A check takes the
  remaining input and returns what follows the item it accepted. The lemmas build up, item by
  item, that every encoding the program writes passes the check.
\<close>


section \<open>The checks\<close>

definition shape_bytes :: "externals \<Rightarrow> usize \<Rightarrow> bytes \<Rightarrow> bytes result" where
  "shape_bytes E len bs =
    and_then (map_err InvalidFormat (get_bytes E bs)) (\<lambda>(value, bs).
    and_then (valid (length value = len)) (\<lambda>_. Inr bs))"

definition shape_uint :: "externals \<Rightarrow> bytes \<Rightarrow> bytes result" where
  "shape_uint E bs = and_then (map_err InvalidFormat (get_u64 E bs)) (\<lambda>(_, bs). Inr bs)"

definition key_bit :: "nat \<Rightarrow> 16 word" where
  "key_bit key = push_bit key 1"

definition checked_shl_u16 :: "16 word \<Rightarrow> nat \<Rightarrow> 16 word option" where
  "checked_shl_u16 w n = (if n < 16 then Some (push_bit n w) else None)"

fun head_shape_fields ::
    "externals \<Rightarrow> (byte \<Rightarrow> bytes \<Rightarrow> bytes result) \<Rightarrow> nat \<Rightarrow> byte \<Rightarrow> 16 word \<Rightarrow> bytes
      \<Rightarrow> (16 word \<times> bytes) result" where
  "head_shape_fields E field 0 previous seen bs = Inr (seen, bs)"
| "head_shape_fields E field (Suc count) previous seen bs =
    and_then (map_err InvalidFormat (get_u8 E bs)) (\<lambda>(key, bs).
    and_then (valid (key > previous)) (\<lambda>_.
    and_then (field key bs) (\<lambda>bs.
    and_then (ok_or (checked_shl_u16 1 (unat key)) invalid_canonical_object) (\<lambda>bit.
    head_shape_fields E field count key (seen OR bit) bs))))"

definition head_shape_map ::
    "externals \<Rightarrow> byte list \<Rightarrow> (byte \<Rightarrow> bytes \<Rightarrow> bytes result) \<Rightarrow> bytes \<Rightarrow> bytes result" where
  "head_shape_map E required_fields field bs =
    and_then (map_err InvalidFormat (get_map E bs)) (\<lambda>(len, bs).
    and_then (ok_or len invalid_canonical_object) (\<lambda>count.
    and_then (head_shape_fields E field (unat count) 0 0 bs) (\<lambda>(seen, bs).
    and_then (valid (list_all (\<lambda>key. seen AND key_bit (unat key) \<noteq> 0) required_fields)) (\<lambda>_.
    Inr bs))))"

fun shape_repeat :: "(bytes \<Rightarrow> bytes result) \<Rightarrow> nat \<Rightarrow> bytes \<Rightarrow> bytes result" where
  "shape_repeat item 0 bs = Inr bs"
| "shape_repeat item (Suc count) bs = and_then (item bs) (shape_repeat item count)"

definition shape_array :: "externals \<Rightarrow> (bytes \<Rightarrow> bytes result) \<Rightarrow> bytes \<Rightarrow> bytes result" where
  "shape_array E item bs =
    and_then (map_err InvalidFormat (get_array E bs)) (\<lambda>(len, bs).
    and_then (ok_or len invalid_canonical_object) (\<lambda>count.
    shape_repeat item (unat count) bs))"

definition shape_object_field :: "externals \<Rightarrow> byte \<Rightarrow> bytes \<Rightarrow> bytes result" where
  "shape_object_field E field bs =
    (if field \<in> {1, 3, 5} then shape_uint E bs
     else if field = 2 then shape_bytes E DIGEST_LEN bs
     else if field = 4 then shape_bytes E UUID_LEN bs
     else Inl invalid_canonical_object)"

definition shape_checkpoint_field :: "externals \<Rightarrow> byte \<Rightarrow> bytes \<Rightarrow> bytes result" where
  "shape_checkpoint_field E field bs =
    (if field = 1 then shape_uint E bs
     else if field = 2 then shape_bytes E DIGEST_LEN bs
     else if field = 3 then head_shape_map E [1, 2, 3, 4, 5] (shape_object_field E) bs
     else Inl invalid_canonical_object)"

definition shape_commit_field :: "externals \<Rightarrow> byte \<Rightarrow> bytes \<Rightarrow> bytes result" where
  "shape_commit_field E field bs =
    (if field \<in> {1, 4} then shape_uint E bs
     else if field \<in> {2, 5} then shape_bytes E UUID_LEN bs
     else if field = 3 then shape_bytes E DIGEST_LEN bs
     else Inl invalid_canonical_object)"

definition shape_options_field :: "externals \<Rightarrow> byte \<Rightarrow> bytes \<Rightarrow> bytes result" where
  "shape_options_field E field bs =
    and_then (valid (1 \<le> field \<and> field \<le> 12)) (\<lambda>_. shape_uint E bs)"

definition shape_plan_field :: "externals \<Rightarrow> byte \<Rightarrow> bytes \<Rightarrow> bytes result" where
  "shape_plan_field E field bs =
    (if field = 1 then shape_bytes E UUID_LEN bs
     else if field = 2 then shape_bytes E DIGEST_LEN bs
     else if field = 3 then shape_uint E bs
     else Inl invalid_canonical_object)"

definition shape_head_field :: "externals \<Rightarrow> byte \<Rightarrow> bytes \<Rightarrow> bytes result" where
  "shape_head_field E field bs =
    (if field \<in> {1, 3, 4, 10} then shape_uint E bs
     else if field = 2 then
       and_then (map_err InvalidFormat (get_str E bs)) (\<lambda>(value, bs).
       if length value > MAX_LOG_ID_LEN then Inl InvalidLogId else Inr bs)
     else if field = 5 then head_shape_map E [1, 2, 3] (shape_checkpoint_field E) bs
     else if field \<in> {6, 7} then
       shape_array E (head_shape_map E [1, 2, 3, 4, 5] (shape_commit_field E)) bs
     else if field = 8 then shape_bytes E UUID_LEN bs
     else if field = 9 then
       head_shape_map E [1, 2, 3, 4, 5, 6, 7, 8, 9, 10, 11, 12] (shape_options_field E) bs
     else if field = 11 then head_shape_map E [1, 2, 3] (shape_plan_field E) bs
     else if field = 12 then shape_array E (shape_bytes E UUID_LEN) bs
     else Inl invalid_canonical_object)"

definition validate_head_shape :: "externals \<Rightarrow> bytes \<Rightarrow> unit result" where
  "validate_head_shape E bs =
    and_then (head_shape_map E [1, 2, 3, 4, 6, 7, 8, 9, 10, 12] (shape_head_field E) bs) (\<lambda>rest.
    valid (length bs - length rest = length bs))"


section \<open>Encodings pass\<close>

text \<open>\<open>consumes check enc\<close>: the check accepts the encoding and stops right after it.\<close>

definition consumes :: "(bytes \<Rightarrow> bytes result) \<Rightarrow> bytes \<Rightarrow> bool" where
  "consumes check enc \<longleftrightarrow> (\<forall>rest. check (enc @ rest) = Inr rest)"

fun key_mask :: "nat list \<Rightarrow> 16 word" where
  "key_mask [] = 0"
| "key_mask (k # ks) = key_bit k OR key_mask ks"

lemma bit_key_bit: "bit (key_bit k) i \<longleftrightarrow> i = k \<and> k < 16"
  by (auto simp: key_bit_def bit_simps)

lemma bit_key_mask: "bit (key_mask ks) k \<longleftrightarrow> k < 16 \<and> k \<in> set ks"
  by (induction ks) (auto simp: bit_simps bit_key_bit)

lemma key_bit_test: "w AND key_bit k \<noteq> 0 \<longleftrightarrow> bit w k"
proof -
  have "bit (w AND key_bit k) i \<longleftrightarrow> i = k \<and> bit w k" for i
    by (auto simp: bit_simps bit_key_bit dest: bit_imp_le_length)
  then show ?thesis by (metis bit_0_eq bit_word_eqI bot_apply bot_bool_def)
qed

lemma checked_shl_one: "k < 16 \<Longrightarrow> checked_shl_u16 1 k = Some (key_bit k)"
  by (simp add: checked_shl_u16_def key_bit_def)

lemma ucast_small_key: "n < 16 \<Longrightarrow> ucast (of_nat n :: byte) = (of_nat n :: u64)"
  by (simp add: word_unat_eq_iff unat_of_nat unsigned_ucast_eq take_bit_nat_eq_self)

definition ascending_keys :: "nat list \<Rightarrow> bool" where
  "ascending_keys ks \<longleftrightarrow> sorted_wrt (<) ks \<and> (\<forall>k\<in>set ks. 0 < k \<and> k < 16)"

context cbor
begin

lemma consumes_uint: "consumes (shape_uint E) (put_u64 E n)"
  by (simp add: consumes_def shape_uint_def)

lemma consumes_bytes: "length bs = len \<Longrightarrow> fits (put_bytes E bs) \<Longrightarrow> consumes (shape_bytes E len) (put_bytes E bs)"
  by (simp add: consumes_def shape_bytes_def bytes.get_put valid_def)

lemma shape_fields_put:
  assumes "\<forall>(n, v)\<in>set fs. consumes (field (of_nat n)) v"
    and "ascending_keys (map fst fs)" "\<forall>n\<in>set (map fst fs). unat previous < n"
  shows "head_shape_fields E field (length fs) previous seen
      (concat (map (\<lambda>(n, v). put_u64 E (of_nat n) @ v) fs) @ rest)
    = Inr (seen OR key_mask (map fst fs), rest)"
  using assms
proof (induction fs arbitrary: previous seen)
  case (Cons f fs)
  obtain n v where f: "f = (n, v)" by (cases f)
  have n: "0 < n" "n < 16" "unat previous < n"
    using Cons.prems f by (auto simp: ascending_keys_def)
  then have key: "unat (of_nat n :: byte) = n" by (simp add: unat_of_nat)
  have "put_u64 E (of_nat n) = put_u8 E (of_nat n)"
    using n by (simp add: put_u8_u64 ucast_small_key)
  moreover have "previous < of_nat n"
    using n key by (simp add: word_less_nat_alt)
  moreover have "head_shape_fields E field (length fs) (of_nat n) (seen OR key_bit n)
      (concat (map (\<lambda>(n, v). put_u64 E (of_nat n) @ v) fs) @ rest)
    = Inr ((seen OR key_bit n) OR key_mask (map fst fs), rest)"
    using Cons.prems f key by (intro Cons.IH) (auto simp: ascending_keys_def)
  ultimately show ?case
    using Cons.prems(1) f n key
    by (simp add: consumes_def valid_def checked_shl_one or.assoc)
qed simp

lemma consumes_struct:
  assumes "\<forall>(n, v)\<in>set (present fs). consumes (field (of_nat n)) v"
    and asc: "ascending_keys (map fst (present fs))"
    and req: "\<forall>k\<in>set required. unat k \<in> set (map fst (present fs))"
  shows "consumes (head_shape_map E required field) (put_struct E fs)"
proof -
  let ?p = "present fs"
  have "length (map fst ?p) < 16"
  proof -
    have "set (map fst ?p) \<subseteq> {1..<16}" "distinct (map fst ?p)"
      using asc by (auto simp: ascending_keys_def strict_sorted_iff)
    then show ?thesis
      using card_mono [of "{1..<16::nat}" "set (map fst ?p)"] distinct_card [of "map fst ?p"]
      by simp
  qed
  then have "unat (of_nat (length ?p) :: u64) = length ?p" by simp
  moreover have "list_all (\<lambda>key. key_mask (map fst ?p) AND key_bit (unat key) \<noteq> 0) required"
    using req asc unfolding list_all_iff key_bit_test bit_key_mask ascending_keys_def by blast
  moreover have "\<forall>n\<in>set (map fst ?p). unat (0 :: byte) < n"
    using asc by (auto simp: ascending_keys_def)
  ultimately show ?thesis
    using shape_fields_put [OF assms(1,2), of 0 0]
    by (simp add: consumes_def head_shape_map_def put_struct_fields map.get_put_len valid_def)
qed

lemma shape_repeat_put:
  "\<forall>i\<in>set items. consumes item i \<Longrightarrow> shape_repeat item (length items) (concat items @ rest) = Inr rest"
  by (induction items) (simp_all add: consumes_def)

lemma consumes_vec:
  assumes "\<forall>i\<in>set items. consumes item i" "fits items"
  shows "consumes (shape_array E item) (put_vec E items)"
  using assms shape_repeat_put [OF assms(1)]
  by (simp add: consumes_def shape_array_def put_vec_items array.get_put_len fits_def)

end

end
