(* ===== verification/Format.thy ===== *)
theory Format
  imports Head_Shape Head_Log
begin

text \<open>
  Durable formats of \<^verbatim>\<open>src/src/format.rs\<close>: head, commit, checkpoint and recovery token. Every
  format has an encoder into the checked envelope and a decoder that accepts only the canonical
  encoding. Each pair satisfies the contract \<open>canonical_format\<close>: decoding inverts encoding, and
  bytes that decode are exactly the encoding of what they decode to, so that equal values have
  equal digests and distinct values distinct bytes.
\<close>


section \<open>Values\<close>

record commit_object =
  cm_log_id :: log_id
  cm_incarnation :: uuid
  cm_transaction_id :: transaction_id
  cm_expected_tip :: "digest option"
  cm_operation :: bytes
  cm_result :: bytes
  cm_objects :: "object_ref list"

record checkpoint_object =
  ck_log_id :: log_id
  ck_incarnation :: uuid
  ck_through_sequence :: u64
  ck_through_commit :: digest
  ck_snapshot :: bytes
  ck_objects :: "object_ref list"

text \<open>\<open>object_store::UpdateVersion\<close>: the opaque storage version of an object.\<close>

record update_version =
  e_tag :: "string option"
  version :: "string option"

record recovery_token =
  rt_head_digest :: digest
  rt_publication_base_digest :: digest
  rt_version :: update_version
  rt_generation :: u64
  rt_next_sequence :: u64
  rt_tip :: "digest option"
  rt_log_id :: log_id
  rt_incarnation :: uuid
  rt_options_digest :: digest
  rt_transaction_id :: transaction_id
  rt_operation :: bytes
  rt_result :: bytes
  rt_objects :: "object_ref list"
  rt_storage_id :: storage_id


section \<open>Head\<close>

definition head_to_wire :: "head \<Rightarrow> options_wire \<Rightarrow> head_wire" where
  "head_to_wire h opts = \<lparr>
    hw_format_version = FORMAT_VERSION,
    hw_log_id = log_id h,
    hw_generation = generation h,
    hw_next_sequence = next_sequence h,
    hw_checkpoint = map_option checkpoint_ref_to_wire (checkpoint h),
    hw_tail = map commit_ref_to_wire (tail h),
    hw_recent_outcomes = map commit_ref_to_wire (recent_outcomes h),
    hw_incarnation = uuid_as_bytes (incarnation h),
    hw_options = opts,
    hw_collection_epoch = collection_epoch h,
    hw_active_plan = map_option plan_ref_to_wire (active_plan h),
    hw_retention_ids = map uuid_as_bytes (sorted_list_of_fset (retention_ids h)) \<rparr>"

definition encode_head :: "externals \<Rightarrow> head \<Rightarrow> bytes result" where
  "encode_head E h =
    and_then (head_validate (usize_MAX E) h) (\<lambda>_.
    and_then (options_to_wire (options h)) (\<lambda>opts.
    Inr (encode_envelope E (put_head_wire E (head_to_wire h opts)))))"

definition head_of_wire :: "externals \<Rightarrow> head_wire \<Rightarrow> head result" where
  "head_of_wire E wire =
    and_then (LogId_new (hw_log_id wire)) (\<lambda>lid.
    and_then (uuid_of_bytes (hw_incarnation wire) ''log incarnation'') (\<lambda>inc.
    and_then (options_of_wire (usize_MAX E) (hw_options wire)) (\<lambda>opts.
    and_then (opt_traverse checkpoint_ref_of_wire (hw_checkpoint wire)) (\<lambda>cp.
    and_then (traverse commit_ref_of_wire (hw_tail wire)) (\<lambda>tl.
    and_then (traverse commit_ref_of_wire (hw_recent_outcomes wire)) (\<lambda>outcomes.
    and_then (opt_traverse plan_ref_of_wire (hw_active_plan wire)) (\<lambda>plan.
    and_then (retention_ids_of_bytes (hw_retention_ids wire)) (\<lambda>rids.
    Inr \<lparr>log_id = lid, incarnation = inc, options = opts,
         generation = hw_generation wire, next_sequence = hw_next_sequence wire,
         checkpoint = cp, tail = tl, recent_outcomes = outcomes,
         collection_epoch = hw_collection_epoch wire, active_plan = plan,
         retention_ids = rids\<rparr>))))))))"

definition decode_head :: "externals \<Rightarrow> bytes \<Rightarrow> head result" where
  "decode_head E bs =
    and_then (envelope_payload E bs) (\<lambda>payload.
    and_then (validate_head_shape E payload) (\<lambda>_.
    and_then (decode_exact (get_head_wire E) payload) (\<lambda>wire.
    and_then (require_version (hw_format_version wire)) (\<lambda>_.
    and_then (head_of_wire E wire) (\<lambda>h.
    and_then (head_validate (usize_MAX E) h) (\<lambda>_.
    and_then (encode_head E h) (\<lambda>canonical.
    and_then (require_canonical bs canonical) (\<lambda>_.
    Inr h))))))))"


section \<open>Commit and checkpoint\<close>

definition commit_to_wire :: "commit_object \<Rightarrow> commit_wire" where
  "commit_to_wire c = \<lparr>
    cw_format_version = FORMAT_VERSION,
    cw_log_id = cm_log_id c,
    cw_transaction_id = uuid_as_bytes (cm_transaction_id c),
    cw_expected_tip = map_option digest_as_bytes (cm_expected_tip c),
    cw_operation = cm_operation c,
    cw_result = cm_result c,
    cw_objects = map object_ref_to_wire (cm_objects c),
    cw_incarnation = uuid_as_bytes (cm_incarnation c) \<rparr>"

definition encode_commit :: "externals \<Rightarrow> commit_object \<Rightarrow> bytes" where
  "encode_commit E c = encode_envelope E (put_commit_wire E (commit_to_wire c))"

text \<open>
  \<open>shared_bytes\<close> turns a slice borrowed from the input into a reference-counted slice of it; as a
  value it is the field itself. \<open>decode_commit\<close> computes the canonicity check first and reports it
  last, after the errors of the fields.
\<close>

definition commit_of_wire :: "commit_wire \<Rightarrow> commit_object result" where
  "commit_of_wire wire =
    and_then (LogId_new (cw_log_id wire)) (\<lambda>lid.
    and_then (uuid_of_bytes (cw_incarnation wire) ''log incarnation'') (\<lambda>inc.
    and_then (transaction_id_of_bytes (cw_transaction_id wire)) (\<lambda>tid.
    and_then (opt_traverse digest_of_bytes (cw_expected_tip wire)) (\<lambda>tip.
    and_then (traverse object_ref_of_wire (cw_objects wire)) (\<lambda>objects.
    Inr \<lparr>cm_log_id = lid, cm_incarnation = inc, cm_transaction_id = tid, cm_expected_tip = tip,
         cm_operation = cw_operation wire, cm_result = cw_result wire, cm_objects = objects\<rparr>)))))"

definition decode_commit :: "externals \<Rightarrow> bytes \<Rightarrow> commit_object result" where
  "decode_commit E bs =
    and_then (envelope_payload E bs) (\<lambda>payload.
    and_then (decode_exact (get_commit_wire E) payload) (\<lambda>wire.
    and_then (require_version (cw_format_version wire)) (\<lambda>_.
    let canonical = require_canonical_wire payload (put_commit_wire E wire) in
    and_then (commit_of_wire wire) (\<lambda>commit.
    and_then canonical (\<lambda>_.
    Inr commit)))))"

definition checkpoint_to_wire :: "checkpoint_object \<Rightarrow> checkpoint_wire" where
  "checkpoint_to_wire c = \<lparr>
    kw_format_version = FORMAT_VERSION,
    kw_log_id = ck_log_id c,
    kw_through_sequence = ck_through_sequence c,
    kw_through_commit = digest_as_bytes (ck_through_commit c),
    kw_snapshot = ck_snapshot c,
    kw_incarnation = uuid_as_bytes (ck_incarnation c),
    kw_objects = map object_ref_to_wire (ck_objects c) \<rparr>"

definition encode_checkpoint :: "externals \<Rightarrow> checkpoint_object \<Rightarrow> bytes" where
  "encode_checkpoint E c = encode_envelope E (put_checkpoint_wire E (checkpoint_to_wire c))"

definition checkpoint_of_wire :: "checkpoint_wire \<Rightarrow> checkpoint_object result" where
  "checkpoint_of_wire wire =
    and_then (LogId_new (kw_log_id wire)) (\<lambda>lid.
    and_then (uuid_of_bytes (kw_incarnation wire) ''log incarnation'') (\<lambda>inc.
    and_then (digest_of_bytes (kw_through_commit wire)) (\<lambda>through.
    and_then (traverse object_ref_of_wire (kw_objects wire)) (\<lambda>objects.
    Inr \<lparr>ck_log_id = lid, ck_incarnation = inc, ck_through_sequence = kw_through_sequence wire,
         ck_through_commit = through, ck_snapshot = kw_snapshot wire, ck_objects = objects\<rparr>))))"

definition decode_checkpoint :: "externals \<Rightarrow> bytes \<Rightarrow> checkpoint_object result" where
  "decode_checkpoint E bs =
    and_then (envelope_payload E bs) (\<lambda>payload.
    and_then (decode_exact (get_checkpoint_wire E) payload) (\<lambda>wire.
    and_then (require_version (kw_format_version wire)) (\<lambda>_.
    let canonical = require_canonical_wire payload (put_checkpoint_wire E wire) in
    and_then (checkpoint_of_wire wire) (\<lambda>checkpoint.
    and_then canonical (\<lambda>_.
    Inr checkpoint)))))"


section \<open>Recovery token\<close>

definition token_to_wire :: "recovery_token \<Rightarrow> token_wire" where
  "token_to_wire t = \<lparr>
    tw_format_version = FORMAT_VERSION,
    tw_head_digest = digest_as_bytes (rt_head_digest t),
    tw_e_tag = e_tag (rt_version t),
    tw_storage_version = version (rt_version t),
    tw_transaction_id = uuid_as_bytes (rt_transaction_id t),
    tw_operation = rt_operation t,
    tw_result = rt_result t,
    tw_objects = map object_ref_to_wire (rt_objects t),
    tw_storage_id = uuid_as_bytes (rt_storage_id t),
    tw_publication_base_digest = digest_as_bytes (rt_publication_base_digest t),
    tw_generation = rt_generation t,
    tw_next_sequence = rt_next_sequence t,
    tw_tip = map_option digest_as_bytes (rt_tip t),
    tw_log_id = rt_log_id t,
    tw_incarnation = uuid_as_bytes (rt_incarnation t),
    tw_options_digest = digest_as_bytes (rt_options_digest t) \<rparr>"

definition token_encode :: "externals \<Rightarrow> recovery_token \<Rightarrow> bytes" where
  "token_encode E t = encode_envelope E (put_token_wire E (token_to_wire t))"

definition publication_base_digest :: "externals \<Rightarrow> head \<Rightarrow> digest result" where
  "publication_base_digest E h =
    and_then (encode_head E (h\<lparr>generation := max (next_sequence h) (collection_epoch h),
      retention_ids := {||}\<rparr>)) (\<lambda>bs. Inr (Digest_of E bs))"

definition options_digest :: "externals \<Rightarrow> options \<Rightarrow> digest result" where
  "options_digest E opts =
    and_then (options_to_wire opts) (\<lambda>wire. Inr (Digest_of E (put_options_wire E wire)))"

definition token_of_wire :: "token_wire \<Rightarrow> recovery_token result" where
  "token_of_wire wire =
    and_then (digest_of_bytes (tw_head_digest wire)) (\<lambda>hd.
    and_then (digest_of_bytes (tw_publication_base_digest wire)) (\<lambda>pbd.
    and_then (opt_traverse digest_of_bytes (tw_tip wire)) (\<lambda>tip.
    and_then (LogId_new (tw_log_id wire)) (\<lambda>lid.
    and_then (uuid_of_bytes (tw_incarnation wire) ''log incarnation'') (\<lambda>inc.
    and_then (digest_of_bytes (tw_options_digest wire)) (\<lambda>od.
    and_then (transaction_id_of_bytes (tw_transaction_id wire)) (\<lambda>tid.
    and_then (storage_id_of_bytes (tw_storage_id wire)) (\<lambda>sid.
    and_then (traverse object_ref_of_wire (tw_objects wire)) (\<lambda>objects.
    Inr \<lparr>rt_head_digest = hd, rt_publication_base_digest = pbd,
         rt_version = \<lparr>e_tag = tw_e_tag wire, version = tw_storage_version wire\<rparr>,
         rt_generation = tw_generation wire, rt_next_sequence = tw_next_sequence wire,
         rt_tip = tip, rt_log_id = lid, rt_incarnation = inc, rt_options_digest = od,
         rt_transaction_id = tid, rt_operation = tw_operation wire,
         rt_result = tw_result wire, rt_objects = objects, rt_storage_id = sid\<rparr>)))))))))"

definition decode_recovery_token :: "externals \<Rightarrow> bytes \<Rightarrow> recovery_token result" where
  "decode_recovery_token E bs =
    and_then (decode_envelope E (get_token_wire E) bs) (\<lambda>wire.
    and_then (require_version (tw_format_version wire)) (\<lambda>_.
    and_then (token_of_wire wire) (\<lambda>recovered.
    if rt_generation recovered < rt_next_sequence recovered
       \<or> (rt_tip recovered \<noteq> None) \<noteq> (rt_next_sequence recovered > 0)
    then Inl (invalid ''recovery token source position is invalid'')
    else and_then (require_canonical bs (token_encode E recovered)) (\<lambda>_. Inr recovered))))"


section \<open>Canonicity and round trips\<close>

locale canonical_format =
  fixes encode :: "'a \<Rightarrow> bytes result" and decode :: "bytes \<Rightarrow> 'a result" and ok :: "'a \<Rightarrow> bool"
  assumes decode_iff: "fits bs \<Longrightarrow> decode bs = Inr x \<longleftrightarrow> encode x = Inr bs \<and> ok x"
begin

lemma decode_encode: "encode x = Inr bs \<Longrightarrow> fits bs \<Longrightarrow> ok x \<Longrightarrow> decode bs = Inr x"
  by (simp add: decode_iff)

lemma decode_canonical: "fits bs \<Longrightarrow> decode bs = Inr x \<Longrightarrow> encode x = Inr bs"
  by (simp add: decode_iff)

lemma decode_inject: "fits bs \<Longrightarrow> fits cs \<Longrightarrow> decode bs = Inr x \<Longrightarrow> decode cs = Inr x \<Longrightarrow> bs = cs"
  by (metis decode_canonical sum.inject(2))

lemma encode_inject:
  "encode x = Inr bs \<Longrightarrow> encode y = Inr bs \<Longrightarrow> fits bs \<Longrightarrow> ok x \<Longrightarrow> ok y \<Longrightarrow> x = y"
  by (metis decode_encode sum.inject(2))

end

definition commit_ok :: "commit_object \<Rightarrow> bool" where
  "commit_ok c \<longleftrightarrow> log_id_ok (cm_log_id c) \<and> list_all object_ref_ok (cm_objects c)"

definition checkpoint_object_ok :: "checkpoint_object \<Rightarrow> bool" where
  "checkpoint_object_ok c \<longleftrightarrow> log_id_ok (ck_log_id c) \<and> list_all object_ref_ok (ck_objects c)"

definition token_ok :: "recovery_token \<Rightarrow> bool" where
  "token_ok t \<longleftrightarrow> log_id_ok (rt_log_id t) \<and> list_all object_ref_ok (rt_objects t)
    \<and> rt_next_sequence t \<le> rt_generation t \<and> (rt_tip t \<noteq> None \<longleftrightarrow> rt_next_sequence t > 0)"

definition head_fields_ok :: "externals \<Rightarrow> head \<Rightarrow> bool" where
  "head_fields_ok E h \<longleftrightarrow> log_id_ok (log_id h) \<and> options_fit (usize_MAX E) (options h)
    \<and> (\<forall>base. checkpoint h = Some base \<longrightarrow> checkpoint_ref_ok base)"

interpretation digest_conv: wire_conversion digest_as_bytes digest_of_bytes "\<lambda>_. True"
  by unfold_locales simp

lemmas conversions = commit_ref_conv.traverse_of_wire object_ref_conv.traverse_of_wire
  checkpoint_ref_conv.opt_traverse_of_wire plan_ref_conv.opt_traverse_of_wire
  digest_conv.opt_traverse_of_wire options_of_wire_Inr retention_ids_of_bytes_Inr

lemmas evaluations = commit_ref_conv.traverse_to_wire object_ref_conv.traverse_to_wire
  checkpoint_ref_conv.opt_traverse_to_wire plan_ref_conv.opt_traverse_to_wire
  digest_conv.opt_traverse_to_wire retention_ids_of_bytes_Inr [THEN iffD2, OF refl]

lemma LogId_new_ok [simp]: "log_id_ok s \<Longrightarrow> LogId_new s = Inr s"
  by simp

interpretation commit_conv: wire_conversion commit_to_wire
  "\<lambda>w. and_then (require_version (cw_format_version w)) (\<lambda>_. commit_of_wire w)" commit_ok
  by (rule wire_conversionI; unfold commit_of_wire_def commit_to_wire_def commit_ok_def)
    (auto simp: and_then_Inr conversions evaluations require_version_def
      intro!: commit_wire.equality split: if_splits)

interpretation checkpoint_conv: wire_conversion checkpoint_to_wire
  "\<lambda>w. and_then (require_version (kw_format_version w)) (\<lambda>_. checkpoint_of_wire w)" checkpoint_object_ok
  by (rule wire_conversionI; unfold checkpoint_of_wire_def checkpoint_to_wire_def checkpoint_object_ok_def)
    (auto simp: and_then_Inr conversions evaluations require_version_def
      intro!: checkpoint_wire.equality split: if_splits)

interpretation token_conv: wire_conversion token_to_wire
  "\<lambda>w. and_then (require_version (tw_format_version w)) (\<lambda>_. token_of_wire w)"
  "\<lambda>t. log_id_ok (rt_log_id t) \<and> list_all object_ref_ok (rt_objects t)"
  by (rule wire_conversionI; unfold token_of_wire_def token_to_wire_def)
    (auto simp: and_then_Inr conversions evaluations require_version_def
      intro!: token_wire.equality split: if_splits)

lemma head_of_wire_Inr:
  assumes "head_of_wire E w = Inr h" "hw_format_version w = FORMAT_VERSION"
  shows "(\<exists>opts. options_to_wire (options h) = Inr opts \<and> w = head_to_wire h opts) \<and> head_fields_ok E h"
  using assms
  by (auto simp: and_then_Inr conversions head_of_wire_def head_to_wire_def head_fields_ok_def
      intro!: head_wire.equality)

lemma head_of_to_wire:
  assumes "options_to_wire (options h) = Inr opts" "head_fields_ok E h"
  shows "head_of_wire E (head_to_wire h opts) = Inr h"
proof -
  have "options_of_wire (usize_MAX E) opts = Inr (options h)"
    using assms by (simp add: options_of_wire_Inr head_fields_ok_def)
  then show ?thesis
    using assms(2) by (simp add: head_of_wire_def head_to_wire_def head_fields_ok_def evaluations
      list_all_iff)
qed

context cbor
begin

lemma put_bytes_le: "fits bs \<Longrightarrow> length (put_bytes E bs) \<le> 9 + length bs"
  by (simp add: put_bytes_split length_put_bytes_len shortest_head_def)

lemma fits_put_bytes_short: "length bs \<le> 32 \<Longrightarrow> fits (put_bytes E bs)"
  using put_bytes_le [of bs] by (simp add: fits_def)

lemma fits_fixed [simp]: "fits (put_bytes E (digest_as_bytes d))" "fits (put_bytes E (uuid_as_bytes u))"
  by (simp_all add: fits_put_bytes_short)

lemma fits_struct_field:
  assumes "fits (put_struct E fs)" "(n, v) \<in> set (present fs)"
  shows "fits v"
proof -
  have "length v \<le> length (put_u64 E (of_nat n) @ v)" by simp
  also have "\<dots> \<le> sum_list (map length (map (\<lambda>(n, v). put_u64 E (of_nat n) @ v) (present fs)))"
    using assms(2) by (intro member_le_sum_list) (force simp: image_iff, simp)
  finally show ?thesis
    using assms(1) by (simp add: fits_def put_struct_fields length_concat)
qed

lemma wire_format_iff:
  assumes "item_codec get put" "wire_conversion to_wire of_wire ok" "fits bs"
  shows "(\<exists>p w. bs = encode_envelope E p \<and> decode_exact get p = Inr w \<and> of_wire w = Inr x \<and> p = put w)
    \<longleftrightarrow> bs = encode_envelope E (put (to_wire x)) \<and> ok x"
  using assms decode_exact_put [OF assms(1)] encode_envelope_fits
  by (auto simp: wire_conversion.of_wire_Inr [OF assms(2)])

lemma decode_commit_iff:
  assumes "fits bs"
  shows "decode_commit E bs = Inr c \<longleftrightarrow> bs = encode_commit E c \<and> commit_ok c"
  unfolding encode_commit_def
    wire_format_iff [OF commit.item_codec_axioms commit_conv.wire_conversion_axioms assms, symmetric]
  by (auto simp: decode_commit_def Let_def and_then_Inr require_canonical_wire_Inr
    envelope_payload_Inr [OF assms])

lemma decode_checkpoint_iff:
  assumes "fits bs"
  shows "decode_checkpoint E bs = Inr c \<longleftrightarrow> bs = encode_checkpoint E c \<and> checkpoint_object_ok c"
  unfolding encode_checkpoint_def
    wire_format_iff [OF checkpoint.item_codec_axioms checkpoint_conv.wire_conversion_axioms assms, symmetric]
  by (auto simp: decode_checkpoint_def Let_def and_then_Inr require_canonical_wire_Inr
    envelope_payload_Inr [OF assms])

lemma decode_envelope_encode:
  assumes "fits (encode_envelope E p)"
  shows "decode_envelope E get (encode_envelope E p) = decode_exact get p"
proof -
  have "decode_exact (get_envelope_wire E) (encode_envelope E p)
      = Inr \<lparr>ew_payload = p, ew_digest = digest_as_bytes (Digest_of E p)\<rparr>"
    using assms unfolding encode_envelope_def
    by (rule decode_exact_put [OF envelope.item_codec_axioms])
  then show ?thesis by (simp add: decode_envelope_def)
qed

lemma decode_token_iff:
  assumes "fits bs"
  shows "decode_recovery_token E bs = Inr t \<longleftrightarrow> bs = token_encode E t \<and> token_ok t"
proof
  assume "decode_recovery_token E bs = Inr t"
  then obtain w where "and_then (require_version (tw_format_version w)) (\<lambda>_. token_of_wire w) = Inr t"
    "rt_next_sequence t \<le> rt_generation t" "rt_tip t \<noteq> None \<longleftrightarrow> rt_next_sequence t > 0"
    "bs = token_encode E t"
    by (auto simp: decode_recovery_token_def and_then_Inr require_canonical_Inr not_less word_gt_0
      split: if_splits)
  then show "bs = token_encode E t \<and> token_ok t"
    unfolding token_conv.of_wire_Inr token_ok_def by simp
next
  assume *: "bs = token_encode E t \<and> token_ok t"
  then have "decode_envelope E (get_token_wire E) bs = Inr (token_to_wire t)"
    using assms unfolding token_encode_def
    by (auto simp: decode_envelope_encode intro!: decode_exact_put [OF token.item_codec_axioms]
      dest: encode_envelope_fits)
  moreover have "and_then (require_version (tw_format_version (token_to_wire t)))
      (\<lambda>_. token_of_wire (token_to_wire t)) = Inr t"
    using * by (intro token_conv.of_to_wire) (simp add: token_ok_def)
  ultimately show "decode_recovery_token E bs = Inr t"
    using * by (auto simp: decode_recovery_token_def and_then_Inr require_canonical_Inr token_ok_def not_less)
qed

end


section \<open>The head format\<close>

context cbor
begin

lemma shape_uint_put [simp]: "shape_uint E (put_u64 E n @ rest) = Inr rest"
  using consumes_uint by (simp add: consumes_def)

lemma shape_uint_put_narrow [simp]:
  "shape_uint E (put_u8 E b @ rest) = Inr rest" "shape_uint E (put_u32 E v @ rest) = Inr rest"
  by (simp_all add: put_u8_u64 put_u32_u64)

lemma shape_bytes_put [simp]:
  "shape_bytes E DIGEST_LEN (put_bytes E (digest_as_bytes d) @ rest) = Inr rest"
  "shape_bytes E UUID_LEN (put_bytes E (uuid_as_bytes u) @ rest) = Inr rest"
  using consumes_bytes [of "digest_as_bytes d" DIGEST_LEN] consumes_bytes [of "uuid_as_bytes u" UUID_LEN]
  by (simp_all add: consumes_def DIGEST_LEN_def UUID_LEN_def)

lemma consumes_object_ref:
  "consumes (head_shape_map E [1, 2, 3, 4, 5] (shape_object_field E))
    (put_object_ref_wire E (object_ref_to_wire r))"
  unfolding put_object_ref_wire_def
  by (rule consumes_struct)
    (simp_all add: object_ref_to_wire_def consumes_def shape_object_field_def ascending_keys_def)

lemma consumes_commit_ref:
  "consumes (head_shape_map E [1, 2, 3, 4, 5] (shape_commit_field E))
    (put_commit_ref_wire E (commit_ref_to_wire c))"
  unfolding put_commit_ref_wire_def
  by (rule consumes_struct)
    (simp_all add: commit_ref_to_wire_def consumes_def shape_commit_field_def ascending_keys_def)

lemma consumes_checkpoint_ref:
  "consumes (head_shape_map E [1, 2, 3] (shape_checkpoint_field E))
    (put_checkpoint_ref_wire E (checkpoint_ref_to_wire c))"
  unfolding put_checkpoint_ref_wire_def using consumes_object_ref
  by (intro consumes_struct)
    (simp_all add: checkpoint_ref_to_wire_def consumes_def shape_checkpoint_field_def ascending_keys_def)

lemma consumes_plan_ref:
  "consumes (head_shape_map E [1, 2, 3] (shape_plan_field E)) (put_plan_ref_wire E (plan_ref_to_wire p))"
  unfolding put_plan_ref_wire_def
  by (rule consumes_struct)
    (simp_all add: plan_ref_to_wire_def consumes_def shape_plan_field_def ascending_keys_def)

lemma consumes_options:
  "consumes (head_shape_map E [1, 2, 3, 4, 5, 6, 7, 8, 9, 10, 11, 12] (shape_options_field E))
    (put_options_wire E w)"
  unfolding put_options_wire_def
  by (rule consumes_struct)
    (simp_all add: consumes_def shape_options_field_def valid_def ascending_keys_def)

lemma consumes_log_id:
  assumes "log_id_ok lid" "fits (put_str E lid)"
  shows "consumes (shape_head_field E 2) (put_str E lid)"
  using assms log_id_ok_length [OF assms(1)]
  by (simp add: consumes_def shape_head_field_def str.get_put)

lemma consumes_commit_refs:
  assumes "fits cs"
  shows "consumes (shape_array E (head_shape_map E [1, 2, 3, 4, 5] (shape_commit_field E)))
    (put_vec E (map (put_commit_ref_wire E) (map commit_ref_to_wire cs)))"
  using assms consumes_commit_ref by (intro consumes_vec) (auto simp: fits_def)

lemma consumes_ids:
  assumes "fits us"
  shows "consumes (shape_array E (shape_bytes E UUID_LEN)) (put_vec E (map (put_bytes E) (map uuid_as_bytes us)))"
  using assms by (intro consumes_vec) (auto simp: fits_def consumes_def)

lemma shape_head_field_items:
  "consumes (shape_head_field E 1) (put_u32 E v)"
  "k \<in> {3, 4, 10} \<Longrightarrow> consumes (shape_head_field E k) (put_u64 E n)"
  "consumes (shape_head_field E 5) (put_checkpoint_ref_wire E (checkpoint_ref_to_wire c))"
  "k \<in> {6, 7} \<Longrightarrow> fits cs \<Longrightarrow>
    consumes (shape_head_field E k) (put_vec E (map (put_commit_ref_wire E) (map commit_ref_to_wire cs)))"
  "consumes (shape_head_field E 8) (put_bytes E (uuid_as_bytes u))"
  "consumes (shape_head_field E 9) (put_options_wire E w)"
  "consumes (shape_head_field E 11) (put_plan_ref_wire E (plan_ref_to_wire p))"
  "fits us \<Longrightarrow> consumes (shape_head_field E 12) (put_vec E (map (put_bytes E) (map uuid_as_bytes us)))"
  using consumes_checkpoint_ref [of c] consumes_commit_refs [of cs] consumes_options [of w]
    consumes_plan_ref [of p] consumes_ids [of us]
  by (auto simp: consumes_def shape_head_field_def)

lemma validate_head_shape_put:
  assumes "log_id_ok (log_id h)" "fits (tail h)" "fits (recent_outcomes h)"
    and "fits (sorted_list_of_fset (retention_ids h))"
    and fits: "fits (put_head_wire E (head_to_wire h opts))"
  shows "validate_head_shape E (put_head_wire E (head_to_wire h opts)) = Inr ()"
proof -
  have "fits (put_str E (log_id h))"
    using fits unfolding put_head_wire_def
    by (rule fits_struct_field [of _ 2]) (simp add: head_to_wire_def)
  note items = shape_head_field_items consumes_log_id [OF assms(1) this]
  have "consumes (head_shape_map E [1, 2, 3, 4, 6, 7, 8, 9, 10, 12] (shape_head_field E))
      (put_head_wire E (head_to_wire h opts))"
    unfolding put_head_wire_def using assms(2-4)
    by (intro consumes_struct; cases "checkpoint h"; cases "active_plan h")
      (simp_all add: head_to_wire_def items ascending_keys_def del: map_map List.map.compositionality)
  then have "head_shape_map E [1, 2, 3, 4, 6, 7, 8, 9, 10, 12] (shape_head_field E)
      (put_head_wire E (head_to_wire h opts) @ []) = Inr []"
    unfolding consumes_def by blast
  then show ?thesis
    by (simp add: validate_head_shape_def valid_def)
qed

lemma encode_head_Inr:
  "encode_head E h = Inr bs \<longleftrightarrow> head_ok (usize_MAX E) h
    \<and> (\<exists>opts. options_to_wire (options h) = Inr opts
      \<and> bs = encode_envelope E (put_head_wire E (head_to_wire h opts)))"
  by (auto simp: encode_head_def and_then_Inr head_validate_iff)

lemma fits_head_lists:
  assumes ok: "head_ok m h" and opts: "options_to_wire (options h) = Inr opts"
  shows "fits (tail h)" "fits (recent_outcomes h)" "fits (sorted_list_of_fset (retention_ids h))"
proof -
  have "length (tail h) \<le> max_tail_entries (options h)"
    "length (recent_outcomes h) \<le> resolution_window (options h)"
    "fcard (retention_ids h) \<le> max_retention_ids (options h)"
    using ok by (auto simp: head_ok_def collection_state_ok_def)
  moreover have "max_tail_entries (options h) < 2 ^ 64" "resolution_window (options h) < 2 ^ 64"
    "max_retention_ids (options h) < 2 ^ 64"
    using opts unat_less_2p [where 'a = 64] by (auto simp: options_to_wire_Inr)
  moreover have "length (sorted_list_of_fset (retention_ids h)) = fcard (retention_ids h)"
    by (simp add: sorted_list_of_fset.rep_eq fcard.rep_eq)
  ultimately show "fits (tail h)" "fits (recent_outcomes h)" "fits (sorted_list_of_fset (retention_ids h))"
    by (simp_all add: fits_def)
qed

lemma decode_head_iff:
  assumes "fits bs"
  shows "decode_head E bs = Inr h \<longleftrightarrow> encode_head E h = Inr bs \<and> head_fields_ok E h"
proof
  assume "decode_head E bs = Inr h"
  then show "encode_head E h = Inr bs \<and> head_fields_ok E h"
    by (auto simp: decode_head_def and_then_Inr require_canonical_Inr dest: head_of_wire_Inr)
next
  assume *: "encode_head E h = Inr bs \<and> head_fields_ok E h"
  then obtain opts where opts: "options_to_wire (options h) = Inr opts" and ok: "head_ok (usize_MAX E) h"
    and bs: "bs = encode_envelope E (put_head_wire E (head_to_wire h opts))"
    by (auto simp: encode_head_Inr)
  let ?p = "put_head_wire E (head_to_wire h opts)"
  have fits: "fits ?p" using assms bs encode_envelope_fits by blast
  have "envelope_payload E bs = Inr ?p"
    using assms bs by (simp add: envelope_payload_Inr)
  moreover have "validate_head_shape E ?p = Inr ()"
    using * fits_head_lists [OF ok opts] fits
    by (intro validate_head_shape_put) (simp_all add: head_fields_ok_def)
  moreover have "decode_exact (get_head_wire E) ?p = Inr (head_to_wire h opts)"
    using fits by (rule decode_exact_put [OF head.item_codec_axioms])
  moreover have "require_version (hw_format_version (head_to_wire h opts)) = Inr ()"
    by (simp add: head_to_wire_def)
  moreover have "head_of_wire E (head_to_wire h opts) = Inr h"
    using head_of_to_wire [OF opts] * by blast
  moreover have "head_validate (usize_MAX E) h = Inr ()"
    using ok by (simp add: head_validate_iff)
  ultimately show "decode_head E bs = Inr h"
    using * by (simp add: decode_head_def require_canonical_def)
qed

end


section \<open>The formats as canonical formats\<close>

sublocale cbor \<subseteq> head_format: canonical_format "encode_head E" "decode_head E" "head_fields_ok E"
  by unfold_locales (rule decode_head_iff)

sublocale cbor \<subseteq> commit_format:
  canonical_format "\<lambda>c. Inr (encode_commit E c)" "decode_commit E" commit_ok
  by unfold_locales (auto simp: decode_commit_iff)

sublocale cbor \<subseteq> checkpoint_format:
  canonical_format "\<lambda>c. Inr (encode_checkpoint E c)" "decode_checkpoint E" checkpoint_object_ok
  by unfold_locales (auto simp: decode_checkpoint_iff)

sublocale cbor \<subseteq> token_format:
  canonical_format "\<lambda>t. Inr (token_encode E t)" "decode_recovery_token E" token_ok
  by unfold_locales (auto simp: decode_token_iff)

end
