(* ===== verification/Node_Format.thy ===== *)
theory Node_Format
  imports Format
begin

text \<open>
  The tree-node format of \<^verbatim>\<open>src/src/format.rs\<close>: the size computation shared by preflight and
  encoder, the hand-written encoder, and the borrowing decoder. The lemmas show that the computed
  size is the exact length of the encoding, that the encoder's output is the canonical envelope,
  and that the decoder accepts exactly those encodings within the limits of the log's options.
\<close>


section \<open>Sizes\<close>

record node =
  nd_payload :: bytes
  nd_children :: "object_ref list"

record node_sizes =
  ns_encoded :: usize
  ns_inner :: u64
  ns_children :: u64

definition cbor_head_len :: "u64 \<Rightarrow> usize" where
  "cbor_head_len value =
    (if value \<le> 23 then 1
     else if value \<le> 0xff then 2
     else if value \<le> 0xffff then 3
     else if value \<le> 0xffffffff then 5
     else 9)"

definition checked_node_len :: "externals \<Rightarrow> usize \<Rightarrow> usize \<Rightarrow> usize result" where
  "checked_node_len E left right =
    ok_or (usize_checked_add (usize_MAX E) left right) (LimitExceeded ''object bytes'')"

fun node_children_size ::
    "externals \<Rightarrow> options \<Rightarrow> usize \<Rightarrow> usize \<Rightarrow> (u64 \<times> u64) list \<Rightarrow> (usize \<times> usize) result" where
  "node_children_size E opts count children_len [] = Inr (count, children_len)"
| "node_children_size E opts count children_len ((len, subtree_objects) # rest) =
    and_then (ok_or (case usize_checked_add (usize_MAX E) count 1 of
          None \<Rightarrow> None
        | Some c \<Rightarrow> if c \<le> max_object_refs opts then Some c else None)
      (LimitExceeded ''object references'')) (\<lambda>count.
    and_then (checked_node_len E 58 (cbor_head_len len)) (\<lambda>reference_len.
    and_then (checked_node_len E reference_len (cbor_head_len subtree_objects)) (\<lambda>entry_len.
    and_then (checked_node_len E children_len entry_len) (\<lambda>children_len.
    node_children_size E opts count children_len rest))))"

definition node_size ::
    "externals \<Rightarrow> usize \<Rightarrow> (u64 \<times> u64) list \<Rightarrow> options \<Rightarrow> node_sizes result" where
  "node_size E payload_bytes children opts =
    and_then (node_children_size E opts 0 0 children) (\<lambda>(count, children_len).
    and_then (ok_or (u64_try_from payload_bytes) (LimitExceeded ''object bytes'')) (\<lambda>payload_len.
    and_then (ok_or (u64_try_from count) (LimitExceeded ''object references'')) (\<lambda>child_count.
    and_then (try_fold (checked_node_len E) 0
        [5, cbor_head_len payload_len, payload_bytes, cbor_head_len child_count, children_len])
      (\<lambda>inner_len.
    and_then (ok_or (u64_try_from inner_len) (LimitExceeded ''object bytes'')) (\<lambda>inner.
    and_then (try_fold (checked_node_len E) 0 [37, cbor_head_len inner, inner_len]) (\<lambda>encoded.
    if encoded > max_object_bytes opts then Inl (LimitExceeded ''object bytes'')
    else Inr \<lparr>ns_encoded = encoded, ns_inner = inner, ns_children = child_count\<rparr>))))))"

definition subtree_objects :: "object_ref list \<Rightarrow> u64 result" where
  "subtree_objects children =
    try_fold (\<lambda>total child.
      and_then (validate_count child) (\<lambda>_.
      ok_or (checked_add total (or_subtree_objects child)) (LimitExceeded ''subtree objects'')))
    1 children"


section \<open>Encoding\<close>

definition put_child :: "externals \<Rightarrow> object_ref \<Rightarrow> bytes" where
  "put_child E child =
    put_map E 5 @ put_u8 E 1 @ put_u8 E (object_kind_wire (or_kind child))
    @ put_u8 E 2 @ put_bytes E (digest_as_bytes (or_digest child))
    @ put_u8 E 3 @ put_u64 E (or_len child)
    @ put_u8 E 4 @ put_bytes E (uuid_as_bytes (or_storage_id child))
    @ put_u8 E 5 @ put_u64 E (or_subtree_objects child)"

definition seal_node :: "externals \<Rightarrow> u64 \<Rightarrow> bytes \<Rightarrow> bytes" where
  "seal_node E inner body =
    (let bs = put_map E 2 @ put_u8 E 1 @ put_bytes_len E inner @ body;
         inner_start = 2 + cbor_head_len inner;
         digest = Digest_of E (drop inner_start bs)
     in bs @ put_u8 E 2 @ put_bytes E (digest_as_bytes digest))"

definition encode_node :: "externals \<Rightarrow> node \<Rightarrow> options \<Rightarrow> bytes result" where
  "encode_node E n opts =
    (if length (nd_children n) > max_object_refs opts then Inl (LimitExceeded ''object references'')
     else
       and_then (node_size E (length (nd_payload n))
         (map (\<lambda>child. (or_len child, or_subtree_objects child)) (nd_children n)) opts) (\<lambda>size.
       Inr (seal_node E (ns_inner size)
         (put_map E 3 @ put_u8 E 1 @ put_u32 E FORMAT_VERSION
          @ put_u8 E 2 @ put_bytes E (nd_payload n)
          @ put_u8 E 3 @ put_array E (ns_children size)
          @ concat (map (put_child E) (nd_children n))))))"


section \<open>Decoding\<close>

definition node_child_kind :: "byte \<Rightarrow> object_kind result" where
  "node_child_kind value =
    (if value = object_kind_wire Blob then Inr Blob
     else if value = object_kind_wire Node then Inr Node
     else Inl (invalid ''invalid node child kind''))"

definition decode_child :: "externals \<Rightarrow> options \<Rightarrow> cursor \<Rightarrow> (object_ref \<times> cursor) result" where
  "decode_child E opts st =
    and_then (exact_len (get_map E) (put_map E) st) (\<lambda>(n, st).
    and_then (valid (n = 5)) (\<lambda>_.
    and_then (exact_value (get_u8 E) (put_u8 E) st) (\<lambda>(k, st).
    and_then (valid (k = 1)) (\<lambda>_.
    and_then (exact_value (get_u8 E) (put_u8 E) st) (\<lambda>(value, st).
    and_then (node_child_kind value) (\<lambda>kind.
    and_then (exact_value (get_u8 E) (put_u8 E) st) (\<lambda>(k, st).
    and_then (valid (k = 2)) (\<lambda>_.
    and_then (exact_value (get_bytes E) (put_bytes E) st) (\<lambda>(digest_bytes, st).
    and_then (exact_value (get_u8 E) (put_u8 E) st) (\<lambda>(k, st).
    and_then (valid (k = 3)) (\<lambda>_.
    and_then (exact_value (get_u64 E) (put_u64 E) st) (\<lambda>(len, st).
    and_then (guard (\<not> len > (case u64_try_from (max_object_bytes opts) of None \<Rightarrow> - 1 | Some m \<Rightarrow> m))
      (LimitExceeded ''object bytes'')) (\<lambda>_.
    and_then (exact_value (get_u8 E) (put_u8 E) st) (\<lambda>(k, st).
    and_then (valid (k = 4)) (\<lambda>_.
    and_then (exact_value (get_bytes E) (put_bytes E) st) (\<lambda>(storage_id_bytes, st).
    and_then (exact_value (get_u8 E) (put_u8 E) st) (\<lambda>(k, st).
    and_then (valid (k = 5)) (\<lambda>_.
    and_then (exact_value (get_u64 E) (put_u64 E) st) (\<lambda>(subtree, st).
    and_then (storage_id_of_bytes storage_id_bytes) (\<lambda>sid.
    and_then (digest_of_bytes digest_bytes) (\<lambda>d.
    let child = \<lparr>or_kind = kind, or_storage_id = sid, or_digest = d, or_len = len,
                 or_subtree_objects = subtree\<rparr> in
    and_then (validate_count child) (\<lambda>_.
    Inr (child, st)))))))))))))))))))))))"

fun decode_children :: "externals \<Rightarrow> options \<Rightarrow> nat \<Rightarrow> cursor \<Rightarrow> (object_ref list \<times> cursor) result" where
  "decode_children E opts 0 st = Inr ([], st)"
| "decode_children E opts (Suc count) st =
    and_then (decode_child E opts st) (\<lambda>(child, st).
    and_then (decode_children E opts count st) (\<lambda>(children, st).
    Inr (child # children, st)))"

definition decode_node_payload ::
    "externals \<Rightarrow> bytes \<Rightarrow> options \<Rightarrow> ((nat \<times> nat) \<times> object_ref list) result" where
  "decode_node_payload E bs opts =
    and_then (exact_len (get_map E) (put_map E) (bs, bs)) (\<lambda>(n, st).
    and_then (valid (n = 3)) (\<lambda>_.
    and_then (exact_value (get_u8 E) (put_u8 E) st) (\<lambda>(k, st).
    and_then (valid (k = 1)) (\<lambda>_.
    and_then (exact_value (get_u32 E) (put_u32 E) st) (\<lambda>(version, st).
    and_then (require_version version) (\<lambda>_.
    and_then (exact_value (get_u8 E) (put_u8 E) st) (\<lambda>(k, st).
    and_then (valid (k = 2)) (\<lambda>_.
    and_then (exact_value (get_bytes E) (put_bytes E) st) (\<lambda>(payload, st).
    let payload_range = (decoder_position bs st - length payload, decoder_position bs st) in
    and_then (exact_value (get_u8 E) (put_u8 E) st) (\<lambda>(k, st).
    and_then (valid (k = 3)) (\<lambda>_.
    and_then (exact_len (get_array E) (put_array E) st) (\<lambda>(child_count, st).
    and_then (ok_or (usize_try_from (usize_MAX E) child_count) (LimitExceeded ''object references''))
      (\<lambda>child_count.
    and_then (guard (\<not> child_count > max_object_refs opts) (LimitExceeded ''object references'')) (\<lambda>_.
    and_then (valid (child_count \<le> (length bs - decoder_position bs st) div 60)) (\<lambda>_.
    and_then (decode_children E opts child_count st) (\<lambda>(children, st).
    and_then (valid (decoder_position bs st = length bs)) (\<lambda>_.
    Inr (payload_range, children))))))))))))))))))"

definition decode_node :: "externals \<Rightarrow> bytes \<Rightarrow> options \<Rightarrow> node result" where
  "decode_node E bs opts =
    and_then (decode_borrowed_envelope E bs) (\<lambda>envelope.
    and_then (decode_node_payload E (slice bs envelope) opts) (\<lambda>(payload_range, children).
    Inr \<lparr>nd_payload = slice bs (fst envelope + fst payload_range, fst envelope + snd payload_range),
         nd_children = children\<rparr>))"


section \<open>The computed size is exact\<close>

lemma cbor_head_len_shortest: "cbor_head_len v = shortest_head v"
  by (simp add: cbor_head_len_def shortest_head_def word_le_nat_alt)

lemma shortest_head_pos: "0 < shortest_head v"
  by (simp add: shortest_head_def)

lemma checked_node_len_Inr [simp]: "checked_node_len E a b = Inr c \<longleftrightarrow> c = a + b \<and> c \<le> usize_MAX E"
  by (simp add: checked_node_len_def result_simps checked_simps)

definition child_size :: "u64 \<times> u64 \<Rightarrow> nat" where
  "child_size c = 58 + shortest_head (fst c) + shortest_head (snd c)"

definition children_size :: "(u64 \<times> u64) list \<Rightarrow> nat" where
  "children_size cs = sum_list (map child_size cs)"

lemma children_size_simps [simp]:
  "children_size [] = 0"
  "children_size (c # cs) = child_size c + children_size cs"
  by (simp_all add: children_size_def)

lemma child_size_min: "60 \<le> child_size c"
  using shortest_head_pos [of "fst c"] shortest_head_pos [of "snd c"] by (simp add: child_size_def)

lemma children_size_min: "60 * length cs \<le> children_size cs"
proof (induction cs)
  case (Cons c cs)
  then show ?case using child_size_min [of c] by simp
qed simp

lemma node_children_size_Inr:
  "node_children_size E opts count len cs = Inr r \<longleftrightarrow>
    r = (count + length cs, len + children_size cs)
    \<and> (cs \<noteq> [] \<longrightarrow> count + length cs \<le> max_object_refs opts \<and> count + length cs \<le> usize_MAX E
        \<and> len + children_size cs \<le> usize_MAX E)"
proof (induction cs arbitrary: count len)
  case (Cons c cs)
  show ?case
    by (cases c; cases "cs = []")
      (auto simp: and_then_Inr ok_or_Inr Cons.IH child_size_def cbor_head_len_shortest checked_simps
        split: option.splits if_splits)
qed auto

definition inner_size :: "nat \<Rightarrow> (u64 \<times> u64) list \<Rightarrow> nat" where
  "inner_size payload cs = 5 + shortest_head (of_nat payload) + payload
    + shortest_head (of_nat (length cs)) + children_size cs"

definition outer_size :: "nat \<Rightarrow> nat" where
  "outer_size inner = 37 + shortest_head (of_nat inner) + inner"

lemma node_size_Inr:
  "node_size E payload cs opts = Inr s \<longleftrightarrow>
    length cs \<le> max_object_refs opts
    \<and> inner_size payload cs < 2 ^ 64
    \<and> outer_size (inner_size payload cs) \<le> min (usize_MAX E) (max_object_bytes opts)
    \<and> s = \<lparr>ns_encoded = outer_size (inner_size payload cs),
           ns_inner = of_nat (inner_size payload cs), ns_children = of_nat (length cs)\<rparr>"
    (is "?L \<longleftrightarrow> ?R")
proof
  assume ?L
  then obtain r payload_len child_count inner_len inner encoded where
    "node_children_size E opts 0 0 cs = Inr r"
    and u: "u64_try_from payload = Some payload_len" "u64_try_from (fst r) = Some child_count"
      "u64_try_from inner_len = Some inner"
    and sums: "try_fold (checked_node_len E) 0
        [5, cbor_head_len payload_len, payload, cbor_head_len child_count, snd r] = Inr inner_len"
      "try_fold (checked_node_len E) 0 [37, cbor_head_len inner, inner_len] = Inr encoded"
    and s: "encoded \<le> max_object_bytes opts"
      "s = \<lparr>ns_encoded = encoded, ns_inner = inner, ns_children = child_count\<rparr>"
    unfolding node_size_def and_then_Inr ok_or_Inr split_def if_err_Inr not_less sum.inject
    by blast
  then have r: "fst r = length cs" "snd r = children_size cs" "length cs \<le> max_object_refs opts"
    by (auto simp: node_children_size_Inr)
  then have words: "payload_len = of_nat payload" "child_count = of_nat (length cs)"
    "inner = of_nat inner_len" "inner_len < 2 ^ 64"
    using u by (simp_all add: u64_try_from_of_nat)
  moreover have "inner_len = inner_size payload cs"
    using sums(1) unfolding words r by (auto simp: and_then_Inr inner_size_def cbor_head_len_shortest)
  moreover have "encoded = outer_size inner_len" "encoded \<le> usize_MAX E"
    using sums(2) unfolding words by (auto simp: and_then_Inr outer_size_def cbor_head_len_shortest)
  ultimately show ?R
    using s r by simp
next
  assume R: ?R
  let ?i = "inner_size payload cs"
  have "60 * length cs + payload \<le> ?i" "length cs \<le> usize_MAX E" "children_size cs \<le> usize_MAX E"
    using children_size_min [of cs] R by (auto simp: inner_size_def outer_size_def)
  then have "node_children_size E opts 0 0 cs = Inr (length cs, children_size cs)"
    "u64_try_from payload = Some (of_nat payload)" "u64_try_from (length cs) = Some (of_nat (length cs))"
    "u64_try_from ?i = Some (of_nat ?i)"
    using R by (auto simp: node_children_size_Inr u64_try_from_def)
  moreover have "try_fold (checked_node_len E) 0 [5, shortest_head (of_nat payload), payload,
      shortest_head (of_nat (length cs)), children_size cs] = Inr ?i"
    "try_fold (checked_node_len E) 0 [37, shortest_head (of_nat ?i), ?i] = Inr (outer_size ?i)"
    using R by (auto simp: and_then_Inr inner_size_def outer_size_def)
  ultimately show ?L
    using R by (simp add: node_size_def cbor_head_len_shortest)
qed

text \<open>The canonical bytes of a node, as the envelope of its payload.\<close>

definition node_payload_bytes :: "externals \<Rightarrow> node \<Rightarrow> bytes" where
  "node_payload_bytes E n =
    put_map E 3 @ put_u8 E 1 @ put_u32 E FORMAT_VERSION @ put_u8 E 2 @ put_bytes E (nd_payload n)
    @ put_u8 E 3 @ put_array E (of_nat (length (nd_children n))) @ concat (map (put_child E) (nd_children n))"

definition child_sizes :: "object_ref list \<Rightarrow> (u64 \<times> u64) list" where
  "child_sizes children = map (\<lambda>child. (or_len child, or_subtree_objects child)) children"

lemma length_child_sizes [simp]: "length (child_sizes cs) = length cs"
  by (simp add: child_sizes_def)

context cbor
begin

lemma length_put_small:
  "length (put_u8 E b) = (if unat b < 24 then 1 else 2)"
proof -
  have "unat (ucast b :: u64) = unat b"
    using unat_less_2p [of b] by (simp add: unsigned_ucast_eq take_bit_nat_eq_self)
  then show ?thesis
    using unat_less_2p [of b] by (simp add: length_put_u8 shortest_head_def)
qed

lemma length_put_digest [simp]: "length (put_bytes E (digest_as_bytes d)) = 34"
  and length_put_uuid [simp]: "length (put_bytes E (uuid_as_bytes u)) = 17"
  by (simp_all add: put_bytes_split fits_def length_put_bytes_len shortest_head_def)

lemma length_put_child: "length (put_child E c) = child_size (or_len c, or_subtree_objects c)"
proof -
  have "length (put_u8 E (object_kind_wire (or_kind c))) = 1"
    by (cases "or_kind c") (simp_all add: length_put_small)
  then show ?thesis
    by (simp add: put_child_def child_size_def length_put_small length_put_map length_put_u64
      shortest_head_def [of 5])
qed

lemma length_put_children: "length (concat (map (put_child E) cs)) = children_size (child_sizes cs)"
  by (induction cs) (simp_all add: child_sizes_def length_put_child)

lemma length_node_payload:
  assumes "fits (nd_payload n)"
  shows "length (node_payload_bytes E n) = inner_size (length (nd_payload n)) (child_sizes (nd_children n))"
  using assms
  by (simp add: node_payload_bytes_def inner_size_def length_put_children length_put_small length_put_map
    length_put_array put_bytes_split length_put_bytes_len put_u32_u64 length_put_u64 FORMAT_VERSION_def
    shortest_head_def [of 3] shortest_head_def [of 1])

lemma length_encode_envelope:
  assumes "fits p"
  shows "length (encode_envelope E p) = outer_size (length p)"
  using assms
  by (simp add: encode_envelope_form outer_size_def length_put_small length_put_map shortest_head_def [of 2]
    put_bytes_split length_put_bytes_len)

lemma seal_node_envelope:
  assumes "fits p"
  shows "seal_node E (of_nat (length p)) p = encode_envelope E p"
proof -
  have "drop (2 + cbor_head_len (of_nat (length p)))
      (put_map E 2 @ put_u8 E 1 @ put_bytes_len E (of_nat (length p)) @ p) = p"
    by (simp add: cbor_head_len_shortest length_put_map length_put_small length_put_bytes_len
      shortest_head_def [of 2])
  with assms show ?thesis
    by (simp only: seal_node_def Let_def encode_envelope_form put_bytes_split append_assoc)
qed

text \<open>The encoder succeeds exactly within the limits, and its output is the canonical envelope.\<close>

lemma encode_node_iff:
  "encode_node E n opts = Inr bs \<longleftrightarrow>
    bs = encode_envelope E (node_payload_bytes E n)
    \<and> length (nd_children n) \<le> max_object_refs opts
    \<and> length (node_payload_bytes E n) < 2 ^ 64 \<and> fits (nd_payload n)
    \<and> outer_size (length (node_payload_bytes E n)) \<le> min (usize_MAX E) (max_object_bytes opts)"
proof (cases "fits (nd_payload n)")
  case fits: True
  let ?i = "node_payload_bytes E n"
  let ?size = "\<lparr>ns_encoded = outer_size (length ?i), ns_inner = of_nat (length ?i),
      ns_children = of_nat (length (nd_children n))\<rparr>"
  note len = length_node_payload [OF fits]
  have size: "node_size E (length (nd_payload n)) (child_sizes (nd_children n)) opts = Inr s \<longleftrightarrow>
      length (nd_children n) \<le> max_object_refs opts \<and> length ?i < 2 ^ 64
      \<and> outer_size (length ?i) \<le> min (usize_MAX E) (max_object_bytes opts) \<and> s = ?size" for s
    by (simp add: node_size_Inr len)
  show ?thesis
    using fits unfolding encode_node_def child_sizes_def [symmetric]
    by (auto simp: and_then_Inr size seal_node_envelope fits_def node_payload_bytes_def [symmetric])
next
  case False
  then show ?thesis
    by (auto simp: encode_node_def and_then_Inr node_size_Inr inner_size_def fits_def)
qed

end


section \<open>What the decoder accepts\<close>

definition child_ok :: "options \<Rightarrow> object_ref \<Rightarrow> bool" where
  "child_ok opts c \<longleftrightarrow> or_kind c \<noteq> Checkpoint \<and> object_ref_ok c
    \<and> unat (or_len c) \<le> max_object_bytes opts"

definition node_ok :: "externals \<Rightarrow> options \<Rightarrow> node \<Rightarrow> bool" where
  "node_ok E opts n \<longleftrightarrow> length (nd_children n) \<le> max_object_refs opts
    \<and> length (nd_children n) \<le> usize_MAX E \<and> (\<forall>c\<in>set (nd_children n). child_ok opts c)"

definition node_payload_end :: "node \<Rightarrow> nat" where
  "node_payload_end n = 4 + shortest_head (of_nat (length (nd_payload n))) + length (nd_payload n)"

definition node_children_bytes :: "externals \<Rightarrow> node \<Rightarrow> bytes" where
  "node_children_bytes E n = put_u8 E 3 @ put_array E (of_nat (length (nd_children n)))
    @ concat (map (put_child E) (nd_children n))"

lemma node_child_kind_Inr [simp]:
  "node_child_kind v = Inr k \<longleftrightarrow> k \<noteq> Checkpoint \<and> v = object_kind_wire k"
  by (cases k) (auto simp: node_child_kind_def)

lemma node_child_kind_wire: "k \<noteq> Checkpoint \<Longrightarrow> node_child_kind (object_kind_wire k) = Inr k"
  by simp

lemma node_child_kind_bind [bind_simps]:
  "and_then (node_child_kind v) f = Inr y \<longleftrightarrow> (\<exists>k. v = object_kind_wire k \<and> k \<noteq> Checkpoint \<and> f k = Inr y)"
  by (auto simp: and_then_Inr)

lemma len_bound:
  "(w :: u64) \<le> (case u64_try_from m of None \<Rightarrow> - 1 | Some b \<Rightarrow> b) \<longleftrightarrow> unat w \<le> m"
proof (cases "m < 2 ^ 64")
  case True
  then show ?thesis by (simp add: u64_try_from_def word_le_nat_alt)
next
  case False
  then show ?thesis using unat_less_2p [of w] by (simp add: u64_try_from_def)
qed

context cbor
begin

lemma decode_child_put:
  assumes "child_ok opts c"
  shows "decode_child E opts (put_child E c @ r, put_child E c @ r) = Inr (c, r, r)"
  using assms
  by (cases c) (simp add: decode_child_def put_child_def exact_put valid_def child_ok_def object_ref_ok_def
    node_child_kind_wire not_less len_bound)

lemma decode_child_Inr:
  assumes "fits bs"
  shows "decode_child E opts (bs, bs) = Inr (c, st) \<longleftrightarrow>
    (\<exists>r. bs = put_child E c @ r \<and> st = (r, r) \<and> child_ok opts c)"
proof
  assume "decode_child E opts (bs, bs) = Inr (c, st)"
  then show "\<exists>r. bs = put_child E c @ r \<and> st = (r, r) \<and> child_ok opts c"
    unfolding decode_child_def put_child_def using assms
    by (simp add: exact_bind bind_simps Let_def not_less len_bound cong: conj_cong)
      (auto simp: and_then_Inr child_ok_def object_ref_ok_def)
qed (auto simp: decode_child_put)

lemma decode_children_put:
  "\<forall>c\<in>set cs. child_ok opts c \<Longrightarrow>
    decode_children E opts (length cs) (concat (map (put_child E) cs) @ r, concat (map (put_child E) cs) @ r)
      = Inr (cs, r, r)"
  by (induction cs) (simp_all add: decode_child_put)

lemma decode_children_Inr:
  assumes "fits bs"
  shows "decode_children E opts count (bs, bs) = Inr (cs, st) \<longleftrightarrow>
    (\<exists>r. bs = concat (map (put_child E) cs) @ r \<and> st = (r, r) \<and> length cs = count
      \<and> (\<forall>c\<in>set cs. child_ok opts c))"
proof
  assume "decode_children E opts count (bs, bs) = Inr (cs, st)"
  then show "\<exists>r. bs = concat (map (put_child E) cs) @ r \<and> st = (r, r) \<and> length cs = count
      \<and> (\<forall>c\<in>set cs. child_ok opts c)"
    using assms
  proof (induction count arbitrary: bs cs)
    case (Suc count)
    then obtain c r cs' where "bs = put_child E c @ r" "child_ok opts c" "cs = c # cs'"
      "decode_children E opts count (r, r) = Inr (cs', st)"
      by (auto simp: and_then_Inr decode_child_Inr)
    with Suc.IH [of r cs'] Suc.prems(2) show ?case by (auto dest: fits_append)
  qed auto
qed (auto simp: decode_children_put)

lemma fits_node_payload: "fits (node_payload_bytes E n) \<Longrightarrow> fits (nd_payload n)"
  unfolding node_payload_bytes_def by (meson fits_append fits_put_bytes)

lemma node_payload_position:
  assumes "fits (node_payload_bytes E n)"
  shows "decoder_position (node_payload_bytes E n) (node_children_bytes E n, st) = node_payload_end n"
    and "slice (node_payload_bytes E n) (node_payload_end n - length (nd_payload n), node_payload_end n)
      = nd_payload n"
    and "node_payload_end n \<le> length (node_payload_bytes E n)"
proof -
  let ?a = "put_map E 3 @ put_u8 E 1 @ put_u32 E FORMAT_VERSION @ put_u8 E 2
    @ put_bytes_len E (of_nat (length (nd_payload n)))"
  have layout: "node_payload_bytes E n = ?a @ nd_payload n @ node_children_bytes E n"
    using fits_node_payload [OF assms]
    by (simp add: node_payload_bytes_def node_children_bytes_def put_bytes_split)
  have len: "node_payload_end n = length ?a + length (nd_payload n)"
    by (simp add: length_put_map length_put_small put_u32_u64 length_put_u64 FORMAT_VERSION_def
      length_put_bytes_len shortest_head_def [of 3] shortest_head_def [of 1] node_payload_end_def)
  show "decoder_position (node_payload_bytes E n) (node_children_bytes E n, st) = node_payload_end n"
    unfolding layout len by (simp add: decoder_position_def)
  show "slice (node_payload_bytes E n) (node_payload_end n - length (nd_payload n), node_payload_end n)
      = nd_payload n"
    using slice_middle [of ?a "nd_payload n" "node_children_bytes E n"] unfolding layout len by simp
  show "node_payload_end n \<le> length (node_payload_bytes E n)"
    unfolding layout len by simp
qed

lemma decode_node_payload_Inr:
  assumes "fits bs"
  shows "decode_node_payload E bs opts = Inr (rg, cs) \<longleftrightarrow>
    (\<exists>n. bs = node_payload_bytes E n \<and> cs = nd_children n \<and> node_ok E opts n
      \<and> rg = (node_payload_end n - length (nd_payload n), node_payload_end n))" (is "?L \<longleftrightarrow> ?R")
proof
  assume ?L
  then have "\<exists>p count. bs = put_map E 3 @ put_u8 E 1 @ put_u32 E FORMAT_VERSION @ put_u8 E 2
      @ put_bytes E p @ put_u8 E 3 @ put_array E count @ concat (map (put_child E) cs)
    \<and> length cs = unat count \<and> unat count \<le> usize_MAX E \<and> unat count \<le> max_object_refs opts
    \<and> (\<forall>c\<in>set cs. child_ok opts c)
    \<and> rg = (decoder_position bs (put_u8 E 3 @ put_array E count @ concat (map (put_child E) cs), []) - length p,
           decoder_position bs (put_u8 E 3 @ put_array E count @ concat (map (put_child E) cs), []))"
    unfolding decode_node_payload_def using assms
    by (simp add: exact_bind bind_simps Let_def checked_simps not_less cong: conj_cong)
      (auto simp: and_then_Inr valid_Inr decode_children_Inr decoder_position_def, blast)
  then obtain p count where *: "bs = node_payload_bytes E \<lparr>nd_payload = p, nd_children = cs\<rparr>"
    "node_ok E opts \<lparr>nd_payload = p, nd_children = cs\<rparr>" "count = of_nat (length cs)"
    "rg = (decoder_position bs (put_u8 E 3 @ put_array E count @ concat (map (put_child E) cs), []) - length p,
           decoder_position bs (put_u8 E 3 @ put_array E count @ concat (map (put_child E) cs), []))"
    by (auto simp: node_payload_bytes_def node_ok_def)
  then show ?R
    using node_payload_position(1) [of "\<lparr>nd_payload = p, nd_children = cs\<rparr>" "[]"] assms
    by (intro exI [of _ "\<lparr>nd_payload = p, nd_children = cs\<rparr>"]) (simp add: node_children_bytes_def)
next
  assume ?R
  then obtain n where n: "bs = node_payload_bytes E n" "cs = nd_children n" "node_ok E opts n"
    "rg = (node_payload_end n - length (nd_payload n), node_payload_end n)"
    by auto
  let ?cs = "concat (map (put_child E) (nd_children n))"
  have "fits (put_bytes E (nd_payload n))"
    using assms unfolding n node_payload_bytes_def by (meson fits_append)
  moreover have "60 * length (nd_children n) \<le> length ?cs"
    using children_size_min [of "child_sizes (nd_children n)"] by (simp add: length_put_children)
  moreover have "length (nd_children n) < 2 ^ 64"
    using calculation(2) assms unfolding n node_payload_bytes_def fits_def by simp
  moreover have "length bs - decoder_position bs (?cs, ?cs) = length ?cs"
    unfolding n by (simp add: node_payload_bytes_def decoder_position_def)
  ultimately show ?L
    using n(3) node_payload_position(1) [of n] assms decode_children_put [of "nd_children n" opts "[]"]
    unfolding n
    by (simp add: decode_node_payload_def node_payload_bytes_def node_ok_def exact_put valid_def
      usize_try_from_def) (simp add: node_children_bytes_def decoder_position_def)
qed

lemma decode_node_iff:
  assumes "fits bs"
  shows "decode_node E bs opts = Inr n \<longleftrightarrow>
    bs = encode_envelope E (node_payload_bytes E n) \<and> node_ok E opts n"
proof
  assume "decode_node E bs opts = Inr n"
  then obtain env rg cs where env: "decode_borrowed_envelope E bs = Inr env"
    and body: "decode_node_payload E (slice bs env) opts = Inr (rg, cs)"
    and n: "n = \<lparr>nd_payload = slice bs (fst env + fst rg, fst env + snd rg), nd_children = cs\<rparr>"
    by (auto simp: decode_node_def and_then_Inr)
  have bs: "bs = encode_envelope E (slice bs env)"
    using env assms slice_envelope by (auto simp: decode_borrowed_envelope_Inr)
  then have fits: "fits (slice bs env)"
    using assms encode_envelope_fits [of "slice bs env"] by simp
  then obtain m where m: "slice bs env = node_payload_bytes E m" "cs = nd_children m" "node_ok E opts m"
    "rg = (node_payload_end m - length (nd_payload m), node_payload_end m)"
    using body by (auto simp: decode_node_payload_Inr)
  have "slice bs (fst env + fst rg, fst env + snd rg) = slice (slice bs env) rg"
    using node_payload_position(3) [of m] fits m by (intro slice_slice) simp
  also have "\<dots> = nd_payload m"
    using node_payload_position(2) [of m] fits m by simp
  finally have "n = m" using n m by simp
  then show "bs = encode_envelope E (node_payload_bytes E n) \<and> node_ok E opts n"
    using bs m by simp
next
  assume *: "bs = encode_envelope E (node_payload_bytes E n) \<and> node_ok E opts n"
  let ?p = "node_payload_bytes E n"
  let ?env = "(payload_start E ?p, payload_start E ?p + length ?p)"
  have fits: "fits ?p" using * assms encode_envelope_fits by blast
  have "decode_borrowed_envelope E bs = Inr ?env" and slice: "slice bs ?env = ?p"
    using * assms slice_envelope by (auto simp: decode_borrowed_envelope_Inr)
  moreover have "decode_node_payload E ?p opts
      = Inr ((node_payload_end n - length (nd_payload n), node_payload_end n), nd_children n)"
    using * fits by (auto simp: decode_node_payload_Inr)
  moreover have "slice bs (fst ?env + (node_payload_end n - length (nd_payload n)), fst ?env + node_payload_end n)
      = nd_payload n"
    using slice_slice [of "(node_payload_end n - length (nd_payload n), node_payload_end n)" bs ?env]
      node_payload_position(2,3) [OF fits] slice by simp
  ultimately show "decode_node E bs opts = Inr n"
    by (simp add: decode_node_def)
qed

end

end
