(* ===== verification/Plan_Format.thy ===== *)
theory Plan_Format
  imports Node_Format
begin

text \<open>
  The collection plan of \<^verbatim>\<open>src/src/format.rs\<close>: the sorted set of physical keys a collection may
  delete, with its validation, its encoder and its canonical decoder. The lemmas characterise a
  valid plan and show that encoding and decoding are inverse within the limits of the options.
\<close>


section \<open>The plan\<close>

record collection_candidate =
  cc_key :: immutable_key
  cc_bytes :: u64

record collection_plan =
  cl_log_id :: log_id
  cl_collection_epoch :: u64
  cl_candidates :: "collection_candidate list"

definition candidate_bytes :: "collection_plan \<Rightarrow> u64 result" where
  "candidate_bytes plan =
    try_fold (\<lambda>total candidate.
      ok_or (checked_add total (cc_bytes candidate)) (LimitExceeded ''collection candidate bytes''))
    0 (cl_candidates plan)"

definition plan_validate :: "collection_plan \<Rightarrow> options \<Rightarrow> unit result" where
  "plan_validate plan opts =
    and_then (guard (cl_collection_epoch plan \<noteq> 0)
      (invalid ''collection plan epoch must be positive'')) (\<lambda>_.
    and_then (guard (cl_candidates plan \<noteq> [])
      (invalid ''collection plan must contain a positive deletion set'')) (\<lambda>_.
    and_then (guard (\<not> length (cl_candidates plan) > max_collection_objects opts)
      (LimitExceeded ''collection plan objects'')) (\<lambda>_.
    and_then (guard (all_pairs (\<lambda>a b. cc_key a < cc_key b) (cl_candidates plan))
      (invalid ''collection plan candidates are not strictly sorted'')) (\<lambda>_.
    and_then (candidate_bytes plan) (\<lambda>_.
    Inr ())))))"


section \<open>Encoding\<close>

fun immutable_kind_wire :: "immutable_kind \<Rightarrow> byte" where
  "immutable_kind_wire KCommit = 1"
| "immutable_kind_wire KBlob = 2"
| "immutable_kind_wire KNode = 3"
| "immutable_kind_wire KCheckpoint = 4"
| "immutable_kind_wire KCollectionPlan = 5"

definition candidate_to_wire :: "collection_candidate \<Rightarrow> candidate_wire" where
  "candidate_to_wire c = \<lparr>
    xw_incarnation = uuid_as_bytes (k_incarnation (cc_key c)),
    xw_kind = immutable_kind_wire (k_kind (cc_key c)),
    xw_storage_id = uuid_as_bytes (k_storage_id (cc_key c)),
    xw_digest = digest_as_bytes (k_digest (cc_key c)),
    xw_bytes = cc_bytes c \<rparr>"

definition plan_to_wire :: "collection_plan \<Rightarrow> plan_wire" where
  "plan_to_wire plan = \<lparr>
    pw_format_version = FORMAT_VERSION,
    pw_log_id = cl_log_id plan,
    pw_collection_epoch = cl_collection_epoch plan,
    pw_candidates = map candidate_to_wire (cl_candidates plan) \<rparr>"

definition encode_collection_plan :: "externals \<Rightarrow> collection_plan \<Rightarrow> options \<Rightarrow> bytes result" where
  "encode_collection_plan E plan opts =
    and_then (plan_validate plan opts) (\<lambda>_.
    let bs = encode_envelope E (put_plan_wire E (plan_to_wire plan)) in
    if length bs > max_collection_plan_bytes opts
    then Inl (LimitExceeded ''encoded collection plan bytes'') else Inr bs)"


section \<open>Decoding\<close>

definition MIN_COLLECTION_CANDIDATE_BYTES :: usize where
  "MIN_COLLECTION_CANDIDATE_BYTES = 76"

definition immutable_kind_of_wire :: "byte \<Rightarrow> immutable_kind result" where
  "immutable_kind_of_wire value =
    (if value = immutable_kind_wire KCommit then Inr KCommit
     else if value = immutable_kind_wire KBlob then Inr KBlob
     else if value = immutable_kind_wire KNode then Inr KNode
     else if value = immutable_kind_wire KCheckpoint then Inr KCheckpoint
     else if value = immutable_kind_wire KCollectionPlan then Inr KCollectionPlan
     else Inl (invalid ''invalid immutable kind''))"

definition decode_candidate :: "externals \<Rightarrow> cursor \<Rightarrow> (collection_candidate \<times> cursor) result" where
  "decode_candidate E st =
    and_then (exact_len (get_map E) (put_map E) st) (\<lambda>(n, st).
    and_then (valid (n = 5)) (\<lambda>_.
    and_then (exact_value (get_u8 E) (put_u8 E) st) (\<lambda>(k, st).
    and_then (valid (k = 1)) (\<lambda>_.
    and_then (exact_value (get_bytes E) (put_bytes E) st) (\<lambda>(value, st).
    and_then (uuid_of_bytes value ''object incarnation'') (\<lambda>inc.
    and_then (exact_value (get_u8 E) (put_u8 E) st) (\<lambda>(k, st).
    and_then (valid (k = 2)) (\<lambda>_.
    and_then (exact_value (get_u8 E) (put_u8 E) st) (\<lambda>(value, st).
    and_then (immutable_kind_of_wire value) (\<lambda>kind.
    and_then (exact_value (get_u8 E) (put_u8 E) st) (\<lambda>(k, st).
    and_then (valid (k = 3)) (\<lambda>_.
    and_then (exact_value (get_bytes E) (put_bytes E) st) (\<lambda>(value, st).
    and_then (storage_id_of_bytes value) (\<lambda>sid.
    and_then (exact_value (get_u8 E) (put_u8 E) st) (\<lambda>(k, st).
    and_then (valid (k = 4)) (\<lambda>_.
    and_then (exact_value (get_bytes E) (put_bytes E) st) (\<lambda>(value, st).
    and_then (digest_of_bytes value) (\<lambda>d.
    and_then (exact_value (get_u8 E) (put_u8 E) st) (\<lambda>(k, st).
    and_then (valid (k = 5)) (\<lambda>_.
    and_then (exact_value (get_u64 E) (put_u64 E) st) (\<lambda>(len, st).
    Inr (\<lparr>cc_key = ImmutableKey inc kind sid d, cc_bytes = len\<rparr>, st))))))))))))))))))))))"

fun decode_candidates :: "externals \<Rightarrow> nat \<Rightarrow> cursor \<Rightarrow> (collection_candidate list \<times> cursor) result" where
  "decode_candidates E 0 st = Inr ([], st)"
| "decode_candidates E (Suc count) st =
    and_then (decode_candidate E st) (\<lambda>(candidate, st).
    and_then (decode_candidates E count st) (\<lambda>(candidates, st).
    Inr (candidate # candidates, st)))"

definition decode_collection_payload :: "externals \<Rightarrow> bytes \<Rightarrow> options \<Rightarrow> collection_plan result" where
  "decode_collection_payload E bs opts =
    and_then (exact_len (get_map E) (put_map E) (bs, bs)) (\<lambda>(n, st).
    and_then (valid (n = 4)) (\<lambda>_.
    and_then (exact_value (get_u8 E) (put_u8 E) st) (\<lambda>(k, st).
    and_then (valid (k = 1)) (\<lambda>_.
    and_then (exact_value (get_u32 E) (put_u32 E) st) (\<lambda>(version, st).
    and_then (require_version version) (\<lambda>_.
    and_then (exact_value (get_u8 E) (put_u8 E) st) (\<lambda>(k, st).
    and_then (valid (k = 2)) (\<lambda>_.
    and_then (exact_value (get_str E) (put_str E) st) (\<lambda>(text, st).
    and_then (guard (\<not> length text > MAX_LOG_ID_LEN) InvalidLogId) (\<lambda>_.
    and_then (LogId_new text) (\<lambda>lid.
    and_then (exact_value (get_u8 E) (put_u8 E) st) (\<lambda>(k, st).
    and_then (valid (k = 3)) (\<lambda>_.
    and_then (exact_value (get_u64 E) (put_u64 E) st) (\<lambda>(epoch, st).
    and_then (exact_value (get_u8 E) (put_u8 E) st) (\<lambda>(k, st).
    and_then (valid (k = 4)) (\<lambda>_.
    and_then (exact_len (get_array E) (put_array E) st) (\<lambda>(len, st).
    and_then (ok_or (usize_try_from (usize_MAX E) len) (LimitExceeded ''collection plan objects''))
      (\<lambda>count.
    and_then (guard (\<not> count > max_collection_objects opts) (LimitExceeded ''collection plan objects''))
      (\<lambda>_.
    and_then (valid (count \<le> (length bs - decoder_position bs st) div MIN_COLLECTION_CANDIDATE_BYTES))
      (\<lambda>_.
    and_then (decode_candidates E count st) (\<lambda>(candidates, st).
    and_then (valid (decoder_position bs st = length bs)) (\<lambda>_.
    let plan = \<lparr>cl_log_id = lid, cl_collection_epoch = epoch, cl_candidates = candidates\<rparr> in
    and_then (plan_validate plan opts) (\<lambda>_.
    Inr plan)))))))))))))))))))))))"

definition decode_collection_plan :: "externals \<Rightarrow> bytes \<Rightarrow> options \<Rightarrow> collection_plan result" where
  "decode_collection_plan E bs opts =
    and_then (guard (\<not> length bs > max_collection_plan_bytes opts)
      (LimitExceeded ''encoded collection plan bytes'')) (\<lambda>_.
    and_then (envelope_payload E bs) (\<lambda>payload.
    decode_collection_payload E payload opts))"


section \<open>What validation accepts\<close>

lemma try_fold_checked_add:
  "try_fold (\<lambda>total x. ok_or (checked_add total (f x)) e) s xs = Inr r \<longleftrightarrow>
    unat r = unat s + sum_list (map (\<lambda>x. unat (f x)) xs)" for r :: "'a::len word"
proof (induction xs arbitrary: s)
  case (Cons x xs)
  have "(\<exists>s' :: 'a word. unat s' = unat s + unat (f x) \<and> unat r = unat s' + k)
      \<longleftrightarrow> unat r = unat s + unat (f x) + k" for k
  proof -
    have "unat s + unat (f x) < 2 ^ LENGTH('a)" if "unat r = unat s + unat (f x) + k"
      using unat_less_2p [of r] that by linarith
    then show ?thesis
      using unat_ex_iff [of "unat s + unat (f x)", where 'a = 'a] by auto
  qed
  with Cons show ?case
    by (simp add: and_then_Inr ok_or_Inr checked_simps add.assoc)
qed (auto simp: word_unat_eq_iff)

definition plan_ok :: "collection_plan \<Rightarrow> options \<Rightarrow> bool" where
  "plan_ok plan opts \<longleftrightarrow>
    cl_collection_epoch plan \<noteq> 0 \<and> cl_candidates plan \<noteq> []
    \<and> length (cl_candidates plan) \<le> max_collection_objects opts
    \<and> sorted_wrt (<) (map cc_key (cl_candidates plan))
    \<and> sum_list (map (\<lambda>c. unat (cc_bytes c)) (cl_candidates plan)) < 2 ^ 64"

lemma plan_validate_iff: "plan_validate plan opts = Inr u \<longleftrightarrow> plan_ok plan opts"
  using unat_ex_iff [where 'a = 64]
  by (simp add: plan_validate_def plan_ok_def guard_Inr and_then_Inr candidate_bytes_def
    try_fold_checked_add all_pairs_less_iff not_less)


section \<open>Canonicity and round trip\<close>

lemma immutable_kind_wire_inject [simp]: "immutable_kind_wire a = immutable_kind_wire b \<longleftrightarrow> a = b"
  by (cases a; cases b) auto

lemma immutable_kind_of_wire_Inr [simp]: "immutable_kind_of_wire v = Inr k \<longleftrightarrow> v = immutable_kind_wire k"
  by (cases k) (auto simp: immutable_kind_of_wire_def)

lemma immutable_kind_of_to_wire [simp]: "immutable_kind_of_wire (immutable_kind_wire k) = Inr k"
  by simp

lemma immutable_kind_bind [bind_simps]:
  "and_then (immutable_kind_of_wire v) f = Inr y \<longleftrightarrow> (\<exists>k. v = immutable_kind_wire k \<and> f k = Inr y)"
  by (auto simp: and_then_Inr)

definition put_candidate :: "externals \<Rightarrow> collection_candidate \<Rightarrow> bytes" where
  "put_candidate E c =
    put_map E 5 @ put_u8 E 1 @ put_bytes E (uuid_as_bytes (k_incarnation (cc_key c)))
    @ put_u8 E 2 @ put_u8 E (immutable_kind_wire (k_kind (cc_key c)))
    @ put_u8 E 3 @ put_bytes E (uuid_as_bytes (k_storage_id (cc_key c)))
    @ put_u8 E 4 @ put_bytes E (digest_as_bytes (k_digest (cc_key c)))
    @ put_u8 E 5 @ put_u64 E (cc_bytes c)"

context cbor
begin

lemma put_candidate_wire_form: "put_candidate_wire E (candidate_to_wire c) = put_candidate E c"
  by (simp add: put_candidate_wire_def candidate_to_wire_def put_candidate_def put_struct_fields put_u8_u64)

lemma put_plan_wire_form:
  assumes "fits (cl_candidates plan)"
  shows "put_plan_wire E (plan_to_wire plan) = put_map E 4 @ put_u8 E 1 @ put_u32 E FORMAT_VERSION
    @ put_u8 E 2 @ put_str E (cl_log_id plan) @ put_u8 E 3 @ put_u64 E (cl_collection_epoch plan)
    @ put_u8 E 4 @ put_array E (of_nat (length (cl_candidates plan)))
    @ concat (map (put_candidate E) (cl_candidates plan))"
proof -
  have "put_vec E (map (put_candidate_wire E) (map candidate_to_wire (cl_candidates plan)))
      = put_array E (of_nat (length (cl_candidates plan))) @ concat (map (put_candidate E) (cl_candidates plan))"
    using assms by (simp add: put_vec_items fits_def put_candidate_wire_form comp_def)
  then show ?thesis
    by (simp add: put_plan_wire_def plan_to_wire_def put_struct_fields put_u8_u64)
qed

lemma length_put_candidate: "76 \<le> length (put_candidate E c)"
proof -
  have "length (put_u8 E (immutable_kind_wire (k_kind (cc_key c)))) = 1"
    by (cases "k_kind (cc_key c)") (simp_all add: length_put_small)
  then show ?thesis
    using shortest_head_pos [of "cc_bytes c"]
    by (simp add: put_candidate_def length_put_small length_put_map length_put_u64 shortest_head_def [of 5])
qed

lemma length_put_candidates: "76 * length cs \<le> length (concat (map (put_candidate E) cs))"
proof (induction cs)
  case (Cons c cs)
  then show ?case using length_put_candidate [of c] by simp
qed simp

lemma decode_candidate_put:
  "decode_candidate E (put_candidate E c @ r, put_candidate E c @ r) = Inr (c, r, r)"
  by (cases c; cases "cc_key c") (simp add: decode_candidate_def put_candidate_def exact_put valid_def)

lemma decode_candidate_Inr:
  assumes "fits bs"
  shows "decode_candidate E (bs, bs) = Inr (c, st) \<longleftrightarrow> (\<exists>r. bs = put_candidate E c @ r \<and> st = (r, r))"
proof
  assume "decode_candidate E (bs, bs) = Inr (c, st)"
  then show "\<exists>r. bs = put_candidate E c @ r \<and> st = (r, r)"
    unfolding decode_candidate_def put_candidate_def using assms
    by (simp add: exact_bind bind_simps cong: conj_cong) auto
qed (auto simp: decode_candidate_put)

lemma decode_candidates_put:
  "decode_candidates E (length cs) (concat (map (put_candidate E) cs) @ r, concat (map (put_candidate E) cs) @ r)
    = Inr (cs, r, r)"
  by (induction cs) (simp_all add: decode_candidate_put)

lemma decode_candidates_Inr:
  assumes "fits bs"
  shows "decode_candidates E count (bs, bs) = Inr (cs, st) \<longleftrightarrow>
    (\<exists>r. bs = concat (map (put_candidate E) cs) @ r \<and> st = (r, r) \<and> length cs = count)"
proof
  assume "decode_candidates E count (bs, bs) = Inr (cs, st)"
  then show "\<exists>r. bs = concat (map (put_candidate E) cs) @ r \<and> st = (r, r) \<and> length cs = count"
    using assms
  proof (induction count arbitrary: bs cs)
    case (Suc count)
    then obtain c r cs' where "bs = put_candidate E c @ r" "cs = c # cs'"
      "decode_candidates E count (r, r) = Inr (cs', st)"
      by (auto simp: and_then_Inr decode_candidate_Inr)
    with Suc.IH [of r cs'] Suc.prems(2) show ?case by (auto dest: fits_append)
  qed auto
qed (auto simp: decode_candidates_put)

lemma decode_collection_payload_iff:
  assumes "fits bs"
  shows "decode_collection_payload E bs opts = Inr plan \<longleftrightarrow>
    bs = put_plan_wire E (plan_to_wire plan) \<and> fits (cl_candidates plan) \<and> plan_ok plan opts
    \<and> log_id_ok (cl_log_id plan) \<and> length (cl_candidates plan) \<le> usize_MAX E" (is "?L \<longleftrightarrow> ?R")
proof
  assume ?L
  then have "\<exists>lid epoch count cs. bs = put_map E 4 @ put_u8 E 1 @ put_u32 E FORMAT_VERSION
      @ put_u8 E 2 @ put_str E lid @ put_u8 E 3 @ put_u64 E epoch
      @ put_u8 E 4 @ put_array E count @ concat (map (put_candidate E) cs)
    \<and> length cs = unat count \<and> unat count \<le> usize_MAX E \<and> log_id_ok lid
    \<and> plan_ok plan opts
    \<and> plan = \<lparr>cl_log_id = lid, cl_collection_epoch = epoch, cl_candidates = cs\<rparr>"
    unfolding decode_collection_payload_def using assms
    by (simp add: exact_bind bind_simps Let_def checked_simps not_less cong: conj_cong)
      (auto simp: and_then_Inr valid_Inr decode_candidates_Inr decoder_position_def plan_validate_iff)
  then obtain count where bs: "bs = put_map E 4 @ put_u8 E 1 @ put_u32 E FORMAT_VERSION
      @ put_u8 E 2 @ put_str E (cl_log_id plan) @ put_u8 E 3 @ put_u64 E (cl_collection_epoch plan)
      @ put_u8 E 4 @ put_array E count @ concat (map (put_candidate E) (cl_candidates plan))"
    and plan: "length (cl_candidates plan) = unat count" "unat count \<le> usize_MAX E"
      "log_id_ok (cl_log_id plan)" "plan_ok plan opts"
    by auto
  have "fits (cl_candidates plan)"
    using plan(1) unat_less_2p [of count] by (simp add: fits_def)
  moreover have "count = of_nat (length (cl_candidates plan))"
    using plan(1) by simp
  ultimately show ?R
    using bs plan by (simp add: put_plan_wire_form)
next
  assume R: ?R
  let ?cs = "concat (map (put_candidate E) (cl_candidates plan))"
  have bs: "bs = put_map E 4 @ put_u8 E 1 @ put_u32 E FORMAT_VERSION
      @ put_u8 E 2 @ put_str E (cl_log_id plan) @ put_u8 E 3 @ put_u64 E (cl_collection_epoch plan)
      @ put_u8 E 4 @ put_array E (of_nat (length (cl_candidates plan))) @ ?cs"
    using R by (simp add: put_plan_wire_form)
  have "fits (put_str E (cl_log_id plan))"
    using assms unfolding bs by (meson fits_append)
  moreover have "length (cl_candidates plan) \<le> length ?cs div 76"
    using length_put_candidates [of "cl_candidates plan"] by simp
  moreover have "length bs - decoder_position bs (?cs, ?cs) = length ?cs"
    unfolding bs by (simp add: decoder_position_def)
  moreover have "plan_validate plan opts = Inr ()" "length (cl_candidates plan) \<le> max_collection_objects opts"
    "fits (cl_candidates plan)" "log_id_ok (cl_log_id plan)" "length (cl_candidates plan) \<le> usize_MAX E"
    using R by (simp_all add: plan_validate_iff plan_ok_def)
  ultimately show ?L
    using decode_candidates_put [of "cl_candidates plan" "[]"] log_id_ok_length [of "cl_log_id plan"]
    unfolding bs
    by (cases plan) (simp add: decode_collection_payload_def exact_put valid_def usize_try_from_def
      MIN_COLLECTION_CANDIDATE_BYTES_def decoder_position_def)
qed

lemma decode_collection_plan_iff:
  assumes "fits bs" "options_fit (usize_MAX E) opts"
  shows "decode_collection_plan E bs opts = Inr plan \<longleftrightarrow>
    encode_collection_plan E plan opts = Inr bs \<and> log_id_ok (cl_log_id plan) \<and> fits (cl_candidates plan)"
proof -
  have "length (cl_candidates plan) \<le> usize_MAX E" if "plan_ok plan opts"
    using that assms(2) by (auto simp: plan_ok_def options_fit_def option_values_def)
  then show ?thesis
    using assms encode_envelope_fits
    by (auto simp: decode_collection_plan_def encode_collection_plan_def and_then_Inr guard_Inr Let_def
      envelope_payload_Inr decode_collection_payload_iff plan_validate_iff not_less split: if_splits)
qed

end

end
