(* ===== verification/Rfc8949.thy ===== *)
theory Rfc8949
  imports Plan_Format
begin

text \<open>
  A concrete codec: the deterministic subset of RFC 8949 that minicbor writes, with readers for the
  wire structures. It shows that the laws of the locale \<open>cbor\<close> hold together, and it is the codec on
  which properties of the formats are evaluated. The digest function and the width of \<open>usize\<close> stay
  parameters of the instance.
\<close>


section \<open>Heads\<close>

definition head_byte :: "nat \<Rightarrow> nat \<Rightarrow> byte" where
  "head_byte major info = of_nat (major * 32 + info)"

definition put_cbor_head :: "nat \<Rightarrow> u64 \<Rightarrow> bytes" where
  "put_cbor_head major v =
    (if unat v < 24 then [head_byte major (unat v)]
     else if unat v < 2 ^ 8 then head_byte major 24 # be_bytes 1 v
     else if unat v < 2 ^ 16 then head_byte major 25 # be_bytes 2 v
     else if unat v < 2 ^ 32 then head_byte major 26 # be_bytes 4 v
     else head_byte major 27 # be_bytes 8 v)"

definition head_width :: "nat \<Rightarrow> nat" where
  "head_width info = (if info = 24 then 1 else if info = 25 then 2 else if info = 26 then 4 else 8)"

definition get_cbor_head :: "nat \<Rightarrow> bytes \<Rightarrow> string + (u64 \<times> bytes)" where
  "get_cbor_head major bs =
    (case bs of
       [] \<Rightarrow> Inl ''end of input''
     | b # bs \<Rightarrow>
         let info = unat b mod 32 in
         if unat b div 32 \<noteq> major then Inl ''unexpected type''
         else if info < 24 then Inr (of_nat info, bs)
         else if 27 < info then Inl ''unexpected type''
         else if length bs < head_width info then Inl ''end of input''
         else Inr (of_be_bytes (take (head_width info) bs), drop (head_width info) bs))"

lemma unat_head_byte:
  assumes "major < 8" "info < 32"
  shows "unat (head_byte major info) = major * 32 + info"
proof -
  have "major * 32 + info < 256" using assms by simp
  then show ?thesis by (simp only: head_byte_def unat_of_nat) simp
qed

lemma of_be_bytes_small: "unat v < 2 ^ (8 * n) \<Longrightarrow> of_be_bytes (be_bytes n v) = (v :: u64)"
  by (simp add: of_be_bytes_be_bytes_take word_unat_eq_iff unsigned_take_bit_eq take_bit_nat_eq_self)

lemma length_put_cbor_head: "length (put_cbor_head major v) = shortest_head v"
  by (simp add: put_cbor_head_def shortest_head_def)

lemma get_put_wide:
  assumes "major < 8" "info \<in> {24, 25, 26, 27}" "unat v < 2 ^ (8 * head_width info)"
  shows "get_cbor_head major (head_byte major info # be_bytes (head_width info) v @ rest) = Inr (v, rest)"
proof -
  have "info < 32" using assms(2) by auto
  then have "unat (head_byte major info) div 32 = major" "unat (head_byte major info) mod 32 = info"
    using assms(1) by (simp_all add: unat_head_byte)
  then show ?thesis
    using assms of_be_bytes_small [OF assms(3)] by (auto simp: get_cbor_head_def)
qed

lemma get_put_cbor_head:
  assumes "major < 8"
  shows "get_cbor_head major (put_cbor_head major v @ rest) = Inr (v, rest)"
proof (cases "unat v < 24")
  case True
  then have "unat (head_byte major (unat v)) div 32 = major"
    "unat (head_byte major (unat v)) mod 32 = unat v"
    using assms by (simp_all add: unat_head_byte)
  with True show ?thesis by (simp add: put_cbor_head_def get_cbor_head_def)
next
  case False
  then show ?thesis
    using get_put_wide [OF assms, of 24 v rest] get_put_wide [OF assms, of 25 v rest]
      get_put_wide [OF assms, of 26 v rest] get_put_wide [OF assms, of 27 v rest] unat_less_2p [of v]
    by (auto simp: put_cbor_head_def head_width_def)
qed


section \<open>Items\<close>

definition string_bytes :: "string \<Rightarrow> bytes" where
  "string_bytes s = map (\<lambda>c. of_nat (of_char c)) s"

definition bytes_string :: "bytes \<Rightarrow> string" where
  "bytes_string bs = map (\<lambda>b. char_of (unat b)) bs"

lemma bytes_string_bytes [simp]: "bytes_string (string_bytes s) = s"
proof -
  have "unat (of_nat (of_char c) :: byte) = (of_char c :: nat)" for c
    by (simp add: unat_of_nat)
  then show ?thesis
    by (simp add: bytes_string_def string_bytes_def comp_def map_idI)
qed

lemma length_string_bytes [simp]: "length (string_bytes s) = length s"
  by (simp add: string_bytes_def)

definition put_string :: "nat \<Rightarrow> bytes \<Rightarrow> bytes" where
  "put_string major bs = put_cbor_head major (of_nat (length bs)) @ bs"

definition get_string :: "nat \<Rightarrow> bytes \<Rightarrow> string + (bytes \<times> bytes)" where
  "get_string major bs =
    and_then (get_cbor_head major bs) (\<lambda>(n, bs).
    if length bs < unat n then Inl ''end of input''
    else Inr (take (unat n) bs, drop (unat n) bs))"

lemma get_put_string:
  "major < 8 \<Longrightarrow> fits bs \<Longrightarrow> get_string major (put_string major bs @ rest) = Inr (bs, rest)"
  by (simp add: get_string_def put_string_def get_put_cbor_head)

definition rfc_put_vec :: "bytes list \<Rightarrow> bytes" where
  "rfc_put_vec items = put_cbor_head 4 (of_nat (length items)) @ concat items"

fun get_items :: "(bytes \<Rightarrow> string + ('v \<times> bytes)) \<Rightarrow> nat \<Rightarrow> bytes \<Rightarrow> string + ('v list \<times> bytes)" where
  "get_items get 0 bs = Inr ([], bs)"
| "get_items get (Suc n) bs =
    and_then (get bs) (\<lambda>(v, bs). and_then (get_items get n bs) (\<lambda>(vs, bs). Inr (v # vs, bs)))"

definition get_vec :: "(bytes \<Rightarrow> string + ('v \<times> bytes)) \<Rightarrow> bytes \<Rightarrow> string + ('v list \<times> bytes)" where
  "get_vec get bs = and_then (get_cbor_head 4 bs) (\<lambda>(n, bs). get_items get (unat n) bs)"

definition rfc_put_struct :: "(nat \<times> bytes option) list \<Rightarrow> bytes" where
  "rfc_put_struct fs = put_cbor_head 5 (of_nat (length (present fs)))
    @ concat (map (\<lambda>(n, v). put_cbor_head 0 (of_nat n) @ v) (present fs))"

text \<open>A structure is read field by field; the state counts the entries left in the map.\<close>

type_synonym map_state = "nat \<times> bytes"

definition get_required ::
    "nat \<Rightarrow> (bytes \<Rightarrow> string + ('v \<times> bytes)) \<Rightarrow> map_state \<Rightarrow> string + ('v \<times> map_state)" where
  "get_required k get st =
    (case fst st of
       0 \<Rightarrow> Inl ''missing value''
     | Suc n \<Rightarrow>
         and_then (get_cbor_head 0 (snd st)) (\<lambda>(key, bs).
         if key \<noteq> of_nat k then Inl ''missing value''
         else and_then (get bs) (\<lambda>(v, bs). Inr (v, n, bs))))"

definition get_optional ::
    "nat \<Rightarrow> (bytes \<Rightarrow> string + ('v \<times> bytes)) \<Rightarrow> map_state \<Rightarrow> string + ('v option \<times> map_state)" where
  "get_optional k get st =
    (case fst st of
       0 \<Rightarrow> Inr (None, st)
     | Suc n \<Rightarrow>
         and_then (get_cbor_head 0 (snd st)) (\<lambda>(key, bs).
         if key \<noteq> of_nat k then Inr (None, st)
         else and_then (get bs) (\<lambda>(v, bs). Inr (Some v, n, bs))))"

definition get_struct :: "(map_state \<Rightarrow> string + ('v \<times> map_state)) \<Rightarrow> bytes \<Rightarrow> string + ('v \<times> bytes)" where
  "get_struct body bs =
    and_then (get_cbor_head 5 bs) (\<lambda>(n, bs).
    and_then (body (unat n, bs)) (\<lambda>(v, left, bs).
    if left \<noteq> 0 then Inl ''unexpected field'' else Inr (v, bs)))"


section \<open>Readers of the wire structures\<close>

definition get_text :: "bytes \<Rightarrow> string + (string \<times> bytes)" where
  "get_text bs = and_then (get_string 3 bs) (\<lambda>(v, bs). Inr (bytes_string v, bs))"

definition get_uint :: "nat \<Rightarrow> bytes \<Rightarrow> string + ('a::len word \<times> bytes)" where
  "get_uint width bs =
    and_then (get_cbor_head 0 bs) (\<lambda>(v, bs).
    if unat v < 2 ^ width then Inr (ucast v, bs) else Inl ''integer overflow'')"

definition rfc_get_envelope_wire :: "bytes \<Rightarrow> string + (envelope_wire \<times> bytes)" where
  "rfc_get_envelope_wire = get_struct (\<lambda>st.
    and_then (get_required 1 (get_string 2) st) (\<lambda>(v1, st).
    and_then (get_required 2 (get_string 2) st) (\<lambda>(v2, st).
    Inr (\<lparr>ew_payload = v1, ew_digest = v2\<rparr>, st))))"

definition rfc_get_object_ref_wire :: "bytes \<Rightarrow> string + (object_ref_wire \<times> bytes)" where
  "rfc_get_object_ref_wire = get_struct (\<lambda>st.
    and_then (get_required 1 (get_uint 8) st) (\<lambda>(v1, st).
    and_then (get_required 2 (get_string 2) st) (\<lambda>(v2, st).
    and_then (get_required 3 (get_cbor_head 0) st) (\<lambda>(v3, st).
    and_then (get_required 4 (get_string 2) st) (\<lambda>(v4, st).
    and_then (get_required 5 (get_cbor_head 0) st) (\<lambda>(v5, st).
    Inr (\<lparr>orw_kind = v1, orw_digest = v2, orw_len = v3, orw_storage_id = v4, orw_subtree_objects = v5\<rparr>, st)))))))"

definition rfc_get_commit_ref_wire :: "bytes \<Rightarrow> string + (commit_ref_wire \<times> bytes)" where
  "rfc_get_commit_ref_wire = get_struct (\<lambda>st.
    and_then (get_required 1 (get_cbor_head 0) st) (\<lambda>(v1, st).
    and_then (get_required 2 (get_string 2) st) (\<lambda>(v2, st).
    and_then (get_required 3 (get_string 2) st) (\<lambda>(v3, st).
    and_then (get_required 4 (get_cbor_head 0) st) (\<lambda>(v4, st).
    and_then (get_required 5 (get_string 2) st) (\<lambda>(v5, st).
    Inr (\<lparr>crw_sequence = v1, crw_transaction_id = v2, crw_digest = v3, crw_len = v4, crw_storage_id = v5\<rparr>, st)))))))"

definition rfc_get_checkpoint_ref_wire :: "bytes \<Rightarrow> string + (checkpoint_ref_wire \<times> bytes)" where
  "rfc_get_checkpoint_ref_wire = get_struct (\<lambda>st.
    and_then (get_required 1 (get_cbor_head 0) st) (\<lambda>(v1, st).
    and_then (get_required 2 (get_string 2) st) (\<lambda>(v2, st).
    and_then (get_optional 3 rfc_get_object_ref_wire st) (\<lambda>(v3, st).
    Inr (\<lparr>cpw_through_sequence = v1, cpw_through_commit = v2, cpw_object = v3\<rparr>, st)))))"

definition rfc_get_plan_ref_wire :: "bytes \<Rightarrow> string + (plan_ref_wire \<times> bytes)" where
  "rfc_get_plan_ref_wire = get_struct (\<lambda>st.
    and_then (get_required 1 (get_string 2) st) (\<lambda>(v1, st).
    and_then (get_required 2 (get_string 2) st) (\<lambda>(v2, st).
    and_then (get_required 3 (get_cbor_head 0) st) (\<lambda>(v3, st).
    Inr (\<lparr>plw_storage_id = v1, plw_digest = v2, plw_len = v3\<rparr>, st)))))"

definition rfc_get_options_wire :: "bytes \<Rightarrow> string + (options_wire \<times> bytes)" where
  "rfc_get_options_wire = get_struct (\<lambda>st.
    and_then (get_required 1 (get_cbor_head 0) st) (\<lambda>(v1, st).
    and_then (get_required 2 (get_cbor_head 0) st) (\<lambda>(v2, st).
    and_then (get_required 3 (get_cbor_head 0) st) (\<lambda>(v3, st).
    and_then (get_required 4 (get_cbor_head 0) st) (\<lambda>(v4, st).
    and_then (get_required 5 (get_cbor_head 0) st) (\<lambda>(v5, st).
    and_then (get_required 6 (get_cbor_head 0) st) (\<lambda>(v6, st).
    and_then (get_required 7 (get_cbor_head 0) st) (\<lambda>(v7, st).
    and_then (get_required 8 (get_cbor_head 0) st) (\<lambda>(v8, st).
    and_then (get_required 9 (get_cbor_head 0) st) (\<lambda>(v9, st).
    and_then (get_required 10 (get_cbor_head 0) st) (\<lambda>(v10, st).
    and_then (get_required 11 (get_cbor_head 0) st) (\<lambda>(v11, st).
    and_then (get_required 12 (get_cbor_head 0) st) (\<lambda>(v12, st).
    Inr (\<lparr>ow_max_tail_entries = v1, ow_resolution_window = v2, ow_max_inline_operation_bytes = v3, ow_max_inline_result_bytes = v4, ow_max_object_refs = v5, ow_max_commit_bytes = v6, ow_max_head_bytes = v7, ow_max_checkpoint_bytes = v8, ow_max_object_bytes = v9, ow_max_retention_ids = v10, ow_max_collection_objects = v11, ow_max_collection_plan_bytes = v12\<rparr>, st))))))))))))))"

definition rfc_get_head_wire :: "bytes \<Rightarrow> string + (head_wire \<times> bytes)" where
  "rfc_get_head_wire = get_struct (\<lambda>st.
    and_then (get_required 1 (get_uint 32) st) (\<lambda>(v1, st).
    and_then (get_required 2 get_text st) (\<lambda>(v2, st).
    and_then (get_required 3 (get_cbor_head 0) st) (\<lambda>(v3, st).
    and_then (get_required 4 (get_cbor_head 0) st) (\<lambda>(v4, st).
    and_then (get_optional 5 rfc_get_checkpoint_ref_wire st) (\<lambda>(v5, st).
    and_then (get_required 6 (get_vec rfc_get_commit_ref_wire) st) (\<lambda>(v6, st).
    and_then (get_required 7 (get_vec rfc_get_commit_ref_wire) st) (\<lambda>(v7, st).
    and_then (get_required 8 (get_string 2) st) (\<lambda>(v8, st).
    and_then (get_required 9 rfc_get_options_wire st) (\<lambda>(v9, st).
    and_then (get_required 10 (get_cbor_head 0) st) (\<lambda>(v10, st).
    and_then (get_optional 11 rfc_get_plan_ref_wire st) (\<lambda>(v11, st).
    and_then (get_required 12 (get_vec (get_string 2)) st) (\<lambda>(v12, st).
    Inr (\<lparr>hw_format_version = v1, hw_log_id = v2, hw_generation = v3, hw_next_sequence = v4, hw_checkpoint = v5, hw_tail = v6, hw_recent_outcomes = v7, hw_incarnation = v8, hw_options = v9, hw_collection_epoch = v10, hw_active_plan = v11, hw_retention_ids = v12\<rparr>, st))))))))))))))"

definition rfc_get_commit_wire :: "bytes \<Rightarrow> string + (commit_wire \<times> bytes)" where
  "rfc_get_commit_wire = get_struct (\<lambda>st.
    and_then (get_required 1 (get_uint 32) st) (\<lambda>(v1, st).
    and_then (get_required 2 get_text st) (\<lambda>(v2, st).
    and_then (get_required 3 (get_string 2) st) (\<lambda>(v3, st).
    and_then (get_optional 4 (get_string 2) st) (\<lambda>(v4, st).
    and_then (get_required 5 (get_string 2) st) (\<lambda>(v5, st).
    and_then (get_required 6 (get_string 2) st) (\<lambda>(v6, st).
    and_then (get_required 7 (get_vec rfc_get_object_ref_wire) st) (\<lambda>(v7, st).
    and_then (get_required 8 (get_string 2) st) (\<lambda>(v8, st).
    Inr (\<lparr>cw_format_version = v1, cw_log_id = v2, cw_transaction_id = v3, cw_expected_tip = v4, cw_operation = v5, cw_result = v6, cw_objects = v7, cw_incarnation = v8\<rparr>, st))))))))))"

definition rfc_get_checkpoint_wire :: "bytes \<Rightarrow> string + (checkpoint_wire \<times> bytes)" where
  "rfc_get_checkpoint_wire = get_struct (\<lambda>st.
    and_then (get_required 1 (get_uint 32) st) (\<lambda>(v1, st).
    and_then (get_required 2 get_text st) (\<lambda>(v2, st).
    and_then (get_required 3 (get_cbor_head 0) st) (\<lambda>(v3, st).
    and_then (get_required 4 (get_string 2) st) (\<lambda>(v4, st).
    and_then (get_required 5 (get_string 2) st) (\<lambda>(v5, st).
    and_then (get_required 6 (get_string 2) st) (\<lambda>(v6, st).
    and_then (get_required 7 (get_vec rfc_get_object_ref_wire) st) (\<lambda>(v7, st).
    Inr (\<lparr>kw_format_version = v1, kw_log_id = v2, kw_through_sequence = v3, kw_through_commit = v4, kw_snapshot = v5, kw_incarnation = v6, kw_objects = v7\<rparr>, st)))))))))"

definition rfc_get_token_wire :: "bytes \<Rightarrow> string + (token_wire \<times> bytes)" where
  "rfc_get_token_wire = get_struct (\<lambda>st.
    and_then (get_required 1 (get_uint 32) st) (\<lambda>(v1, st).
    and_then (get_required 2 (get_string 2) st) (\<lambda>(v2, st).
    and_then (get_optional 3 get_text st) (\<lambda>(v3, st).
    and_then (get_optional 4 get_text st) (\<lambda>(v4, st).
    and_then (get_required 5 (get_string 2) st) (\<lambda>(v5, st).
    and_then (get_required 6 (get_string 2) st) (\<lambda>(v6, st).
    and_then (get_required 7 (get_string 2) st) (\<lambda>(v7, st).
    and_then (get_required 8 (get_vec rfc_get_object_ref_wire) st) (\<lambda>(v8, st).
    and_then (get_required 9 (get_string 2) st) (\<lambda>(v9, st).
    and_then (get_required 10 (get_string 2) st) (\<lambda>(v10, st).
    and_then (get_required 11 (get_cbor_head 0) st) (\<lambda>(v11, st).
    and_then (get_required 12 (get_cbor_head 0) st) (\<lambda>(v12, st).
    and_then (get_optional 13 (get_string 2) st) (\<lambda>(v13, st).
    and_then (get_required 14 get_text st) (\<lambda>(v14, st).
    and_then (get_required 15 (get_string 2) st) (\<lambda>(v15, st).
    and_then (get_required 16 (get_string 2) st) (\<lambda>(v16, st).
    Inr (\<lparr>tw_format_version = v1, tw_head_digest = v2, tw_e_tag = v3, tw_storage_version = v4, tw_transaction_id = v5, tw_operation = v6, tw_result = v7, tw_objects = v8, tw_storage_id = v9, tw_publication_base_digest = v10, tw_generation = v11, tw_next_sequence = v12, tw_tip = v13, tw_log_id = v14, tw_incarnation = v15, tw_options_digest = v16\<rparr>, st))))))))))))))))))"


section \<open>Text forms\<close>

definition hex_digit :: "nat \<Rightarrow> char" where
  "hex_digit n = (if n < 10 then char_of (48 + n) else char_of (87 + n))"

definition hex_value :: "char \<Rightarrow> nat option" where
  "hex_value c =
    (let n = of_char c :: nat in
     if 48 \<le> n \<and> n \<le> 57 then Some (n - 48)
     else if 97 \<le> n \<and> n \<le> 102 then Some (n - 87)
     else if 65 \<le> n \<and> n \<le> 70 then Some (n - 55) else None)"

definition rfc_hex_encode :: "bytes \<Rightarrow> string" where
  "rfc_hex_encode bs = concat (map (\<lambda>b. [hex_digit (unat b div 16), hex_digit (unat b mod 16)]) bs)"

fun rfc_hex_decode :: "string \<Rightarrow> bytes option" where
  "rfc_hex_decode [] = Some []"
| "rfc_hex_decode [c] = None"
| "rfc_hex_decode (c # d # s) =
    (case (hex_value c, hex_value d, rfc_hex_decode s) of
       (Some x, Some y, Some bs) \<Rightarrow> Some (of_nat (x * 16 + y) # bs)
     | _ \<Rightarrow> None)"

definition rfc_uuid_parse :: "string \<Rightarrow> uuid option" where
  "rfc_uuid_parse s =
    (case rfc_hex_decode s of
       Some bs \<Rightarrow> if length bs = UUID_LEN then Some (of_be_bytes bs) else None
     | None \<Rightarrow> None)"


section \<open>The instance\<close>

definition rfc8949 :: "usize \<Rightarrow> (bytes \<Rightarrow> digest) \<Rightarrow> externals" where
  "rfc8949 m hash = \<lparr>
    usize_MAX = m,
    blake3 = hash,
    hex_encode = rfc_hex_encode,
    hex_decode = rfc_hex_decode,
    uuid_simple = (\<lambda>u. rfc_hex_encode (uuid_as_bytes u)),
    uuid_parse_str = rfc_uuid_parse,
    put_u8 = (\<lambda>v. put_cbor_head 0 (ucast v)),
    put_u32 = (\<lambda>v. put_cbor_head 0 (ucast v)),
    put_u64 = put_cbor_head 0,
    put_bytes_len = put_cbor_head 2,
    put_bytes = put_string 2,
    put_str = (\<lambda>s. put_string 3 (string_bytes s)),
    put_map = put_cbor_head 5,
    put_array = put_cbor_head 4,
    put_vec = rfc_put_vec,
    put_struct = rfc_put_struct,
    get_u8 = get_uint 8,
    get_u32 = get_uint 32,
    get_u64 = get_cbor_head 0,
    get_bytes = get_string 2,
    get_str = get_text,
    get_map = (\<lambda>bs. and_then (get_cbor_head 5 bs) (\<lambda>(n, bs). Inr (Some n, bs))),
    get_array = (\<lambda>bs. and_then (get_cbor_head 4 bs) (\<lambda>(n, bs). Inr (Some n, bs))),
    get_envelope_wire = rfc_get_envelope_wire,
    get_head_wire = rfc_get_head_wire,
    get_commit_wire = rfc_get_commit_wire,
    get_checkpoint_wire = rfc_get_checkpoint_wire,
    get_token_wire = rfc_get_token_wire \<rparr>"


section \<open>Reading inverts writing\<close>

lemma rfc8949_simps [simp]:
  "usize_MAX (rfc8949 m hash) = m"
  "blake3 (rfc8949 m hash) = hash"
  "put_u8 (rfc8949 m hash) = (\<lambda>v. put_cbor_head 0 (ucast v))"
  "put_u32 (rfc8949 m hash) = (\<lambda>v. put_cbor_head 0 (ucast v))"
  "put_u64 (rfc8949 m hash) = put_cbor_head 0"
  "put_bytes_len (rfc8949 m hash) = put_cbor_head 2"
  "put_bytes (rfc8949 m hash) = put_string 2"
  "put_str (rfc8949 m hash) = (\<lambda>s. put_string 3 (string_bytes s))"
  "put_map (rfc8949 m hash) = put_cbor_head 5"
  "put_array (rfc8949 m hash) = put_cbor_head 4"
  "put_vec (rfc8949 m hash) = rfc_put_vec"
  "put_struct (rfc8949 m hash) = rfc_put_struct"
  "get_u8 (rfc8949 m hash) = get_uint 8"
  "get_u32 (rfc8949 m hash) = get_uint 32"
  "get_u64 (rfc8949 m hash) = get_cbor_head 0"
  "get_bytes (rfc8949 m hash) = get_string 2"
  "get_str (rfc8949 m hash) = get_text"
  "get_map (rfc8949 m hash) = (\<lambda>bs. and_then (get_cbor_head 5 bs) (\<lambda>(n, bs). Inr (Some n, bs)))"
  "get_array (rfc8949 m hash) = (\<lambda>bs. and_then (get_cbor_head 4 bs) (\<lambda>(n, bs). Inr (Some n, bs)))"
  "get_envelope_wire (rfc8949 m hash) = rfc_get_envelope_wire"
  "get_head_wire (rfc8949 m hash) = rfc_get_head_wire"
  "get_commit_wire (rfc8949 m hash) = rfc_get_commit_wire"
  "get_checkpoint_wire (rfc8949 m hash) = rfc_get_checkpoint_wire"
  "get_token_wire (rfc8949 m hash) = rfc_get_token_wire"
  by (simp_all add: rfc8949_def)

lemma fits_put_string: "fits (put_string major bs) \<Longrightarrow> fits bs"
  by (auto simp: put_string_def dest: fits_append)

lemma get_put_items [simp]:
  "major < 8 \<Longrightarrow> get_cbor_head major (put_cbor_head major v @ r) = Inr (v, r)"
  "major < 8 \<Longrightarrow> fits (put_string major bs) \<Longrightarrow> get_string major (put_string major bs @ r) = Inr (bs, r)"
  "fits (put_string 3 (string_bytes t)) \<Longrightarrow> get_text (put_string 3 (string_bytes t) @ r) = Inr (t, r)"
  by (simp_all add: get_put_cbor_head get_put_string fits_put_string get_text_def)

lemma get_put_uint [simp]:
  assumes "LENGTH('a) \<le> 64" "width = LENGTH('a)"
  shows "get_uint width (put_cbor_head 0 (ucast (v :: 'a::len word)) @ r) = Inr (v, r)"
proof -
  have "unat v < 2 ^ 64"
    using unat_less_2p [of v] assms(1) by (meson less_le_trans one_le_numeral power_increasing)
  then have "unat (ucast v :: u64) = unat v"
    by (simp add: unsigned_ucast_eq take_bit_nat_eq_self)
  moreover from this have "ucast (ucast v :: u64) = v"
    using unat_less_2p [of v]
    by (simp add: word_unat_eq_iff unsigned_ucast_eq [of "ucast v"] take_bit_nat_eq_self)
  ultimately show ?thesis
    using unat_less_2p [of v] assms(2) by (simp add: get_uint_def)
qed

lemma get_required_put [simp]:
  "0 < n \<Longrightarrow> w = of_nat k \<Longrightarrow>
    get_required k get (n, put_cbor_head 0 w @ bs) = and_then (get bs) (\<lambda>(v, bs). Inr (v, n - 1, bs))"
  by (cases n) (simp_all add: get_required_def)

lemma get_optional_put [simp]:
  "0 < n \<Longrightarrow> w = of_nat k \<Longrightarrow>
    get_optional k get (n, put_cbor_head 0 w @ bs) = and_then (get bs) (\<lambda>(v, bs). Inr (Some v, n - 1, bs))"
  "w \<noteq> of_nat k \<Longrightarrow>
    get_optional k get (n, put_cbor_head 0 w @ bs) = Inr (None, n, put_cbor_head 0 w @ bs)"
  "get_optional k get (0, bs) = Inr (None, 0, bs)"
  by (cases n; simp add: get_optional_def)+

lemma fits_rfc_struct:
  assumes "fits (rfc_put_struct fs)"
  shows "\<forall>(n, v)\<in>set (present fs). fits v"
proof clarify
  fix n v assume v: "(n, v) \<in> set (present fs)"
  have "length v \<le> length (put_cbor_head 0 (of_nat n) @ v)" by simp
  also have "\<dots> \<le> sum_list (map length (map (\<lambda>(n, v). put_cbor_head 0 (of_nat n) @ v) (present fs)))"
    using v by (intro member_le_sum_list) (force simp: image_iff, simp)
  finally show "fits v"
    using assms by (simp add: fits_def rfc_put_struct_def length_concat)
qed

lemma length_le_concat: "\<forall>x\<in>set xs. x \<noteq> [] \<Longrightarrow> length xs \<le> length (concat xs)"
proof (induction xs)
  case (Cons x xs)
  then show ?case by (cases x) auto
qed simp

lemma get_put_vec:
  assumes "\<And>v r. v \<in> set vs \<Longrightarrow> fits (put v) \<Longrightarrow> get (put v @ r) = Inr (v, r)" "\<And>v. put v \<noteq> []"
    and fits: "fits (rfc_put_vec (map put vs))"
  shows "get_vec get (rfc_put_vec (map put vs) @ r) = Inr (vs, r)"
proof -
  have all: "fits (concat (map put vs))"
    using fits by (auto simp: rfc_put_vec_def dest: fits_append)
  then have "fits vs"
    using length_le_concat [of "map put vs"] assms(2) by (auto simp: fits_def)
  moreover have "get_items get (length vs) (concat (map put vs) @ r) = Inr (vs, r)"
    using assms(1) all
  proof (induction vs)
    case (Cons v vs)
    have "fits (put v)" "fits (concat (map put vs))"
      using Cons.prems(2) fits_append by auto
    with Cons show ?case by simp
  qed simp
  ultimately show ?thesis
    by (simp add: get_vec_def rfc_put_vec_def)
qed

lemma put_cbor_head_not_Nil [simp]: "put_cbor_head major v \<noteq> []"
  using shortest_head_pos [of v] length_put_cbor_head [of major v] by auto

lemma rfc_struct_not_Nil [simp]: "rfc_put_struct fs \<noteq> []"
  by (simp add: rfc_put_struct_def)

lemma put_string_not_Nil [simp]: "put_string major bs \<noteq> []"
  by (simp add: put_string_def)

abbreviation rfc_reads :: "(bytes \<Rightarrow> string + ('v \<times> bytes)) \<Rightarrow> ('v \<Rightarrow> bytes) \<Rightarrow> bool" where
  "rfc_reads get put \<equiv> (\<forall>v r. fits (put v) \<longrightarrow> get (put v @ r) = Inr (v, r))"

lemma get_struct_put:
  assumes "length (present fs) < 2 ^ 64"
  shows "get_struct body (rfc_put_struct fs @ r) =
    and_then (body (length (present fs), concat (map (\<lambda>(n, v). put_cbor_head 0 (of_nat n) @ v) (present fs)) @ r))
      (\<lambda>(v, left, bs). if left \<noteq> 0 then Inl ''unexpected field'' else Inr (v, bs))"
  using assms by (simp add: get_struct_def rfc_put_struct_def)

lemma rfc_envelope_wire: "rfc_reads rfc_get_envelope_wire (put_envelope_wire (rfc8949 m hash))"
proof (intro allI impI)
  fix v r assume "fits (put_envelope_wire (rfc8949 m hash) v)"
  from fits_rfc_struct [OF this [unfolded put_envelope_wire_def rfc8949_simps]]
  show "rfc_get_envelope_wire (put_envelope_wire (rfc8949 m hash) v @ r) = Inr (v, r)"
    by (simp add: put_envelope_wire_def rfc_get_envelope_wire_def get_struct_put)
qed

lemma rfc_object_ref_wire: "rfc_reads rfc_get_object_ref_wire (put_object_ref_wire (rfc8949 m hash))"
proof (intro allI impI)
  fix v r assume "fits (put_object_ref_wire (rfc8949 m hash) v)"
  from fits_rfc_struct [OF this [unfolded put_object_ref_wire_def rfc8949_simps]]
  show "rfc_get_object_ref_wire (put_object_ref_wire (rfc8949 m hash) v @ r) = Inr (v, r)"
    by (simp add: put_object_ref_wire_def rfc_get_object_ref_wire_def get_struct_put)
qed

lemma rfc_commit_ref_wire: "rfc_reads rfc_get_commit_ref_wire (put_commit_ref_wire (rfc8949 m hash))"
proof (intro allI impI)
  fix v r assume "fits (put_commit_ref_wire (rfc8949 m hash) v)"
  from fits_rfc_struct [OF this [unfolded put_commit_ref_wire_def rfc8949_simps]]
  show "rfc_get_commit_ref_wire (put_commit_ref_wire (rfc8949 m hash) v @ r) = Inr (v, r)"
    by (simp add: put_commit_ref_wire_def rfc_get_commit_ref_wire_def get_struct_put)
qed

lemma rfc_plan_ref_wire: "rfc_reads rfc_get_plan_ref_wire (put_plan_ref_wire (rfc8949 m hash))"
proof (intro allI impI)
  fix v r assume "fits (put_plan_ref_wire (rfc8949 m hash) v)"
  from fits_rfc_struct [OF this [unfolded put_plan_ref_wire_def rfc8949_simps]]
  show "rfc_get_plan_ref_wire (put_plan_ref_wire (rfc8949 m hash) v @ r) = Inr (v, r)"
    by (simp add: put_plan_ref_wire_def rfc_get_plan_ref_wire_def get_struct_put)
qed

lemma rfc_options_wire: "rfc_get_options_wire (put_options_wire (rfc8949 m hash) v @ r) = Inr (v, r)"
  by (simp add: put_options_wire_def rfc_get_options_wire_def get_struct_put)

lemma rfc_checkpoint_ref_wire: "rfc_reads rfc_get_checkpoint_ref_wire (put_checkpoint_ref_wire (rfc8949 m hash))"
proof (intro allI impI)
  fix v r assume "fits (put_checkpoint_ref_wire (rfc8949 m hash) v)"
  from fits_rfc_struct [OF this [unfolded put_checkpoint_ref_wire_def rfc8949_simps]]
  show "rfc_get_checkpoint_ref_wire (put_checkpoint_ref_wire (rfc8949 m hash) v @ r) = Inr (v, r)"
    using rfc_object_ref_wire [of m hash]
    by (cases "cpw_object v")
      (simp_all add: put_checkpoint_ref_wire_def rfc_get_checkpoint_ref_wire_def get_struct_put)
qed

lemma get_put_refs:
  "fits (rfc_put_vec (map (put_commit_ref_wire (rfc8949 m hash)) cs)) \<Longrightarrow>
    get_vec rfc_get_commit_ref_wire (rfc_put_vec (map (put_commit_ref_wire (rfc8949 m hash)) cs) @ r) = Inr (cs, r)"
  "fits (rfc_put_vec (map (put_object_ref_wire (rfc8949 m hash)) os)) \<Longrightarrow>
    get_vec rfc_get_object_ref_wire (rfc_put_vec (map (put_object_ref_wire (rfc8949 m hash)) os) @ r) = Inr (os, r)"
  "fits (rfc_put_vec (map (put_string 2) bs)) \<Longrightarrow>
    get_vec (get_string 2) (rfc_put_vec (map (put_string 2) bs) @ r) = Inr (bs, r)"
  using rfc_commit_ref_wire [of m hash] rfc_object_ref_wire [of m hash]
  by (rule_tac get_put_vec; simp add: put_commit_ref_wire_def put_object_ref_wire_def)+

lemma rfc_commit_wire: "rfc_reads rfc_get_commit_wire (put_commit_wire (rfc8949 m hash))"
proof (intro allI impI)
  fix v r assume "fits (put_commit_wire (rfc8949 m hash) v)"
  from fits_rfc_struct [OF this [unfolded put_commit_wire_def rfc8949_simps]]
  show "rfc_get_commit_wire (put_commit_wire (rfc8949 m hash) v @ r) = Inr (v, r)"
    by (cases "cw_expected_tip v")
      (simp_all add: put_commit_wire_def rfc_get_commit_wire_def get_struct_put get_put_refs)
qed

lemma rfc_checkpoint_wire: "rfc_reads rfc_get_checkpoint_wire (put_checkpoint_wire (rfc8949 m hash))"
proof (intro allI impI)
  fix v r assume "fits (put_checkpoint_wire (rfc8949 m hash) v)"
  from fits_rfc_struct [OF this [unfolded put_checkpoint_wire_def rfc8949_simps]]
  show "rfc_get_checkpoint_wire (put_checkpoint_wire (rfc8949 m hash) v @ r) = Inr (v, r)"
    by (simp add: put_checkpoint_wire_def rfc_get_checkpoint_wire_def get_struct_put get_put_refs)
qed

lemma rfc_head_wire: "rfc_reads rfc_get_head_wire (put_head_wire (rfc8949 m hash))"
proof (intro allI impI)
  fix v r assume "fits (put_head_wire (rfc8949 m hash) v)"
  from fits_rfc_struct [OF this [unfolded put_head_wire_def rfc8949_simps]]
  show "rfc_get_head_wire (put_head_wire (rfc8949 m hash) v @ r) = Inr (v, r)"
    using rfc_checkpoint_ref_wire [of m hash] rfc_plan_ref_wire [of m hash]
    by (cases "hw_checkpoint v"; cases "hw_active_plan v")
      (simp_all add: put_head_wire_def rfc_get_head_wire_def get_struct_put get_put_refs rfc_options_wire)
qed

lemma rfc_token_wire: "rfc_reads rfc_get_token_wire (put_token_wire (rfc8949 m hash))"
proof (intro allI impI)
  fix v r assume "fits (put_token_wire (rfc8949 m hash) v)"
  from fits_rfc_struct [OF this [unfolded put_token_wire_def rfc8949_simps]]
  show "rfc_get_token_wire (put_token_wire (rfc8949 m hash) v @ r) = Inr (v, r)"
    by (cases "tw_e_tag v"; cases "tw_storage_version v"; cases "tw_tip v")
      (simp_all add: put_token_wire_def rfc_get_token_wire_def get_struct_put get_put_refs)
qed

interpretation rfc: cbor "rfc8949 m hash"
proof unfold_locales
  fix fs show "put_struct (rfc8949 m hash) fs = put_map (rfc8949 m hash) (of_nat (length (present fs)))
      @ concat (map (\<lambda>(n, v). put_u64 (rfc8949 m hash) (of_nat n) @ v) (present fs))"
    by (simp add: rfc_put_struct_def)
next
  fix bs :: bytes
  show "put_bytes (rfc8949 m hash) bs = put_bytes_len (rfc8949 m hash) (of_nat (length bs)) @ bs"
    by (simp add: put_string_def)
  show "length bs < length (put_bytes (rfc8949 m hash) bs)"
    by (simp add: put_string_def length_put_cbor_head shortest_head_pos)
qed (simp_all add: rfc_envelope_wire rfc_head_wire rfc_commit_wire rfc_checkpoint_wire rfc_token_wire
  length_put_cbor_head rfc_put_vec_def)

lemma rfc8949_cbor: "cbor (rfc8949 m hash)"
  by (rule rfc.cbor_axioms)


section \<open>Lengths\<close>

lemma length_put_cbor_head_le: "length (put_cbor_head major v) \<le> 9"
  by (simp add: length_put_cbor_head shortest_head_def)

lemma length_put_string_le: "length bs \<le> k \<Longrightarrow> length (put_string major bs) \<le> 9 + k"
  unfolding put_string_def length_append by (rule add_mono [OF length_put_cbor_head_le])

lemma length_rfc_struct_le:
  assumes "\<forall>(n, v)\<in>set (present fs). length v \<le> k"
  shows "length (rfc_put_struct fs) \<le> 9 + length (present fs) * (9 + k)"
proof -
  let ?f = "\<lambda>(n, v). put_cbor_head 0 (of_nat n) @ v"
  have le: "length (?f x) \<le> 9 + k" if "x \<in> set (present fs)" for x
    using assms that by (auto intro!: add_mono [OF length_put_cbor_head_le])
  have "sum_list (map (length \<circ> ?f) (present fs)) \<le> sum_list (map (\<lambda>_. 9 + k) (present fs))"
    by (rule sum_list_mono) (simp only: o_apply le)
  then have "length (concat (map ?f (present fs))) \<le> length (present fs) * (9 + k)"
    by (simp add: length_concat sum_list_triv)
  then show ?thesis
    unfolding rfc_put_struct_def length_append
    by (rule add_mono [OF length_put_cbor_head_le])
qed

lemma length_rfc_options_le: "length (put_options_wire (rfc8949 m hash) w) \<le> 225"
  unfolding put_options_wire_def rfc8949_simps
  by (rule order_trans [OF length_rfc_struct_le [of _ 9]]) (simp_all add: length_put_cbor_head_le)

lemma length_rfc_envelope_le:
  "length p \<le> k \<Longrightarrow> length (encode_envelope (rfc8949 m hash) p) \<le> 9 + 2 * (18 + max k 32)"
  unfolding encode_envelope_def put_envelope_wire_def rfc8949_simps
  by (rule order_trans [OF length_rfc_struct_le [of _ "9 + max k 32"]])
    (auto simp: intro!: length_put_string_le)

end
