(* ===== verification/Format_Properties.thy ===== *)
theory Format_Properties
  imports Rfc8949 Node_Format
begin

text \<open>
  The properties of the durable formats. For every format the decoder accepts exactly the canonical
  encodings of the values it can return, so decoding inverts encoding and no value has two
  encodings; the node preflight reports the exact encoded size; and the publication base digest a
  recovery token carries identifies the publication base. The third-party codec is any \<open>E\<close> with
  \<open>cbor E\<close>; the witnesses use the concrete codec \<open>rfc8949\<close>.
\<close>


section \<open>Sample values\<close>

definition sample_codec :: externals where
  "sample_codec = rfc8949 18446744073709551615 (\<lambda>_. 0)"

definition sample_head :: head where
  "sample_head = head_empty ''log'' 7 default_options"

definition sample_object :: object_ref where
  "sample_object = \<lparr>or_kind = Blob, or_storage_id = 1, or_digest = 2, or_len = 3, or_subtree_objects = 1\<rparr>"

definition sample_commit :: commit_object where
  "sample_commit = \<lparr>cm_log_id = ''log'', cm_incarnation = 7, cm_transaction_id = 5,
     cm_expected_tip = None, cm_operation = [1, 2], cm_result = [], cm_objects = []\<rparr>"

definition sample_checkpoint :: checkpoint_object where
  "sample_checkpoint = \<lparr>ck_log_id = ''log'', ck_incarnation = 7, ck_through_sequence = 0,
     ck_through_commit = 9, ck_snapshot = [1], ck_objects = []\<rparr>"

definition sample_token :: recovery_token where
  "sample_token = \<lparr>rt_head_digest = 1, rt_publication_base_digest = 2,
     rt_version = \<lparr>e_tag = Some ''1'', version = None\<rparr>, rt_generation = 1, rt_next_sequence = 0,
     rt_tip = None, rt_log_id = ''log'', rt_incarnation = 7, rt_options_digest = 3,
     rt_transaction_id = 5, rt_operation = [1], rt_result = [], rt_objects = [], rt_storage_id = 4\<rparr>"

definition sample_node :: node where
  "sample_node = \<lparr>nd_payload = [1, 2, 3], nd_children = [sample_object]\<rparr>"

definition sample_plan :: collection_plan where
  "sample_plan = \<lparr>cl_log_id = ''log'', cl_collection_epoch = 1,
     cl_candidates = [\<lparr>cc_key = ImmutableKey 7 KBlob 1 2, cc_bytes = 3\<rparr>]\<rparr>"

lemma sample_codec_cbor: "cbor sample_codec"
  unfolding sample_codec_def by (rule rfc8949_cbor)

lemma sample_log_id_ok: "log_id_ok ''log''"
  by (simp add: log_id_ok_def LogId_new_def MAX_LOG_ID_LEN_def is_ascii_alphanumeric_def)

lemma default_options_to_wire: "\<exists>w. options_to_wire default_options = Inr w"
  by (simp add: options_to_wire_def default_options_def option_to_u64_def u64_try_from_def)

lemma default_options_fit: "options_fit 18446744073709551615 default_options"
  by (simp add: options_fit_def option_values_def default_options_def)

lemma small_fits: "length bs \<le> k \<Longrightarrow> k \<le> 10000 \<Longrightarrow> fits bs"
  by (simp add: fits_def)

lemma small_struct_fits:
  assumes "\<forall>(n, v)\<in>set (present fs). length v \<le> 300" "length (present fs) \<le> 16"
  shows "fits (encode_envelope (rfc8949 m hash) (rfc_put_struct fs))"
proof -
  have "length (rfc_put_struct fs) \<le> 9 + 16 * (9 + 300)"
    using length_rfc_struct_le [OF assms(1)] assms(2) by simp
  from length_rfc_envelope_le [OF this, of m hash] show ?thesis
    by (simp add: fits_def)
qed

lemma sorted_list_of_fempty: "sorted_list_of_fset ({||} :: retention_id fset) = []"
  by (simp add: sorted_list_of_fset.rep_eq)

lemmas length_le_simps = sorted_list_of_fempty length_put_cbor_head length_put_string_le shortest_head_def
  length_rfc_options_le put_string_def rfc_put_vec_def digest_as_bytes_def uuid_as_bytes_def
  DIGEST_LEN_def UUID_LEN_def

lemma sample_head_encodes: "\<exists>bs. encode_head sample_codec sample_head = Inr bs \<and> fits bs"
proof -
  obtain w where w: "options_to_wire default_options = Inr w"
    using default_options_to_wire by blast
  have opts: "length (put_options_wire (rfc8949 18446744073709551615 (\<lambda>_. 0)) w) \<le> 300"
    by (rule order_trans [OF length_rfc_options_le]) simp
  have "head_validate (usize_MAX sample_codec) sample_head = Inr ()" "options sample_head = default_options"
    by (simp_all add: sample_head_def head_validate_iff head_empty_ok) (simp add: head_empty_def)
  then have "encode_head sample_codec sample_head
      = Inr (encode_envelope sample_codec (put_head_wire sample_codec (head_to_wire sample_head w)))"
    by (simp add: encode_head_def w)
  moreover have "fits (encode_envelope sample_codec (put_head_wire sample_codec (head_to_wire sample_head w)))"
    unfolding sample_codec_def put_head_wire_def rfc8949_simps
    using opts
    by (intro small_struct_fits) (simp_all add: head_to_wire_def sample_head_def head_empty_def length_le_simps)
  ultimately show ?thesis by blast
qed

lemma sample_commit_fits: "fits (encode_commit sample_codec sample_commit)"
  unfolding encode_commit_def sample_codec_def put_commit_wire_def rfc8949_simps
  by (intro small_struct_fits) (simp_all add: commit_to_wire_def sample_commit_def length_le_simps)

lemma sample_checkpoint_fits: "fits (encode_checkpoint sample_codec sample_checkpoint)"
  unfolding encode_checkpoint_def sample_codec_def put_checkpoint_wire_def rfc8949_simps
  by (intro small_struct_fits) (simp_all add: checkpoint_to_wire_def sample_checkpoint_def length_le_simps)

lemma sample_token_fits: "fits (token_encode sample_codec sample_token)"
  unfolding token_encode_def sample_codec_def put_token_wire_def rfc8949_simps
  by (intro small_struct_fits) (simp_all add: token_to_wire_def sample_token_def length_le_simps)


section \<open>Canonical round trips\<close>

text \<open>
  C34. The head codec is a canonical round trip: for input within the address space, \<open>decode_head\<close>
  returns \<open>h\<close> exactly when the input is what \<open>encode_head\<close> writes for \<open>h\<close> (so \<open>h\<close> is a valid head)
  and the fields of \<open>h\<close> are values the Rust types admit. No other byte string decodes to \<open>h\<close>, and no
  malformed, non-canonical or invalid head is accepted.
\<close>

theorem head_roundtrip:
  assumes "cbor E" "fits bs"
  shows "decode_head E bs = Inr h \<longleftrightarrow> encode_head E h = Inr bs \<and> head_fields_ok E h"
  using assms by (rule cbor.decode_head_iff)

theorem head_roundtrip_witness:
  "\<exists>bs. encode_head sample_codec sample_head = Inr bs \<and> decode_head sample_codec bs = Inr sample_head"
proof -
  obtain bs where bs: "encode_head sample_codec sample_head = Inr bs" "fits bs"
    using sample_head_encodes by blast
  have "head_fields_ok sample_codec sample_head"
    using default_options_fit
    by (simp add: head_fields_ok_def sample_head_def head_empty_def sample_log_id_ok sample_codec_def)
  with bs show ?thesis
    using head_roundtrip [OF sample_codec_cbor, of bs sample_head] by blast
qed

section \<open>Nodes and plans\<close>

lemma sample_node_encodes:
  "encode_node sample_codec sample_node default_options
      = Inr (encode_envelope sample_codec (node_payload_bytes sample_codec sample_node))
    \<and> fits (encode_envelope sample_codec (node_payload_bytes sample_codec sample_node))"
proof -
  let ?p = "node_payload_bytes sample_codec sample_node"
  have len: "length ?p = 70"
    by (simp add: sample_codec_def rfc.length_node_payload fits_def sample_node_def sample_object_def
      inner_size_def child_sizes_def children_size_def child_size_def shortest_head_def)
  have "length (encode_envelope sample_codec ?p) \<le> 9 + 2 * (18 + max 70 32)"
    using length_rfc_envelope_le [of ?p 70] len by (simp add: sample_codec_def)
  then have "fits (encode_envelope sample_codec ?p)"
    by (simp add: fits_def)
  with len show ?thesis
    by (simp add: cbor.encode_node_iff [OF sample_codec_cbor] outer_size_def shortest_head_def fits_def)
      (simp add: sample_node_def default_options_def sample_codec_def)
qed

text \<open>
  C36. The node codec is a round trip within the limits: the bytes \<open>encode_node\<close> writes for a node
  whose children are well-formed decode to that node, and whatever \<open>decode_node\<close> accepts is the
  canonical envelope of the node it returns, whose children are all non-checkpoint references
  within the object limit.
\<close>

theorem node_roundtrip:
  assumes "cbor E" "fits bs"
  shows "(encode_node E n opts = Inr bs \<and> node_ok E opts n \<longrightarrow> decode_node E bs opts = Inr n)
    \<and> (decode_node E bs opts = Inr n \<longrightarrow>
        node_ok E opts n \<and> bs = encode_envelope E (node_payload_bytes E n)
        \<and> (length bs \<le> min (usize_MAX E) (max_object_bytes opts) \<longrightarrow> encode_node E n opts = Inr bs))"
proof -
  have "encode_node E n opts = Inr bs"
    if "bs = encode_envelope E (node_payload_bytes E n)" "node_ok E opts n"
      and "length bs \<le> min (usize_MAX E) (max_object_bytes opts)"
  proof -
    have "fits (node_payload_bytes E n)"
      using assms cbor.encode_envelope_fits that(1) by blast
    then show ?thesis
      using that cbor.fits_node_payload [OF assms(1)]
      by (simp add: cbor.encode_node_iff [OF assms(1)] cbor.length_encode_envelope [OF assms(1)]
        node_ok_def fits_def)
  qed
  then show ?thesis
    using assms by (auto simp: cbor.decode_node_iff cbor.encode_node_iff)
qed

theorem node_roundtrip_witness:
  "\<exists>bs. encode_node sample_codec sample_node default_options = Inr bs
    \<and> decode_node sample_codec bs default_options = Inr sample_node"
proof -
  have "node_ok sample_codec default_options sample_node"
    by (simp add: node_ok_def sample_node_def child_ok_def sample_object_def default_options_def
      sample_codec_def object_ref_ok_def validate_count_def)
  then show ?thesis
    using sample_node_encodes node_roundtrip [OF sample_codec_cbor] by blast
qed

text \<open>
  C37. The preflight size is exact: \<open>encode_node\<close> succeeds exactly when \<open>node_size\<close> does on the
  lengths alone, and then the encoding has precisely the reported number of bytes, within the
  object limit of the log.
\<close>

theorem node_size_exact:
  assumes "cbor E"
  shows "case node_size E (length (nd_payload n)) (child_sizes (nd_children n)) opts of
      Inl e \<Rightarrow> \<exists>e'. encode_node E n opts = Inl e'
    | Inr s \<Rightarrow> \<exists>bs. encode_node E n opts = Inr bs \<and> length bs = ns_encoded s
        \<and> length bs \<le> max_object_bytes opts"
proof -
  let ?size = "node_size E (length (nd_payload n)) (child_sizes (nd_children n)) opts"
  let ?bs = "encode_envelope E (node_payload_bytes E n)"
  have short: "fits (nd_payload n)" if "?size = Inr s" for s
    using that by (auto simp: node_size_Inr inner_size_def fits_def)
  have iff: "encode_node E n opts = Inr bs \<longleftrightarrow> bs = ?bs \<and> (\<exists>s. ?size = Inr s)" for bs
    using cbor.length_node_payload [OF assms, of n] short
    by (auto simp: cbor.encode_node_iff [OF assms] node_size_Inr)
  show ?thesis
  proof (cases ?size)
    case (Inl e)
    then show ?thesis using iff by (cases "encode_node E n opts") auto
  next
    case (Inr s)
    have "fits (node_payload_bytes E n)" "length ?bs = ns_encoded s" "ns_encoded s \<le> max_object_bytes opts"
      using Inr short [OF Inr] cbor.length_node_payload [OF assms, of n]
        cbor.length_encode_envelope [OF assms, of "node_payload_bytes E n"]
      by (auto simp: node_size_Inr fits_def)
    then show ?thesis using Inr iff by auto
  qed
qed

theorem node_size_exact_witness:
  "\<exists>bs. encode_node sample_codec sample_node default_options = Inr bs \<and> length bs = 109"
proof -
  have "node_size sample_codec (length (nd_payload sample_node)) (child_sizes (nd_children sample_node))
      default_options = Inr \<lparr>ns_encoded = 109, ns_inner = 70, ns_children = 1\<rparr>"
    by (simp add: node_size_Inr sample_node_def sample_object_def child_sizes_def inner_size_def
      outer_size_def children_size_def child_size_def shortest_head_def default_options_def sample_codec_def)
  then show ?thesis
    using node_size_exact [OF sample_codec_cbor, of sample_node default_options] by auto
qed

lemma sample_plan_encodes:
  "\<exists>bs. encode_collection_plan sample_codec sample_plan default_options = Inr bs \<and> fits bs"
proof -
  let ?p = "put_plan_wire sample_codec (plan_to_wire sample_plan)"
  have item: "length (put_candidate_wire sample_codec (candidate_to_wire c)) \<le> k" if "264 \<le> k" for c k
    unfolding sample_codec_def put_candidate_wire_def rfc8949_simps using that
    by (intro order_trans [OF length_rfc_struct_le [of _ 42]])
      (auto simp: candidate_to_wire_def length_le_simps)
  have "length ?p \<le> 9 + 4 * (9 + 273)"
    unfolding sample_codec_def put_plan_wire_def rfc8949_simps
    by (intro order_trans [OF length_rfc_struct_le [of _ 273]])
      (auto simp: plan_to_wire_def sample_plan_def length_le_simps item [unfolded sample_codec_def])
  from length_rfc_envelope_le [OF this, of 18446744073709551615 "\<lambda>_. 0"]
  have "length (encode_envelope sample_codec ?p) \<le> 2319"
    by (simp add: sample_codec_def)
  moreover have "plan_validate sample_plan default_options = Inr ()"
    by (simp add: plan_validate_iff plan_ok_def sample_plan_def default_options_def)
  ultimately show ?thesis
    by (simp add: encode_collection_plan_def fits_def default_options_def)
qed

text \<open>
  C35. The codecs of commits, checkpoints, recovery tokens and collection plans are canonical round trips: on input within
  the address space each decoder returns a value exactly on the bytes its encoder writes for it, and only
  values with well-formed fields are returned: log ids and object references, for a token a consistent
  source position (the generation has reached the sequence, and there is a tip exactly when
  something was committed), and for a plan sorted, distinct candidates within the limits.
\<close>

theorem record_roundtrips:
  assumes "cbor E" "fits bs" "options_fit (usize_MAX E) opts"
  shows "(decode_commit E bs = Inr c \<longleftrightarrow> bs = encode_commit E c \<and> commit_ok c)
    \<and> (decode_checkpoint E bs = Inr k \<longleftrightarrow> bs = encode_checkpoint E k \<and> checkpoint_object_ok k)
    \<and> (decode_recovery_token E bs = Inr t \<longleftrightarrow> bs = token_encode E t \<and> token_ok t)
    \<and> (decode_collection_plan E bs opts = Inr plan \<longleftrightarrow>
        encode_collection_plan E plan opts = Inr bs \<and> log_id_ok (cl_log_id plan) \<and> fits (cl_candidates plan))"
  using cbor.decode_commit_iff [OF assms(1, 2)] cbor.decode_checkpoint_iff [OF assms(1, 2)] cbor.decode_token_iff [OF assms(1, 2)]
    cbor.decode_collection_plan_iff [OF assms]
  by blast

theorem record_roundtrips_witness:
  "decode_commit sample_codec (encode_commit sample_codec sample_commit) = Inr sample_commit
    \<and> decode_checkpoint sample_codec (encode_checkpoint sample_codec sample_checkpoint) = Inr sample_checkpoint
    \<and> decode_recovery_token sample_codec (token_encode sample_codec sample_token) = Inr sample_token
    \<and> (\<exists>bs. encode_collection_plan sample_codec sample_plan default_options = Inr bs
        \<and> decode_collection_plan sample_codec bs default_options = Inr sample_plan)"
proof -
  have opts: "options_fit (usize_MAX sample_codec) default_options"
    using default_options_fit by (auto simp: sample_codec_def)
  obtain bs where plan: "encode_collection_plan sample_codec sample_plan default_options = Inr bs" "fits bs"
    using sample_plan_encodes by blast
  have "decode_collection_plan sample_codec bs default_options = Inr sample_plan"
    using record_roundtrips [OF sample_codec_cbor plan(2) opts, where plan = sample_plan] plan(1)
    by (auto simp: sample_plan_def sample_log_id_ok fits_def)
  with plan show ?thesis
    using record_roundtrips [OF sample_codec_cbor sample_commit_fits opts, of sample_commit]
      record_roundtrips [OF sample_codec_cbor sample_checkpoint_fits opts, where k = sample_checkpoint]
      record_roundtrips [OF sample_codec_cbor sample_token_fits opts, where t = sample_token]
    by (simp add: commit_ok_def sample_commit_def checkpoint_object_ok_def sample_checkpoint_def token_ok_def
        sample_token_def sample_log_id_ok)
qed

end
