(* ===== verification/Prog.thy ===== *)
theory Prog
  imports Plan_Format
begin

text \<open>
  Effects. The asynchronous methods of the log act on an object store that other processes share,
  so a method is a tree of requests: every node names one request of the \<open>object_store\<close> client (or
  one process-local effect) and continues with the response. What the store answers, and what
  other clients do between two requests, is left to the interpretation of the tree: \<open>run\<close> below
  executes a tree against a private in-memory store, and the protocol theory gives all
  interleavings. \<open>await\<close> sequences trees, \<open>await_try\<close> is \<^verbatim>\<open>.await?\<close>, and \<open>attempt\<close> is \<^verbatim>\<open>?\<close> on a
  pure result.
\<close>


section \<open>Requests and responses\<close>

text \<open>An \<open>object_store::path::Path\<close> is the list of its parts.\<close>

type_synonym path = "string list"

datatype put_mode = Create | Overwrite | Update update_version

record get_result =
  gr_version :: update_version
  gr_size :: u64
  gr_chunks :: "(store_error + bytes) list"

record object_meta =
  om_location :: path
  om_size :: u64

text \<open>\<open>Request\<close> of \<^verbatim>\<open>src/src/store.rs\<close>: what a request guard is asked to admit.\<close>

datatype request = Read usize | Write usize | ListObjects | DeleteObjects usize

text \<open>Addresses stand for the identities of \<open>Arc\<close> allocations and of request guards.\<close>

type_synonym addr = nat

datatype 'a prog =
    Done 'a
  | Get path "string option" "store_error + get_result \<Rightarrow> 'a prog"
  | Put path bytes put_mode "store_error + update_version \<Rightarrow> 'a prog"
  | ListPrefix path "(store_error + object_meta) list \<Rightarrow> 'a prog"
  | DeleteStream "path list" "(store_error + path) list \<Rightarrow> 'a prog"
  | Delete path "store_error option \<Rightarrow> 'a prog"
  | Ask addr request "bool \<Rightarrow> 'a prog"
  | NewUuid "uuid \<Rightarrow> 'a prog"
  | Alloc "addr \<Rightarrow> 'a prog"
  | TailProof addr "addr option \<Rightarrow> 'a prog"
  | SetTailProof addr addr "'a prog"
  | PlanCell addr "collection_candidate list option \<Rightarrow> 'a prog"
  | InitPlanCell addr "collection_candidate list" "collection_candidate list \<Rightarrow> 'a prog"
  | Next nat "nat \<Rightarrow> 'a prog"

text \<open>
  \<open>Delete\<close> is the single-object delete, \<open>None\<close> its success.
  \<open>Get\<close> carries the optional \<open>if_none_match\<close> tag. \<open>TailProof\<close>, \<open>SetTailProof\<close>, \<open>PlanCell\<close> and
  \<open>InitPlanCell\<close> are the two \<open>OnceLock\<close> cells of one \<open>ObservedState\<close>. \<open>Next n\<close> asks which of \<open>n\<close>
  outstanding futures completes next.
\<close>

primrec await :: "'a prog \<Rightarrow> ('a \<Rightarrow> 'b prog) \<Rightarrow> 'b prog" where
  "await (Done x) f = f x"
| "await (Get p t k) f = Get p t (\<lambda>r. await (k r) f)"
| "await (Put p b m k) f = Put p b m (\<lambda>r. await (k r) f)"
| "await (ListPrefix p k) f = ListPrefix p (\<lambda>r. await (k r) f)"
| "await (DeleteStream ps k) f = DeleteStream ps (\<lambda>r. await (k r) f)"
| "await (Delete p k) f = Delete p (\<lambda>r. await (k r) f)"
| "await (Ask g q k) f = Ask g q (\<lambda>r. await (k r) f)"
| "await (NewUuid k) f = NewUuid (\<lambda>r. await (k r) f)"
| "await (Alloc k) f = Alloc (\<lambda>r. await (k r) f)"
| "await (TailProof a k) f = TailProof a (\<lambda>r. await (k r) f)"
| "await (SetTailProof a d k) f = SetTailProof a d (await k f)"
| "await (PlanCell a k) f = PlanCell a (\<lambda>r. await (k r) f)"
| "await (InitPlanCell a c k) f = InitPlanCell a c (\<lambda>r. await (k r) f)"
| "await (Next n k) f = Next n (\<lambda>r. await (k r) f)"

type_synonym 'a action = "'a result prog"

definition succeed :: "'a \<Rightarrow> 'a action" where
  "succeed x = Done (Inr x)"

definition fail_with :: "error \<Rightarrow> 'a action" where
  "fail_with e = Done (Inl e)"

definition await_try :: "'a action \<Rightarrow> ('a \<Rightarrow> 'b action) \<Rightarrow> 'b action" where
  "await_try p f = await p (\<lambda>r. case r of Inl e \<Rightarrow> Done (Inl e) | Inr x \<Rightarrow> f x)"

definition attempt :: "'a result \<Rightarrow> ('a \<Rightarrow> 'b action) \<Rightarrow> 'b action" where
  "attempt r f = (case r of Inl e \<Rightarrow> Done (Inl e) | Inr x \<Rightarrow> f x)"

lemma await_Done [simp]: "await p Done = p"
  by (induction p) auto

lemma await_assoc: "await (await p f) g = await p (\<lambda>x. await (f x) g)"
  by (induction p) auto

lemma attempt_simps [simp]:
  "attempt (Inl e) f = Done (Inl e)"
  "attempt (Inr x) f = f x"
  by (simp_all add: attempt_def)

lemma await_try_Done [simp]:
  "await_try (Done (Inl e)) f = Done (Inl e)"
  "await_try (Done (Inr x)) f = f x"
  by (simp_all add: await_try_def)

lemma await_try_assoc: "await_try (await_try p f) g = await_try p (\<lambda>x. await_try (f x) g)"
proof -
  have "await (case r of Inl e \<Rightarrow> Done (Inl e) | Inr x \<Rightarrow> f x)
      (\<lambda>r. case r of Inl e \<Rightarrow> Done (Inl e) | Inr x \<Rightarrow> g x)
    = (case r of Inl e \<Rightarrow> Done (Inl e)
       | Inr x \<Rightarrow> await (f x) (\<lambda>r. case r of Inl e \<Rightarrow> Done (Inl e) | Inr x \<Rightarrow> g x))" for r
    by (cases r) auto
  then show ?thesis by (simp add: await_try_def await_assoc)
qed


section \<open>An in-memory store\<close>

text \<open>
  One private store with versioned objects and no failures, the admission decisions of the
  guards, and the cells of the process. Fresh identities are drawn from a counter.
\<close>

record memory =
  m_objects :: "(path \<times> bytes \<times> nat) list"
  m_clock :: nat
  m_fresh :: nat
  m_denied :: "addr list"
  m_tail_proofs :: "(addr \<times> addr) list"
  m_plans :: "(addr \<times> collection_candidate list) list"

definition memory_empty :: memory where
  "memory_empty = \<lparr>m_objects = [], m_clock = 0, m_fresh = 0, m_denied = [], m_tail_proofs = [], m_plans = []\<rparr>"

definition clock_version :: "nat \<Rightarrow> update_version" where
  "clock_version n = \<lparr>e_tag = Some (show_nat n), version = None\<rparr>"

definition memory_get :: "memory \<Rightarrow> path \<Rightarrow> string option \<Rightarrow> store_error + get_result" where
  "memory_get m p tag =
    (case map_of (m_objects m) p of
       None \<Rightarrow> Inl NotFound
     | Some (bs, v) \<Rightarrow>
         if tag = e_tag (clock_version v) then Inl NotModified
         else Inr \<lparr>gr_version = clock_version v, gr_size = of_nat (length bs), gr_chunks = [Inr bs]\<rparr>)"

definition memory_store :: "memory \<Rightarrow> path \<Rightarrow> bytes \<Rightarrow> memory" where
  "memory_store m p bs = m\<lparr>
    m_objects := (p, bs, m_clock m) # filter (\<lambda>x. fst x \<noteq> p) (m_objects m),
    m_clock := Suc (m_clock m)\<rparr>"

definition memory_put :: "memory \<Rightarrow> path \<Rightarrow> bytes \<Rightarrow> put_mode \<Rightarrow> (store_error + update_version) \<times> memory" where
  "memory_put m p bs mode =
    (case (mode, map_of (m_objects m) p) of
       (Create, Some _) \<Rightarrow> (Inl AlreadyExists, m)
     | (Update observed, None) \<Rightarrow> (Inl Precondition, m)
     | (Update observed, Some (_, v)) \<Rightarrow>
         if observed = clock_version v
         then (Inr (clock_version (m_clock m)), memory_store m p bs)
         else (Inl Precondition, m)
     | _ \<Rightarrow> (Inr (clock_version (m_clock m)), memory_store m p bs))"

definition memory_list :: "memory \<Rightarrow> path \<Rightarrow> (store_error + object_meta) list" where
  "memory_list m p =
    map (\<lambda>(q, bs, v). Inr \<lparr>om_location = q, om_size = of_nat (length bs)\<rparr>)
      (filter (\<lambda>x. strip_prefix p (fst x) \<noteq> None) (m_objects m))"

primrec run :: "'a prog \<Rightarrow> memory \<Rightarrow> 'a \<times> memory" where
  "run (Done x) m = (x, m)"
| "run (Get p t k) m = run (k (memory_get m p t)) m"
| "run (Put p b mode k) m = (case memory_put m p b mode of (r, m') \<Rightarrow> run (k r) m')"
| "run (ListPrefix p k) m = run (k (memory_list m p)) m"
| "run (DeleteStream ps k) m =
    run (k (map Inr ps)) (m\<lparr>m_objects := filter (\<lambda>x. fst x \<notin> set ps) (m_objects m)\<rparr>)"
| "run (Delete p k) m = run (k None) (m\<lparr>m_objects := filter (\<lambda>x. fst x \<noteq> p) (m_objects m)\<rparr>)"
| "run (Ask g q k) m = run (k (g \<notin> set (m_denied m))) m"
| "run (NewUuid k) m = run (k (of_nat (m_fresh m))) (m\<lparr>m_fresh := Suc (m_fresh m)\<rparr>)"
| "run (Alloc k) m = run (k (m_fresh m)) (m\<lparr>m_fresh := Suc (m_fresh m)\<rparr>)"
| "run (TailProof a k) m = run (k (map_of (m_tail_proofs m) a)) m"
| "run (SetTailProof a d k) m =
    run k (if map_of (m_tail_proofs m) a = None then m\<lparr>m_tail_proofs := (a, d) # m_tail_proofs m\<rparr> else m)"
| "run (PlanCell a k) m = run (k (map_of (m_plans m) a)) m"
| "run (InitPlanCell a c k) m =
    (case map_of (m_plans m) a of
       Some c' \<Rightarrow> run (k c') m
     | None \<Rightarrow> run (k c) (m\<lparr>m_plans := (a, c) # m_plans m\<rparr>))"
| "run (Next n k) m = run (k 0) m"

lemma run_await: "run (await p f) m = (case run p m of (x, m') \<Rightarrow> run (f x) m')"
  by (induction p arbitrary: m) (simp_all split: prod.splits option.splits)

end
