(* ===== verification/Scoped_Store.thy ===== *)
theory Scoped_Store
  imports Prog
begin

text \<open>
  The namespace-safe storage adapter \<^verbatim>\<open>src/src/store.rs\<close>: keys and their locations, admission
  by request guards, bounded and retried reads, conditional creates and updates, the scoped
  listing, batched deletes, and the capability probe.
\<close>


section \<open>Capabilities\<close>

datatype backend_capability =
    ConditionalCreate | ConditionalUpdate | ConditionalReads
  | ConsistentReadAfterWrite | PrefixList | RepeatableDelete

type_synonym capabilities = "backend_capability set"

definition REQUIRED :: "(backend_capability \<times> string) list" where
  "REQUIRED = [
    (ConditionalCreate, ''conditional create''),
    (ConditionalUpdate, ''conditional update''),
    (ConditionalReads, ''conditional read''),
    (ConsistentReadAfterWrite, ''consistent read after write''),
    (PrefixList, ''prefix listing''),
    (RepeatableDelete, ''repeatable delete'')]"

definition require_protocol :: "capabilities \<Rightarrow> unit result" where
  "require_protocol caps =
    try_for_each (\<lambda>(capability, name).
      if capability \<in> caps then Inr () else Inl (UnsupportedBackend name)) REQUIRED"


section \<open>Keys and locations\<close>

datatype store_key = HeadKey | Immutable immutable_key

fun segment :: "immutable_kind \<Rightarrow> string" where
  "segment KCommit = ''commits''"
| "segment KBlob = ''blobs''"
| "segment KNode = ''nodes''"
| "segment KCheckpoint = ''checkpoints''"
| "segment KCollectionPlan = ''collection-plans''"

definition from_segment :: "string \<Rightarrow> immutable_kind option" where
  "from_segment s =
    (if s = ''commits'' then Some KCommit
     else if s = ''blobs'' then Some KBlob
     else if s = ''nodes'' then Some KNode
     else if s = ''checkpoints'' then Some KCheckpoint
     else if s = ''collection-plans'' then Some KCollectionPlan
     else None)"

definition digest_to_string :: "externals \<Rightarrow> digest \<Rightarrow> string" where
  "digest_to_string E d = hex_encode E (digest_as_bytes d)"

definition digest_from_str :: "externals \<Rightarrow> string \<Rightarrow> digest result" where
  "digest_from_str E s =
    and_then (ok_or (hex_decode E s) InvalidDigest) (\<lambda>decoded.
    if length decoded = DIGEST_LEN then Inr (of_be_bytes decoded) else Inl InvalidDigest)"

record scoped_store =
  ss_scope :: path
  ss_log_id :: log_id
  ss_guards :: "addr list"

definition scoped_unvalidated :: "path \<Rightarrow> log_id \<Rightarrow> scoped_store" where
  "scoped_unvalidated root lid =
    \<lparr>ss_scope = root @ [''v1'', ''logs'', lid], ss_log_id = lid, ss_guards = []\<rparr>"

definition store_with_request_guard :: "scoped_store \<Rightarrow> addr \<Rightarrow> scoped_store" where
  "store_with_request_guard s guard_id = s\<lparr>ss_guards := ss_guards s @ [guard_id]\<rparr>"

definition immutable_location :: "externals \<Rightarrow> scoped_store \<Rightarrow> immutable_key \<Rightarrow> path" where
  "immutable_location E s key =
    ss_scope s @ [''data'', uuid_simple E (k_incarnation key), segment (k_kind key),
      uuid_simple E (k_storage_id key), digest_to_string E (k_digest key)]"

fun location :: "externals \<Rightarrow> scoped_store \<Rightarrow> store_key \<Rightarrow> path" where
  "location E s HeadKey = ss_scope s @ [''index.cbor'']"
| "location E s (Immutable key) = immutable_location E s key"

definition parse_simple_uuid :: "externals \<Rightarrow> string \<Rightarrow> uuid option" where
  "parse_simple_uuid E value =
    (case uuid_parse_str E value of
       None \<Rightarrow> None
     | Some u \<Rightarrow> if uuid_simple E u = value then Some u else None)"

definition classify_immutable :: "externals \<Rightarrow> path \<Rightarrow> path \<Rightarrow> immutable_key option" where
  "classify_immutable E scope loc =
    (case strip_prefix scope loc of
       Some [data, incarnation_text, kind_text, storage_text, digest_text] \<Rightarrow>
         if data \<noteq> ''data'' then None
         else (case (parse_simple_uuid E incarnation_text, from_segment kind_text,
                     parse_simple_uuid E storage_text, digest_from_str E digest_text) of
             (Some inc, Some kind, Some sid, Inr d) \<Rightarrow>
               if digest_to_string E d = digest_text then Some (ImmutableKey inc kind sid d) else None
           | _ \<Rightarrow> None)
     | _ \<Rightarrow> None)"


section \<open>Admission\<close>

text \<open>
  \<open>Guards\<close> chains two guards and stops at the first refusal; the chain of a store is the list of
  its guards in attachment order.
\<close>

fun ask_guards :: "addr list \<Rightarrow> request \<Rightarrow> unit action" where
  "ask_guards [] req = succeed ()"
| "ask_guards (g # gs) req = Ask g req (\<lambda>allowed. if allowed then ask_guards gs req else fail_with RequestDenied)"

definition admit :: "scoped_store \<Rightarrow> request \<Rightarrow> unit action" where
  "admit s req = ask_guards (ss_guards s) req"


section \<open>Collecting a response\<close>

record stored_object =
  so_bytes :: bytes
  so_version :: update_version

fun collect_chunks :: "externals \<Rightarrow> usize \<Rightarrow> bytes \<Rightarrow> (store_error + bytes) list \<Rightarrow> bytes result" where
  "collect_chunks E max_bytes bs [] = Inr bs"
| "collect_chunks E max_bytes bs (chunk # chunks) =
    and_then (map_err Store chunk) (\<lambda>chunk.
    and_then (ok_or (usize_checked_add (usize_MAX E) (length bs) (length chunk))
      (LimitExceeded ''read bytes'')) (\<lambda>next_len.
    if next_len > max_bytes then Inl (LimitExceeded ''read bytes'')
    else collect_chunks E max_bytes (bs @ chunk) chunks))"

definition collect_object :: "externals \<Rightarrow> get_result \<Rightarrow> usize \<Rightarrow> stored_object result" where
  "collect_object E r max_bytes =
    and_then (ok_or (u64_try_from max_bytes) (LimitExceeded ''read bytes'')) (\<lambda>max_bytes_u64.
    if gr_size r > max_bytes_u64 then Inl (LimitExceeded ''read bytes'')
    else
      and_then (ok_or (usize_try_from (usize_MAX E) (gr_size r)) (LimitExceeded ''read bytes'')) (\<lambda>_.
      and_then (collect_chunks E max_bytes [] (gr_chunks r)) (\<lambda>bs.
      Inr \<lparr>so_bytes = bs, so_version = gr_version r\<rparr>)))"

text \<open>The streaming hasher absorbs the chunks one by one; its digest is that of their concatenation.\<close>

fun integrity_chunks :: "u64 \<Rightarrow> bytes \<Rightarrow> u64 \<Rightarrow> (store_error + bytes) list \<Rightarrow> (bytes \<times> u64) result" where
  "integrity_chunks max_bytes absorbed len [] = Inr (absorbed, len)"
| "integrity_chunks max_bytes absorbed len (chunk # chunks) =
    and_then (map_err Store chunk) (\<lambda>chunk.
    and_then (ok_or (u64_try_from (length chunk)) (LimitExceeded ''read bytes'')) (\<lambda>n.
    and_then (ok_or (checked_add len n) (LimitExceeded ''read bytes'')) (\<lambda>len.
    if len > max_bytes then Inl (LimitExceeded ''read bytes'')
    else integrity_chunks max_bytes (absorbed @ chunk) len chunks)))"

definition collect_integrity :: "externals \<Rightarrow> get_result \<Rightarrow> usize \<Rightarrow> (digest \<times> u64) result" where
  "collect_integrity E r max_bytes =
    and_then (ok_or (u64_try_from max_bytes) (LimitExceeded ''read bytes'')) (\<lambda>max_bytes.
    if gr_size r > max_bytes then Inl (LimitExceeded ''read bytes'')
    else
      and_then (integrity_chunks max_bytes [] 0 (gr_chunks r)) (\<lambda>(absorbed, len).
      Inr (Digest_of E absorbed, len)))"


section \<open>Reads\<close>

definition SAFE_READ_ATTEMPTS :: nat where "SAFE_READ_ATTEMPTS = 3"

text \<open>\<open>retry_safe_read_from n\<close>: one attempt, with \<open>n\<close> further attempts allowed after it.\<close>

primrec retry_safe_read_from :: "nat \<Rightarrow> scoped_store \<Rightarrow> usize \<Rightarrow> 'a action \<Rightarrow> 'a action" where
  "retry_safe_read_from 0 s max_bytes read =
    await_try (admit s (Read max_bytes)) (\<lambda>_. await read Done)"
| "retry_safe_read_from (Suc n) s max_bytes read =
    await_try (admit s (Read max_bytes)) (\<lambda>_.
    await read (\<lambda>r.
      if r = Inl (Store Generic) then retry_safe_read_from n s max_bytes read else Done r))"

definition retry_safe_read :: "scoped_store \<Rightarrow> usize \<Rightarrow> 'a action \<Rightarrow> 'a action" where
  "retry_safe_read s max_bytes read = retry_safe_read_from (SAFE_READ_ATTEMPTS - 1) s max_bytes read"

definition read_with ::
    "externals \<Rightarrow> scoped_store \<Rightarrow> store_key \<Rightarrow> usize \<Rightarrow> (get_result \<Rightarrow> usize \<Rightarrow> 'a result) \<Rightarrow> 'a option action" where
  "read_with E s key max_bytes collect =
    retry_safe_read s max_bytes
      (Get (location E s key) None (\<lambda>r.
        case r of
          Inr result \<Rightarrow> attempt (collect result max_bytes) (\<lambda>x. succeed (Some x))
        | Inl NotFound \<Rightarrow> succeed None
        | Inl error \<Rightarrow> fail_with (Store error)))"

definition read :: "externals \<Rightarrow> scoped_store \<Rightarrow> store_key \<Rightarrow> usize \<Rightarrow> stored_object option action" where
  "read E s key max_bytes = read_with E s key max_bytes (collect_object E)"

definition read_integrity ::
    "externals \<Rightarrow> scoped_store \<Rightarrow> store_key \<Rightarrow> usize \<Rightarrow> (digest \<times> u64) option action" where
  "read_integrity E s key max_bytes = read_with E s key max_bytes (collect_integrity E)"

datatype conditional_read = Unmodified | Modified stored_object | Missing

definition read_if_changed ::
    "externals \<Rightarrow> scoped_store \<Rightarrow> store_key \<Rightarrow> update_version \<Rightarrow> usize \<Rightarrow> conditional_read action" where
  "read_if_changed E s key observed max_bytes =
    (case e_tag observed of
       None \<Rightarrow> fail_with (UnsupportedBackend ''conditional read'')
     | Some tag \<Rightarrow>
         retry_safe_read s max_bytes
           (Get (location E s key) (Some tag) (\<lambda>r.
             case r of
               Inr result \<Rightarrow> attempt (collect_object E result max_bytes) (\<lambda>x. succeed (Modified x))
             | Inl NotModified \<Rightarrow> succeed Unmodified
             | Inl NotFound \<Rightarrow> succeed Missing
             | Inl error \<Rightarrow> fail_with (Store error))))"


section \<open>Writes\<close>

definition create :: "externals \<Rightarrow> scoped_store \<Rightarrow> store_key \<Rightarrow> bytes \<Rightarrow> bool action" where
  "create E s key bs =
    await_try (admit s (Write (length bs))) (\<lambda>_.
    Put (location E s key) bs Create (\<lambda>r.
      case r of
        Inr _ \<Rightarrow> succeed True
      | Inl AlreadyExists \<Rightarrow> succeed False
      | Inl error \<Rightarrow> fail_with (Store error)))"

definition update ::
    "externals \<Rightarrow> scoped_store \<Rightarrow> store_key \<Rightarrow> bytes \<Rightarrow> update_version \<Rightarrow> update_version option action" where
  "update E s key bs observed =
    await_try (admit s (Write (length bs))) (\<lambda>_.
    Put (location E s key) bs (Update observed) (\<lambda>r.
      case r of
        Inr v \<Rightarrow> succeed (Some v)
      | Inl Precondition \<Rightarrow> succeed None
      | Inl AlreadyExists \<Rightarrow> succeed None
      | Inl error \<Rightarrow> fail_with (Store error)))"


section \<open>Listing and deletion\<close>

record listed_object =
  lo_immutable_key :: "immutable_key option"
  lo_size :: u64

text \<open>The stream admits its request when it is first polled, so a refusal is its first item.\<close>

definition list_scoped :: "externals \<Rightarrow> scoped_store \<Rightarrow> listed_object result list prog" where
  "list_scoped E s =
    await (admit s ListObjects) (\<lambda>r.
      case r of
        Inl e \<Rightarrow> Done [Inl e]
      | Inr _ \<Rightarrow>
          ListPrefix (ss_scope s) (\<lambda>items. Done (map (\<lambda>item.
            and_then (map_err Store item) (\<lambda>metadata.
            Inr \<lparr>lo_immutable_key = classify_immutable E (ss_scope s) (om_location metadata),
                 lo_size = om_size metadata\<rparr>)) items)))"

definition MAX_DELETE_BATCH :: usize where "MAX_DELETE_BATCH = 1000"

fun first_delete_error :: "(store_error + path) list \<Rightarrow> store_error option" where
  "first_delete_error [] = None"
| "first_delete_error (Inr p # rs) = first_delete_error rs"
| "first_delete_error (Inl e # rs) = (if e = NotFound then first_delete_error rs else Some e)"

definition delete_immutable_batch :: "externals \<Rightarrow> scoped_store \<Rightarrow> immutable_key list \<Rightarrow> unit action" where
  "delete_immutable_batch E s keys =
    (if length keys > MAX_DELETE_BATCH then fail_with (LimitExceeded ''immutable delete batch'')
     else if keys = [] then succeed ()
     else
       await_try (admit s (DeleteObjects (length keys))) (\<lambda>_.
       DeleteStream (map (immutable_location E s) keys) (\<lambda>results.
         case first_delete_error results of
           Some error \<Rightarrow> fail_with (Store error)
         | None \<Rightarrow> succeed ())))"


section \<open>The capability probe\<close>

definition is_unsupported :: "store_error \<Rightarrow> bool" where
  "is_unsupported e \<longleftrightarrow> e = NotSupported \<or> e = NotImplemented"

text \<open>The probe talks to the raw client: no admission, no retries.\<close>

definition raw_get :: "path \<Rightarrow> string option \<Rightarrow> (store_error + get_result) prog" where
  "raw_get loc tag = Get loc tag Done"

definition raw_put :: "path \<Rightarrow> bytes \<Rightarrow> put_mode \<Rightarrow> (store_error + update_version) prog" where
  "raw_put loc bs mode = Put loc bs mode Done"

definition get_collected :: "externals \<Rightarrow> path \<Rightarrow> usize \<Rightarrow> stored_object action" where
  "get_collected E loc max_bytes =
    await (raw_get loc None) (\<lambda>r.
    attempt (map_err Store r) (\<lambda>result.
    Done (collect_object E result max_bytes)))"

definition probe_conditional_update ::
    "externals \<Rightarrow> path \<Rightarrow> update_version \<Rightarrow> bytes \<Rightarrow> bytes \<Rightarrow> update_version option action" where
  "probe_conditional_update E loc first_version first_bytes second_bytes =
    await (raw_put loc second_bytes (Update first_version)) (\<lambda>r.
    case r of
      Inl error \<Rightarrow>
        if is_unsupported error \<or> error = Precondition then succeed None else fail_with (Store error)
    | Inr update_version \<Rightarrow>
        await (raw_put loc first_bytes (Update first_version)) (\<lambda>r.
        case r of
          Inr _ \<Rightarrow> succeed None
        | Inl error \<Rightarrow>
            if error = Precondition then
              await_try (get_collected E loc (length second_bytes)) (\<lambda>current.
              if so_bytes current \<noteq> second_bytes \<or> so_version current \<noteq> update_version then succeed None
              else succeed (Some update_version))
            else if is_unsupported error then succeed None
            else fail_with (Store error)))"

definition probe_unchanged :: "path \<Rightarrow> update_version \<Rightarrow> bool action" where
  "probe_unchanged loc first_version =
    (case e_tag first_version of
       None \<Rightarrow> succeed False
     | Some tag \<Rightarrow>
         await (raw_get loc (Some tag)) (\<lambda>r.
         case r of
           Inr _ \<Rightarrow> succeed False
         | Inl error \<Rightarrow>
             if error = NotModified then succeed True
             else if is_unsupported error then succeed False
             else fail_with (Store error)))"

definition probe_changed ::
    "externals \<Rightarrow> path \<Rightarrow> update_version \<Rightarrow> bytes \<Rightarrow> update_version \<Rightarrow> bool action" where
  "probe_changed E loc first_version second_bytes current_version =
    (case e_tag first_version of
       None \<Rightarrow> succeed False
     | Some tag \<Rightarrow>
         await (raw_get loc (Some tag)) (\<lambda>r.
         case r of
           Inr result \<Rightarrow>
             attempt (collect_object E result (length second_bytes)) (\<lambda>x.
             succeed (so_bytes x = second_bytes \<and> so_version x = current_version))
         | Inl error \<Rightarrow>
             if error = NotModified \<or> is_unsupported error then succeed False
             else fail_with (Store error)))"

definition ascii_bytes :: "string \<Rightarrow> bytes" where
  "ascii_bytes s = map (\<lambda>c. of_nat (of_char c)) s"

definition run_probe :: "externals \<Rightarrow> path \<Rightarrow> capabilities action" where
  "run_probe E loc =
    (let first_bytes = ascii_bytes ''object-log capability probe: first'';
         second_bytes = ascii_bytes ''object-log capability probe: second'' in
    await (raw_put loc first_bytes Create) (\<lambda>first_result.
    case first_result of
      Inl error \<Rightarrow> if is_unsupported error then succeed {} else fail_with (Store error)
    | Inr first_version \<Rightarrow>
        await (raw_put loc first_bytes Create) (\<lambda>second_result.
        attempt (case second_result of
             Inr _ \<Rightarrow> Inr {}
           | Inl error \<Rightarrow>
               if error = AlreadyExists then Inr {ConditionalCreate}
               else if is_unsupported error then Inr {}
               else Inl (Store error)) (\<lambda>supported.
        await_try (get_collected E loc (length first_bytes)) (\<lambda>stored.
        let supported = (if so_bytes stored = first_bytes
                         then insert ConsistentReadAfterWrite supported else supported) in
        await_try (probe_unchanged loc first_version) (\<lambda>unchanged.
        await_try (probe_conditional_update E loc first_version first_bytes second_bytes) (\<lambda>updated.
        await_try (case updated of
            Some v \<Rightarrow> succeed (insert ConditionalUpdate supported, v)
          | None \<Rightarrow> await (raw_put loc second_bytes Overwrite) (\<lambda>r.
              attempt (map_err Store r) (\<lambda>v. succeed (supported, v)))) (\<lambda>(supported, current_version).
        await_try (probe_changed E loc first_version second_bytes current_version) (\<lambda>changed.
        succeed (if unchanged \<and> changed then insert ConditionalReads supported else supported))))))))))"

fun scan_probe_listing :: "path \<Rightarrow> bool \<Rightarrow> (store_error + object_meta) list \<Rightarrow> bool result" where
  "scan_probe_listing loc found [] = Inr found"
| "scan_probe_listing loc found (Inr metadata # items) =
    scan_probe_listing loc (found \<or> om_location metadata = loc) items"
| "scan_probe_listing loc found (Inl error # items) =
    (if is_unsupported error then Inr False else Inl (Store error))"

definition probe_prefix_listing :: "path \<Rightarrow> path \<Rightarrow> bool action" where
  "probe_prefix_listing prefix loc = ListPrefix prefix (\<lambda>items. Done (scan_probe_listing loc False items))"

definition probe_delete_once :: "path \<Rightarrow> bool action" where
  "probe_delete_once loc =
    DeleteStream [loc] (\<lambda>results.
      case results of
        [] \<Rightarrow> succeed False
      | Inr deleted # _ \<Rightarrow> succeed (deleted = loc)
      | Inl error # _ \<Rightarrow>
          if error = NotFound then succeed True
          else if is_unsupported error then succeed False
          else fail_with (Store error))"

definition probe_repeatable_delete :: "path \<Rightarrow> bool action" where
  "probe_repeatable_delete loc =
    await_try (probe_delete_once loc) (\<lambda>deleted.
    if \<not> deleted then succeed False else probe_delete_once loc)"

definition delete_probe_object :: "path \<Rightarrow> unit action" where
  "delete_probe_object loc =
    Delete loc (\<lambda>r.
      case r of
        None \<Rightarrow> succeed ()
      | Some error \<Rightarrow>
          if error = NotFound \<or> is_unsupported error then succeed () else fail_with (Store error))"

definition probe_capabilities :: "externals \<Rightarrow> scoped_store \<Rightarrow> capabilities action" where
  "probe_capabilities E s =
    NewUuid (\<lambda>u.
    let prefix = ss_scope s @ [''.probe'']; loc = prefix @ [uuid_simple E u] in
    await (run_probe E loc) (\<lambda>r.
    case r of
      Inl error \<Rightarrow> await_try (delete_probe_object loc) (\<lambda>_. fail_with error)
    | Inr caps \<Rightarrow>
        await (probe_prefix_listing prefix loc) (\<lambda>r.
        case r of
          Inl error \<Rightarrow> await_try (delete_probe_object loc) (\<lambda>_. fail_with error)
        | Inr listed \<Rightarrow>
            let caps = (if listed then insert PrefixList caps else caps) in
            await (probe_repeatable_delete loc) (\<lambda>r.
            case r of
              Inl error \<Rightarrow> await_try (delete_probe_object loc) (\<lambda>_. fail_with error)
            | Inr True \<Rightarrow> succeed (insert RepeatableDelete caps)
            | Inr False \<Rightarrow> await_try (delete_probe_object loc) (\<lambda>_. succeed caps)))))"

record validated_backend =
  vb_root :: path
  vb_capabilities :: capabilities

definition ValidatedBackend_new :: "externals \<Rightarrow> path \<Rightarrow> validated_backend action" where
  "ValidatedBackend_new E root =
    NewUuid (\<lambda>u.
    attempt (LogId_new (''probe-'' @ uuid_simple E u)) (\<lambda>probe_id.
    await_try (probe_capabilities E (scoped_unvalidated root probe_id)) (\<lambda>caps.
    attempt (require_protocol caps) (\<lambda>_.
    succeed \<lparr>vb_root = root, vb_capabilities = caps\<rparr>))))"

definition assume_validated :: "path \<Rightarrow> validated_backend" where
  "assume_validated root = \<lparr>vb_root = root, vb_capabilities = set (map fst REQUIRED)\<rparr>"

definition backend_scope :: "validated_backend \<Rightarrow> log_id \<Rightarrow> scoped_store" where
  "backend_scope b lid = scoped_unvalidated (vb_root b) lid"

end
