(* ===== verification/Log_Core.thy ===== *)
theory Log_Core
  imports Scoped_Store
begin

text \<open>
  The core of \<^verbatim>\<open>src/src/log.rs\<close>: log handles, observed views, opening and loading the head,
  the validation of views, prepared commits and staged objects, physical keys, and the conditional
  head update every publication goes through.
\<close>


section \<open>Views and evidence\<close>

text \<open>
  A \<open>View\<close> shares one \<open>ObservedState\<close> among its clones: the address names its two cache cells.
  Staging domains are compared by identity only (\<open>Arc::ptr_eq\<close>).
\<close>

record view =
  v_observed :: addr
  v_head :: head
  v_version :: update_version

record staged_object =
  st_object :: object_ref
  st_domain :: addr
  st_collection_epoch :: u64

record prepared_commit =
  pc_view :: view
  pc_staging_domain :: addr
  pc_transaction_id :: transaction_id
  pc_storage_id :: storage_id
  pc_operation :: bytes
  pc_result :: bytes
  pc_objects :: "object_ref list"

record pending_commit =
  pd_prepared :: "prepared_commit option"
  pd_commit_ref :: commit_ref
  pd_token :: "bytes option"

record pending_checkpoint =
  pk_view :: view
  pk_staging_domain :: addr
  pk_through :: commit_ref
  pk_checkpoint :: checkpoint_ref

datatype commit_status = Committed view | Conflict view | Pending pending_commit

datatype resolution =
    ResolvedCommitted view | NotCommitted view | StillPending pending_commit | Expired view

datatype checkpoint_status =
    CheckpointPublished view | CheckpointConflict view | CheckpointPending pending_checkpoint

datatype checkpoint_resolution =
    CheckpointResolvedPublished view | CheckpointNotPublished view
  | CheckpointStillPending pending_checkpoint | CheckpointExpired view

datatype checkpoint_evidence =
    EvidencePublished view | EvidenceNotPublished view | EvidenceExpired view

datatype retention_status =
    RetentionApplied view | RetentionActiveCollection view | RetentionConflict view | RetentionPending

datatype head_publication =
    HeadUpdated view
  | HeadChanged (hc_current: view) (hc_attempted_generation: u64)
  | HeadContended view
  | HeadPending

text \<open>Storage refusal or failure cannot settle an uncertain publication.\<close>

definition publication_evidence :: "'a result \<Rightarrow> 'a option result" where
  "publication_evidence r =
    (case r of
       Inr x \<Rightarrow> Inr (Some x)
     | Inl (Store _) \<Rightarrow> Inr None
     | Inl RequestDenied \<Rightarrow> Inr None
     | Inl error \<Rightarrow> Inl error)"

lemma publication_evidence_Inr:
  "publication_evidence r = Inr x \<longleftrightarrow>
    (case r of Inr y \<Rightarrow> x = Some y | Inl e \<Rightarrow> x = None \<and> ((\<exists>s. e = Store s) \<or> e = RequestDenied))"
  by (auto simp: publication_evidence_def split: sum.splits error.splits)


section \<open>The handle\<close>

record log =
  lg_store :: scoped_store
  lg_options :: options
  lg_incarnation :: uuid
  lg_staging_domain :: addr

definition MAX_HEAD_PUBLICATION_ATTEMPTS :: nat where "MAX_HEAD_PUBLICATION_ATTEMPTS = 16"
definition MAX_CONCURRENT_READS :: nat where "MAX_CONCURRENT_READS = 32"
definition MAX_FRESH_OBJECT_ATTEMPTS :: nat where "MAX_FRESH_OBJECT_ATTEMPTS = 16"

definition new_view :: "head \<Rightarrow> update_version \<Rightarrow> view prog" where
  "new_view h ver = Alloc (\<lambda>a. Done \<lparr>v_observed = a, v_head = h, v_version = ver\<rparr>)"

definition validate_head_size :: "options \<Rightarrow> bytes \<Rightarrow> unit result" where
  "validate_head_size opts bs =
    guard (\<not> length bs > max_head_bytes opts) (LimitExceeded ''encoded head bytes'')"

definition head_from_stored ::
    "externals \<Rightarrow> scoped_store \<Rightarrow> options \<Rightarrow> stored_object \<Rightarrow> head result" where
  "head_from_stored E s opts stored =
    and_then (decode_head E (so_bytes stored)) (\<lambda>h.
    and_then (guard (log_id h = ss_log_id s) (invalid ''the durable head belongs to another log'')) (\<lambda>_.
    and_then (guard (options h = opts) (ConfigurationMismatch ''options'')) (\<lambda>_.
    Inr h)))"

definition load_existing_head ::
    "externals \<Rightarrow> scoped_store \<Rightarrow> options \<Rightarrow> (head \<times> update_version) action" where
  "load_existing_head E s opts =
    await_try (read E s HeadKey (max_head_bytes opts)) (\<lambda>found.
    attempt (ok_or found LogNotFound) (\<lambda>stored.
    attempt (head_from_stored E s opts stored) (\<lambda>h.
    succeed (h, so_version stored))))"

definition open_incarnation :: "externals \<Rightarrow> scoped_store \<Rightarrow> options \<Rightarrow> uuid action" where
  "open_incarnation E s opts =
    await_try (read E s HeadKey (max_head_bytes opts)) (\<lambda>found.
    case found of
      Some stored \<Rightarrow> attempt (head_from_stored E s opts stored) (\<lambda>h. succeed (incarnation h))
    | None \<Rightarrow>
        NewUuid (\<lambda>u.
        let initial = head_empty (ss_log_id s) u opts in
        attempt (encode_head E initial) (\<lambda>initial_bytes.
        attempt (validate_head_size opts initial_bytes) (\<lambda>_.
        await (create E s HeadKey initial_bytes) (\<lambda>created.
        case created of
          Inr True \<Rightarrow> succeed (incarnation initial)
        | Inr False \<Rightarrow>
            await_try (load_existing_head E s opts) (\<lambda>(h, _). succeed (incarnation h))
        | Inl create_error \<Rightarrow>
            await_try (read E s HeadKey (max_head_bytes opts)) (\<lambda>found.
            case found of
              Some stored \<Rightarrow> attempt (head_from_stored E s opts stored) (\<lambda>h. succeed (incarnation h))
            | None \<Rightarrow> fail_with create_error))))))"

definition open_log :: "externals \<Rightarrow> validated_backend \<Rightarrow> log_id \<Rightarrow> options \<Rightarrow> log action" where
  "open_log E backend lid opts =
    (let s = backend_scope backend lid in
    await_try (open_incarnation E s opts) (\<lambda>inc.
    Alloc (\<lambda>domain.
    succeed \<lparr>lg_store = s, lg_options = opts, lg_incarnation = inc, lg_staging_domain = domain\<rparr>)))"

definition open_existing_with_view ::
    "externals \<Rightarrow> validated_backend \<Rightarrow> log_id \<Rightarrow> options \<Rightarrow> (log \<times> view) action" where
  "open_existing_with_view E backend lid opts =
    (let s = backend_scope backend lid in
    await_try (load_existing_head E s opts) (\<lambda>(h, ver).
    Alloc (\<lambda>domain.
    await (new_view h ver) (\<lambda>v.
    succeed (\<lparr>lg_store = s, lg_options = opts, lg_incarnation = incarnation h,
              lg_staging_domain = domain\<rparr>, v)))))"

definition open_existing :: "externals \<Rightarrow> validated_backend \<Rightarrow> log_id \<Rightarrow> options \<Rightarrow> log action" where
  "open_existing E backend lid opts =
    await_try (open_existing_with_view E backend lid opts) (\<lambda>(lg, _). succeed lg)"

definition with_request_guard :: "log \<Rightarrow> addr \<Rightarrow> log" where
  "with_request_guard lg guard_id = lg\<lparr>lg_store := store_with_request_guard (lg_store lg) guard_id\<rparr>"

definition commit_read_window :: "log \<Rightarrow> usize \<Rightarrow> usize" where
  "commit_read_window lg cap =
    min cap (max (max_object_bytes (lg_options lg) div max (max_commit_bytes (lg_options lg)) 1) 1)"

definition view_from_stored :: "externals \<Rightarrow> log \<Rightarrow> stored_object \<Rightarrow> view action" where
  "view_from_stored E lg stored =
    attempt (decode_head E (so_bytes stored)) (\<lambda>h.
    attempt (guard (log_id h = ss_log_id (lg_store lg))
      (invalid ''the durable head belongs to another log'')) (\<lambda>_.
    attempt (guard (incarnation h = lg_incarnation lg)
      (invalid ''the durable head belongs to another log incarnation'')) (\<lambda>_.
    attempt (guard (options h = lg_options lg) (ConfigurationMismatch ''options'')) (\<lambda>_.
    await (new_view h (so_version stored)) succeed))))"

definition load :: "externals \<Rightarrow> log \<Rightarrow> view action" where
  "load E lg =
    await_try (read E (lg_store lg) HeadKey (max_head_bytes (lg_options lg))) (\<lambda>found.
    attempt (ok_or found (invalid ''the opened log has no durable head'')) (\<lambda>stored.
    view_from_stored E lg stored))"

definition validate_view :: "log \<Rightarrow> view \<Rightarrow> unit result" where
  "validate_view lg v =
    and_then (guard (log_id (v_head v) = ss_log_id (lg_store lg))
      (invalid ''the view belongs to another log'')) (\<lambda>_.
    and_then (guard (incarnation (v_head v) = lg_incarnation lg)
      (invalid ''the view belongs to another log incarnation'')) (\<lambda>_.
    guard (options (v_head v) = lg_options lg) (ConfigurationMismatch ''options'')))"

definition refresh :: "externals \<Rightarrow> log \<Rightarrow> view \<Rightarrow> view option action" where
  "refresh E lg v =
    attempt (validate_view lg v) (\<lambda>_.
    await_try (read_if_changed E (lg_store lg) HeadKey (v_version v) (max_head_bytes (lg_options lg)))
      (\<lambda>r.
      case r of
        Unmodified \<Rightarrow> succeed None
      | Modified stored \<Rightarrow> await_try (view_from_stored E lg stored) (\<lambda>v. succeed (Some v))
      | Missing \<Rightarrow> fail_with (invalid ''the opened log has no durable head'')))"


section \<open>Validation\<close>

definition validate_prepared_sizes :: "log \<Rightarrow> bytes \<Rightarrow> bytes \<Rightarrow> unit result" where
  "validate_prepared_sizes lg operation result =
    and_then (guard (\<not> length operation > max_inline_operation_bytes (lg_options lg))
      (LimitExceeded ''inline operation bytes'')) (\<lambda>_.
    guard (\<not> length result > max_inline_result_bytes (lg_options lg))
      (LimitExceeded ''inline result bytes''))"

definition validate_object_count :: "log \<Rightarrow> object_ref list \<Rightarrow> unit result" where
  "validate_object_count lg objects =
    guard (\<not> length objects > max_object_refs (lg_options lg)) (LimitExceeded ''object references'')"

definition publication_objects :: "externals \<Rightarrow> log \<Rightarrow> object_ref list \<Rightarrow> u64 result" where
  "publication_objects E lg objects =
    and_then (subtree_objects objects) (\<lambda>count.
    and_then (guard (case usize_try_from (usize_MAX E) count of
          None \<Rightarrow> False | Some n \<Rightarrow> n \<le> max_collection_objects (lg_options lg))
      (LimitExceeded ''publication objects'')) (\<lambda>_.
    Inr count))"

definition validate_dependencies :: "externals \<Rightarrow> log \<Rightarrow> object_ref list \<Rightarrow> unit result" where
  "validate_dependencies E lg objects =
    and_then (validate_object_count lg objects) (\<lambda>_.
    and_then (guard (\<not> list_ex (\<lambda>obj. or_kind obj = Checkpoint) objects)
      (invalid ''application dependencies cannot name a checkpoint'')) (\<lambda>_.
    and_then (publication_objects E lg objects) (\<lambda>_.
    Inr ())))"

definition staged :: "log \<Rightarrow> view \<Rightarrow> object_ref \<Rightarrow> staged_object" where
  "staged lg v obj =
    \<lparr>st_object = obj, st_domain = lg_staging_domain lg, st_collection_epoch = collection_epoch (v_head v)\<rparr>"

definition validate_staged_object :: "log \<Rightarrow> view \<Rightarrow> staged_object \<Rightarrow> unit result" where
  "validate_staged_object lg v obj =
    (if st_domain obj \<noteq> lg_staging_domain lg \<or> st_collection_epoch obj \<noteq> collection_epoch (v_head v)
     then Inl InvalidStagedObject else Inr ())"

definition validate_staged_objects :: "log \<Rightarrow> view \<Rightarrow> staged_object list \<Rightarrow> unit result" where
  "validate_staged_objects lg v objects =
    and_then (validate_view lg v) (\<lambda>_.
    and_then (guard (\<not> length objects > max_object_refs (lg_options lg))
      (LimitExceeded ''object references'')) (\<lambda>_.
    try_for_each (validate_staged_object lg v) objects))"

definition proof_matches :: "log \<Rightarrow> addr \<Rightarrow> bool" where
  "proof_matches lg proof_domain \<longleftrightarrow> proof_domain = lg_staging_domain lg"

definition validate_checkpoint_bytes :: "log \<Rightarrow> usize \<Rightarrow> unit result" where
  "validate_checkpoint_bytes lg len =
    and_then (guard (\<not> len > max_checkpoint_bytes (lg_options lg))
      (LimitExceeded ''encoded checkpoint bytes'')) (\<lambda>_.
    guard (\<not> len > max_object_bytes (lg_options lg)) (LimitExceeded ''object bytes''))"

definition validate_commit_position :: "log \<Rightarrow> view \<Rightarrow> transaction_id \<Rightarrow> unit result" where
  "validate_commit_position lg v tid =
    and_then (guard (\<not> length (tail (v_head v)) \<ge> max_tail_entries (lg_options lg))
      (LimitExceeded ''active tail entries'')) (\<lambda>_.
    guard (\<not> list_ex (\<lambda>entry. cr_transaction_id entry = tid)
        (tail (v_head v) @ recent_outcomes (v_head v)))
      (invalid ''the transaction ID is already committed''))"

definition validate_prepared :: "externals \<Rightarrow> log \<Rightarrow> prepared_commit \<Rightarrow> unit result" where
  "validate_prepared E lg p =
    and_then (validate_view lg (pc_view p)) (\<lambda>_.
    and_then (validate_prepared_sizes lg (pc_operation p) (pc_result p)) (\<lambda>_.
    and_then (validate_dependencies E lg (pc_objects p)) (\<lambda>_.
    validate_commit_position lg (pc_view p) (pc_transaction_id p))))"

definition preflight :: "log \<Rightarrow> view \<Rightarrow> transaction_id \<Rightarrow> unit result" where
  "preflight lg v tid =
    and_then (validate_view lg v) (\<lambda>_. validate_commit_position lg v tid)"

definition prepare ::
    "externals \<Rightarrow> log \<Rightarrow> view \<Rightarrow> transaction_id \<Rightarrow> bytes \<Rightarrow> bytes \<Rightarrow> staged_object list
      \<Rightarrow> prepared_commit action" where
  "prepare E lg v tid operation result objects =
    attempt (validate_staged_objects lg v objects) (\<lambda>_.
    attempt (publication_objects E lg (map st_object objects)) (\<lambda>_.
    attempt (validate_prepared_sizes lg operation result) (\<lambda>_.
    attempt (validate_commit_position lg v tid) (\<lambda>_.
    NewUuid (\<lambda>sid.
    succeed \<lparr>pc_view = v, pc_staging_domain = lg_staging_domain lg, pc_transaction_id = tid,
             pc_storage_id = sid, pc_operation = operation, pc_result = result,
             pc_objects = map st_object objects\<rparr>)))))"


section \<open>Physical keys\<close>

definition object_immutable_key :: "log \<Rightarrow> object_ref \<Rightarrow> immutable_key" where
  "object_immutable_key lg obj =
    ImmutableKey (lg_incarnation lg)
      (case or_kind obj of Blob \<Rightarrow> KBlob | Node \<Rightarrow> KNode | Checkpoint \<Rightarrow> KCheckpoint)
      (or_storage_id obj) (or_digest obj)"

definition object_key :: "log \<Rightarrow> object_ref \<Rightarrow> store_key" where
  "object_key lg obj = Immutable (object_immutable_key lg obj)"

definition commit_immutable_key :: "log \<Rightarrow> commit_ref \<Rightarrow> immutable_key" where
  "commit_immutable_key lg c = ImmutableKey (lg_incarnation lg) KCommit (cr_storage_id c) (cr_digest c)"

definition commit_key :: "log \<Rightarrow> commit_ref \<Rightarrow> store_key" where
  "commit_key lg c = Immutable (commit_immutable_key lg c)"

definition collection_plan_key :: "uuid \<Rightarrow> plan_ref \<Rightarrow> immutable_key" where
  "collection_plan_key inc p = ImmutableKey inc KCollectionPlan (pl_storage_id p) (pl_digest p)"


section \<open>Candidates\<close>

definition encode_prepared :: "externals \<Rightarrow> log \<Rightarrow> prepared_commit \<Rightarrow> (commit_ref \<times> bytes) result" where
  "encode_prepared E lg p =
    (let bs = encode_commit E \<lparr>
           cm_log_id = ss_log_id (lg_store lg),
           cm_incarnation = lg_incarnation lg,
           cm_transaction_id = pc_transaction_id p,
           cm_expected_tip = tip (v_head (pc_view p)),
           cm_operation = pc_operation p,
           cm_result = pc_result p,
           cm_objects = pc_objects p \<rparr> in
    and_then (guard (\<not> length bs > max_commit_bytes (lg_options lg))
      (LimitExceeded ''encoded commit bytes'')) (\<lambda>_.
    and_then (ok_or (u64_try_from (length bs)) (LimitExceeded ''commit byte length'')) (\<lambda>len.
    Inr (\<lparr>cr_sequence = next_sequence (v_head (pc_view p)),
          cr_transaction_id = pc_transaction_id p,
          cr_storage_id = pc_storage_id p,
          cr_digest = Digest_of E bs,
          cr_len = len\<rparr>, bs))))"

definition validate_pending :: "externals \<Rightarrow> log \<Rightarrow> pending_commit \<Rightarrow> unit result" where
  "validate_pending E lg pending =
    and_then (ok_or (pd_prepared pending) (invalid ''pending commit has no prepared candidate'')) (\<lambda>p.
    and_then (validate_view lg (pc_view p)) (\<lambda>_.
    and_then (validate_prepared_sizes lg (pc_operation p) (pc_result p)) (\<lambda>_.
    and_then (validate_dependencies E lg (pc_objects p)) (\<lambda>_.
    and_then (guard (\<not> length (tail (v_head (pc_view p))) \<ge> max_tail_entries (lg_options lg))
      (LimitExceeded ''active tail entries'')) (\<lambda>_.
    and_then (encode_prepared E lg p) (\<lambda>(expected_ref, _).
    guard (expected_ref = pd_commit_ref pending)
      (invalid ''pending commit evidence does not match its candidate'')))))))"

definition encode_recovery_token :: "externals \<Rightarrow> prepared_commit \<Rightarrow> bytes result" where
  "encode_recovery_token E p =
    (let h = v_head (pc_view p) in
    and_then (encode_head E h) (\<lambda>head_bytes.
    and_then (publication_base_digest E h) (\<lambda>base_digest.
    and_then (options_digest E (options h)) (\<lambda>opts_digest.
    Inr (token_encode E \<lparr>
      rt_head_digest = Digest_of E head_bytes,
      rt_publication_base_digest = base_digest,
      rt_version = v_version (pc_view p),
      rt_generation = generation h,
      rt_next_sequence = next_sequence h,
      rt_tip = tip h,
      rt_log_id = log_id h,
      rt_incarnation = incarnation h,
      rt_options_digest = opts_digest,
      rt_transaction_id = pc_transaction_id p,
      rt_operation = pc_operation p,
      rt_result = pc_result p,
      rt_objects = pc_objects p,
      rt_storage_id = pc_storage_id p \<rparr>)))))"

definition pending_recovery_token :: "externals \<Rightarrow> pending_commit \<Rightarrow> bytes result" where
  "pending_recovery_token E pending =
    (case (pd_prepared pending, pd_token pending) of
       (Some p, _) \<Rightarrow> encode_recovery_token E p
     | (None, Some token) \<Rightarrow> Inr token
     | (None, None) \<Rightarrow> Inl (InvalidFormat ''pending commit has no recovery evidence''))"

record recovery_record =
  rr_transaction_id :: transaction_id
  rr_result :: bytes

definition inspect_recovery_token :: "externals \<Rightarrow> bytes \<Rightarrow> recovery_record result" where
  "inspect_recovery_token E token =
    and_then (decode_recovery_token E token) (\<lambda>recovered.
    Inr \<lparr>rr_transaction_id = rt_transaction_id recovered, rr_result = rt_result recovered\<rparr>)"


section \<open>The head update\<close>

definition update_head :: "externals \<Rightarrow> log \<Rightarrow> view \<Rightarrow> head \<Rightarrow> view option action" where
  "update_head E lg current candidate =
    attempt (encode_head E candidate) (\<lambda>bs.
    attempt (validate_head_size (lg_options lg) bs) (\<lambda>_.
    await_try (update E (lg_store lg) HeadKey bs (v_version current)) (\<lambda>updated.
    case updated of
      None \<Rightarrow> succeed None
    | Some ver \<Rightarrow> await (new_view candidate ver) (\<lambda>v. succeed (Some v)))))"

end
