(* ===== verification/Log_Read.thy ===== *)
theory Log_Read
  imports Log_Core
begin

text \<open>
  Reading and verifying immutable data (\<^verbatim>\<open>src/src/log.rs\<close>): objects, nodes, commits with
  their parent chain, checkpoints, the active collection plan and its cached candidates, and the
  bounded graph walk that authenticates everything a publication or a collection depends on.

  The stream combinators run several reads at once but deliver their results in order; the model
  performs them one after the other. In the graph walk, where completion order is observable,
  \<open>Next\<close> chooses the read that completes.
\<close>


section \<open>Objects\<close>

definition verify_object :: "externals \<Rightarrow> object_ref \<Rightarrow> bytes \<Rightarrow> unit result" where
  "verify_object E obj bs =
    and_then (validate_count obj) (\<lambda>_.
    and_then (ok_or (u64_try_from (length bs)) (LimitExceeded ''object byte length'')) (\<lambda>actual_len.
    if actual_len \<noteq> or_len obj \<or> Digest_of E bs \<noteq> or_digest obj then Inl CorruptObject else Inr ()))"

definition read_immutable_optional :: "externals \<Rightarrow> log \<Rightarrow> object_ref \<Rightarrow> bytes option action" where
  "read_immutable_optional E lg obj =
    attempt (ok_or (usize_try_from (usize_MAX E) (or_len obj)) (LimitExceeded ''object byte length''))
      (\<lambda>declared_len.
    attempt (guard (\<not> declared_len > max_object_bytes (lg_options lg)) (LimitExceeded ''object bytes''))
      (\<lambda>_.
    await_try (read E (lg_store lg) (object_key lg obj) declared_len) (\<lambda>found.
    case found of
      None \<Rightarrow> succeed None
    | Some stored \<Rightarrow>
        attempt (verify_object E obj (so_bytes stored)) (\<lambda>_.
        succeed (Some (so_bytes stored))))))"

definition read_immutable :: "externals \<Rightarrow> log \<Rightarrow> object_ref \<Rightarrow> bytes action" where
  "read_immutable E lg obj =
    await_try (read_immutable_optional E lg obj) (\<lambda>found.
    attempt (ok_or found (invalid ''a referenced object is missing'')) succeed)"

text \<open>The outer result is the failure to decide, the inner value the error to report.\<close>

definition missing_read_error :: "externals \<Rightarrow> log \<Rightarrow> view \<Rightarrow> error action" where
  "missing_read_error E lg v =
    await_try (load E lg) (\<lambda>current.
    if collection_epoch (v_head current) > collection_epoch (v_head v) then succeed ViewExpired
    else if collection_epoch (v_head current) = collection_epoch (v_head v) then succeed CorruptObject
    else fail_with (invalid ''the durable collection epoch precedes the supplied view''))"

definition read_immutable_for_view :: "externals \<Rightarrow> log \<Rightarrow> view \<Rightarrow> object_ref \<Rightarrow> bytes action" where
  "read_immutable_for_view E lg v obj =
    await_try (read_immutable_optional E lg obj) (\<lambda>found.
    case found of
      Some bs \<Rightarrow> succeed bs
    | None \<Rightarrow> await_try (missing_read_error E lg v) fail_with)"

definition read_object :: "externals \<Rightarrow> log \<Rightarrow> view \<Rightarrow> object_ref \<Rightarrow> bytes action" where
  "read_object E lg v obj =
    attempt (validate_view lg v) (\<lambda>_.
    attempt (guard (or_kind obj = Blob) (invalid ''a payload read requires a blob reference'')) (\<lambda>_.
    read_immutable_for_view E lg v obj))"

definition decode_node_reference :: "externals \<Rightarrow> log \<Rightarrow> object_ref \<Rightarrow> bytes \<Rightarrow> node result" where
  "decode_node_reference E lg obj bs =
    and_then (decode_node E bs (lg_options lg)) (\<lambda>n.
    and_then (subtree_objects (nd_children n)) (\<lambda>count.
    if or_subtree_objects obj \<noteq> count then Inl CorruptObject else Inr n))"

definition read_node :: "externals \<Rightarrow> log \<Rightarrow> view \<Rightarrow> object_ref \<Rightarrow> node action" where
  "read_node E lg v obj =
    attempt (validate_view lg v) (\<lambda>_.
    attempt (guard (or_kind obj = Node) (invalid ''a node read requires a reference-node object'')) (\<lambda>_.
    await_try (read_immutable_for_view E lg v obj) (\<lambda>bs.
    attempt (decode_node_reference E lg obj bs) succeed)))"

definition read_staged_node ::
    "externals \<Rightarrow> log \<Rightarrow> view \<Rightarrow> staged_object \<Rightarrow> (bytes \<times> staged_object list) action" where
  "read_staged_node E lg v obj =
    attempt (validate_view lg v) (\<lambda>_.
    attempt (validate_staged_object lg v obj) (\<lambda>_.
    await_try (read_node E lg v (st_object obj)) (\<lambda>n.
    succeed (nd_payload n, map (staged lg v) (nd_children n)))))"

definition verify_object_durable :: "externals \<Rightarrow> log \<Rightarrow> object_ref \<Rightarrow> unit action" where
  "verify_object_durable E lg obj =
    attempt (ok_or (usize_try_from (usize_MAX E) (or_len obj)) (LimitExceeded ''object byte length''))
      (\<lambda>declared_len.
    attempt (guard (\<not> declared_len > max_object_bytes (lg_options lg)) (LimitExceeded ''object bytes''))
      (\<lambda>_.
    await_try (read_integrity E (lg_store lg) (object_key lg obj) declared_len) (\<lambda>found.
    attempt (ok_or found (invalid ''a referenced object is missing'')) (\<lambda>(d, len).
    if d \<noteq> or_digest obj \<or> len \<noteq> or_len obj then fail_with CorruptObject else succeed ()))))"


section \<open>Commits\<close>

record commit_record =
  rc_reference :: commit_ref
  rc_expected_tip :: "digest option"
  rc_operation :: bytes
  rc_result :: bytes
  rc_objects :: "object_ref list"

definition check_commit ::
    "externals \<Rightarrow> log \<Rightarrow> commit_ref \<Rightarrow> bytes \<Rightarrow> commit_record result" where
  "check_commit E lg reference bs =
    and_then (ok_or (u64_try_from (length bs)) (LimitExceeded ''commit byte length'')) (\<lambda>len.
    and_then (guard (\<not> (len \<noteq> cr_len reference \<or> Digest_of E bs \<noteq> cr_digest reference)) CorruptObject)
      (\<lambda>_.
    and_then (decode_commit E bs) (\<lambda>c.
    and_then (validate_prepared_sizes lg (cm_operation c) (cm_result c)) (\<lambda>_.
    and_then (validate_dependencies E lg (cm_objects c)) (\<lambda>_.
    and_then (guard (\<not> (cm_log_id c \<noteq> ss_log_id (lg_store lg) \<or> cm_incarnation c \<noteq> lg_incarnation lg
        \<or> cm_transaction_id c \<noteq> cr_transaction_id reference))
      (invalid ''a commit does not match its head reference'')) (\<lambda>_.
    Inr \<lparr>rc_reference = reference, rc_expected_tip = cm_expected_tip c,
         rc_operation = cm_operation c, rc_result = cm_result c, rc_objects = cm_objects c\<rparr>))))))"

definition read_commit_optional :: "externals \<Rightarrow> log \<Rightarrow> commit_ref \<Rightarrow> commit_record option action" where
  "read_commit_optional E lg reference =
    attempt (ok_or (u64_try_from (max_commit_bytes (lg_options lg)))
      (LimitExceeded ''encoded commit bytes'')) (\<lambda>limit.
    attempt (guard (\<not> cr_len reference > limit) (LimitExceeded ''encoded commit bytes'')) (\<lambda>_.
    attempt (ok_or (usize_try_from (usize_MAX E) (cr_len reference))
      (LimitExceeded ''commit byte length'')) (\<lambda>declared_len.
    await (read E (lg_store lg) (commit_key lg reference) declared_len) (\<lambda>r.
    attempt (map_err (\<lambda>error. if error = LimitExceeded ''read bytes'' then CorruptObject else error) r)
      (\<lambda>found.
    case found of
      None \<Rightarrow> succeed None
    | Some stored \<Rightarrow>
        attempt (check_commit E lg reference (so_bytes stored)) (\<lambda>record. succeed (Some record)))))))"

definition read_commit :: "externals \<Rightarrow> log \<Rightarrow> commit_ref \<Rightarrow> commit_record action" where
  "read_commit E lg reference =
    await_try (read_commit_optional E lg reference) (\<lambda>found.
    attempt (ok_or found (invalid ''a referenced commit is missing'')) succeed)"

text \<open>
  \<open>fold_tail\<close> consumes \<open>tail_records\<close>: every reference in order, the expected parent threaded
  through, the consumer applied to each record.
\<close>

fun fold_tail ::
    "externals \<Rightarrow> log \<Rightarrow> view \<Rightarrow> ('s \<Rightarrow> commit_record \<Rightarrow> 's result) \<Rightarrow> digest option \<Rightarrow> 's
      \<Rightarrow> commit_ref list \<Rightarrow> 's action" where
  "fold_tail E lg v f expected_tip s [] = succeed s"
| "fold_tail E lg v f expected_tip s (reference # references) =
    await_try (read_commit_optional E lg reference) (\<lambda>found.
    case found of
      None \<Rightarrow> await_try (missing_read_error E lg v) fail_with
    | Some record \<Rightarrow>
        attempt (guard (rc_expected_tip record = expected_tip)
          (invalid ''the commit tail has a broken parent chain'')) (\<lambda>_.
        attempt (f s record) (\<lambda>s.
        fold_tail E lg v f (Some (cr_digest (rc_reference record))) s references)))"

definition tail_records ::
    "externals \<Rightarrow> log \<Rightarrow> view \<Rightarrow> ('s \<Rightarrow> commit_record \<Rightarrow> 's result) \<Rightarrow> 's \<Rightarrow> 's action" where
  "tail_records E lg v f s =
    attempt (validate_view lg v) (\<lambda>_.
    fold_tail E lg v f (map_option cp_through_commit (checkpoint (v_head v))) s (tail (v_head v)))"

definition remember_tail :: "log \<Rightarrow> view \<Rightarrow> unit prog" where
  "remember_tail lg v = SetTailProof (v_observed v) (lg_staging_domain lg) (Done ())"

definition tail_is_verified :: "log \<Rightarrow> view \<Rightarrow> bool prog" where
  "tail_is_verified lg v =
    TailProof (v_observed v) (\<lambda>p.
      Done (case p of None \<Rightarrow> False | Some domain \<Rightarrow> proof_matches lg domain))"

definition verify_tail :: "externals \<Rightarrow> log \<Rightarrow> view \<Rightarrow> unit action" where
  "verify_tail E lg v =
    attempt (validate_view lg v) (\<lambda>_.
    await (tail_is_verified lg v) (\<lambda>verified.
    if verified then succeed ()
    else
      await_try (tail_records E lg v (\<lambda>_ _. Inr ()) ()) (\<lambda>_.
      await (remember_tail lg v) succeed)))"

definition read_tail :: "externals \<Rightarrow> log \<Rightarrow> view \<Rightarrow> commit_record list action" where
  "read_tail E lg v =
    await_try (tail_records E lg v (\<lambda>records record. Inr (records @ [record])) []) (\<lambda>records.
    await (remember_tail lg v) (\<lambda>_. succeed records))"

definition read_tail_record_optional ::
    "externals \<Rightarrow> log \<Rightarrow> view \<Rightarrow> usize \<Rightarrow> commit_record option action" where
  "read_tail_record_optional E lg v index =
    attempt (validate_view lg v) (\<lambda>_.
    attempt (if index < length (tail (v_head v)) then Inr (tail (v_head v) ! index)
         else Inl (invalid ''history cursor exceeds the active tail'')) (\<lambda>reference.
    let expected_tip = (if index = 0 then map_option cp_through_commit (checkpoint (v_head v))
                        else Some (cr_digest (tail (v_head v) ! (index - 1)))) in
    await_try (read_commit_optional E lg reference) (\<lambda>found.
    case found of
      None \<Rightarrow> succeed None
    | Some record \<Rightarrow>
        attempt (guard (rc_expected_tip record = expected_tip)
          (invalid ''the commit tail has a broken parent chain'')) (\<lambda>_.
        succeed (Some record)))))"

definition read_tail_record :: "externals \<Rightarrow> log \<Rightarrow> view \<Rightarrow> usize \<Rightarrow> commit_record action" where
  "read_tail_record E lg v index =
    await_try (read_tail_record_optional E lg v index) (\<lambda>found.
    case found of
      Some record \<Rightarrow> succeed record
    | None \<Rightarrow> await_try (missing_read_error E lg v) fail_with)"


section \<open>Checkpoints\<close>

record checkpoint_record =
  rk_snapshot :: bytes
  rk_objects :: "object_ref list"

definition decode_checkpoint_reference ::
    "externals \<Rightarrow> log \<Rightarrow> checkpoint_ref \<Rightarrow> bytes \<Rightarrow> checkpoint_object result" where
  "decode_checkpoint_reference E lg reference bs =
    and_then (decode_checkpoint E bs) (\<lambda>c.
    and_then (validate_dependencies E lg (ck_objects c)) (\<lambda>_.
    and_then (subtree_objects (ck_objects c)) (\<lambda>count.
    and_then (guard (or_subtree_objects (cp_object reference) = count) CorruptObject) (\<lambda>_.
    if ck_log_id c \<noteq> ss_log_id (lg_store lg) \<or> ck_incarnation c \<noteq> lg_incarnation lg
       \<or> ck_through_sequence c \<noteq> cp_through_sequence reference
       \<or> ck_through_commit c \<noteq> cp_through_commit reference
    then Inl (invalid ''a checkpoint does not match its index reference'') else Inr c))))"

definition load_checkpoint :: "externals \<Rightarrow> log \<Rightarrow> checkpoint_ref \<Rightarrow> checkpoint_object action" where
  "load_checkpoint E lg reference =
    await_try (read_immutable E lg (cp_object reference)) (\<lambda>bs.
    attempt (decode_checkpoint_reference E lg reference bs) succeed)"

definition load_checkpoint_for_view ::
    "externals \<Rightarrow> log \<Rightarrow> view \<Rightarrow> checkpoint_ref \<Rightarrow> checkpoint_object action" where
  "load_checkpoint_for_view E lg v reference =
    await_try (read_immutable_for_view E lg v (cp_object reference)) (\<lambda>bs.
    attempt (decode_checkpoint_reference E lg reference bs) succeed)"

definition read_checkpoint :: "externals \<Rightarrow> log \<Rightarrow> view \<Rightarrow> checkpoint_record option action" where
  "read_checkpoint E lg v =
    attempt (validate_view lg v) (\<lambda>_.
    case checkpoint (v_head v) of
      None \<Rightarrow> succeed None
    | Some reference \<Rightarrow>
        attempt (ok_or (usize_try_from (usize_MAX E) (or_len (cp_object reference)))
          (LimitExceeded ''checkpoint byte length'')) (\<lambda>declared_len.
        attempt (validate_checkpoint_bytes lg declared_len) (\<lambda>_.
        await_try (load_checkpoint_for_view E lg v reference) (\<lambda>c.
        succeed (Some \<lparr>rk_snapshot = ck_snapshot c, rk_objects = ck_objects c\<rparr>)))))"


section \<open>The active collection plan\<close>

definition read_collection_plan :: "externals \<Rightarrow> log \<Rightarrow> head \<Rightarrow> plan_ref \<Rightarrow> collection_plan action" where
  "read_collection_plan E lg h reference =
    attempt (ok_or (usize_try_from (usize_MAX E) (pl_len reference))
      (LimitExceeded ''collection plan byte length'')) (\<lambda>declared_len.
    attempt (guard (\<not> declared_len > max_collection_plan_bytes (lg_options lg))
      (LimitExceeded ''encoded collection plan bytes'')) (\<lambda>_.
    let key = collection_plan_key (incarnation h) reference in
    await_try (read E (lg_store lg) (Immutable key) declared_len) (\<lambda>found.
    case found of
      None \<Rightarrow>
        await_try (load E lg) (\<lambda>current.
        let c = v_head current in
        if generation c > generation h \<and> active_plan c \<noteq> Some reference
           \<and> (collection_epoch c > collection_epoch h
              \<or> (collection_epoch c = collection_epoch h \<and> active_plan c = None))
        then fail_with ViewExpired
        else fail_with (invalid ''the active collection plan is missing''))
    | Some stored \<Rightarrow>
        attempt (guard (\<not> (length (so_bytes stored) \<noteq> declared_len
            \<or> Digest_of E (so_bytes stored) \<noteq> pl_digest reference)) CorruptObject) (\<lambda>_.
        attempt (decode_collection_plan E (so_bytes stored) (lg_options lg)) (\<lambda>plan.
        attempt (guard (\<not> (cl_log_id plan \<noteq> ss_log_id (lg_store lg)
            \<or> cl_collection_epoch plan \<noteq> collection_epoch h))
          (invalid ''the collection plan does not match its head fence'')) (\<lambda>_.
        succeed plan))))))"

text \<open>
  The cell is checked, locked, and checked again before the plan is read; the lock only keeps a
  second loader of the same process waiting, so the model reads the cell twice.
\<close>

definition active_collection_candidates ::
    "externals \<Rightarrow> log \<Rightarrow> view \<Rightarrow> collection_candidate list option action" where
  "active_collection_candidates E lg v =
    (case active_plan (v_head v) of
       None \<Rightarrow> succeed None
     | Some reference \<Rightarrow>
         PlanCell (v_observed v) (\<lambda>cached.
         case cached of
           Some candidates \<Rightarrow> succeed (Some candidates)
         | None \<Rightarrow>
             PlanCell (v_observed v) (\<lambda>cached.
             case cached of
               Some candidates \<Rightarrow> succeed (Some candidates)
             | None \<Rightarrow>
                 await_try (read_collection_plan E lg (v_head v) reference) (\<lambda>plan.
                 InitPlanCell (v_observed v) (cl_candidates plan) (\<lambda>candidates.
                 succeed (Some candidates))))))"

text \<open>\<open>binary_search_by_key\<close> on the sorted candidates of a plan.\<close>

function search_candidate :: "collection_candidate list \<Rightarrow> immutable_key \<Rightarrow> nat \<Rightarrow> nat \<Rightarrow> bool" where
  "search_candidate candidates key lo hi =
    (if hi \<le> lo then False
     else
       let mid = lo + (hi - lo) div 2; found = cc_key (candidates ! mid) in
       if found = key then True
       else if found < key then search_candidate candidates key (Suc mid) hi
       else search_candidate candidates key lo mid)"
  by pat_completeness auto
termination
  by (relation "measure (\<lambda>(_, _, lo, hi). hi - lo)") auto

declare search_candidate.simps [simp del]

definition is_collection_candidate :: "collection_candidate list \<Rightarrow> immutable_key \<Rightarrow> bool" where
  "is_collection_candidate candidates key = search_candidate candidates key 0 (length candidates)"

definition is_blocked :: "collection_candidate list option \<Rightarrow> immutable_key \<Rightarrow> bool" where
  "is_blocked blocked key =
    (case blocked of None \<Rightarrow> False | Some candidates \<Rightarrow> is_collection_candidate candidates key)"

end
