(* ===== verification/Log_Graph.thy ===== *)
theory Log_Graph
  imports Log_Read
begin

text \<open>
  The bounded walk over the object graph (\<open>mark_object_graph\<close> of \<^verbatim>\<open>src/src/log.rs\<close>) and what rests
  on it: the verification of a publication's dependencies and the marking of live objects before a
  collection. The visited table is an association list, whose length is the size of the
  \<open>HashMap\<close>. \<open>fill\<close> is the inner loop that starts reads; a started read is its declared size and its
  object, and its requests are issued when \<open>Next\<close> completes it.
\<close>


section \<open>The walk\<close>

datatype graph_walk = Reachability | VerifyBlobs

type_synonym visited = "(immutable_key \<times> (u64 \<times> u64)) list"

definition enqueue_object ::
    "externals \<Rightarrow> log \<Rightarrow> collection_candidate list option \<Rightarrow> object_ref
      \<Rightarrow> visited \<times> object_ref list \<Rightarrow> (visited \<times> object_ref list) result" where
  "enqueue_object E lg blocked obj = (\<lambda>(visited, pending).
    and_then (guard (or_kind obj \<noteq> Checkpoint)
      (invalid ''application dependencies cannot name a checkpoint'')) (\<lambda>_.
    and_then (validate_count obj) (\<lambda>_.
    let key = object_immutable_key lg obj in
    and_then (guard (\<not> is_blocked blocked key) CollectionFence) (\<lambda>_.
    let metadata = (or_len obj, or_subtree_objects obj) in
    case map_of visited key of
      Some declared \<Rightarrow>
        and_then (guard (declared = metadata) CorruptObject) (\<lambda>_. Inr (visited, pending))
    | None \<Rightarrow>
        let visited = (key, metadata) # visited in
        and_then (guard (\<not> length visited > max_collection_objects (lg_options lg))
          (LimitExceeded ''collection live objects'')) (\<lambda>_.
        and_then (ok_or (usize_try_from (usize_MAX E) (or_len obj))
          (LimitExceeded ''object byte length'')) (\<lambda>len.
        and_then (guard (\<not> len > max_object_bytes (lg_options lg)) (LimitExceeded ''object bytes'')) (\<lambda>_.
        Inr (visited, pending @ [obj]))))))))"

definition enqueue_all ::
    "externals \<Rightarrow> log \<Rightarrow> collection_candidate list option \<Rightarrow> object_ref list
      \<Rightarrow> visited \<times> object_ref list \<Rightarrow> (visited \<times> object_ref list) result" where
  "enqueue_all E lg blocked objects state =
    try_fold (\<lambda>state obj. enqueue_object E lg blocked obj state) state objects"

type_synonym graph_read = "usize \<times> object_ref"

fun fill ::
    "externals \<Rightarrow> log \<Rightarrow> graph_walk \<Rightarrow> object_ref list \<Rightarrow> graph_read list \<Rightarrow> usize
      \<Rightarrow> (object_ref list \<times> graph_read list \<times> usize) result" where
  "fill E lg mode [] reads active_bytes = Inr ([], reads, active_bytes)"
| "fill E lg mode (obj # pending) reads active_bytes =
    (if length reads < MAX_CONCURRENT_READS then
       if mode = Reachability \<and> or_kind obj = Blob then fill E lg mode pending reads active_bytes
       else
         and_then (ok_or (usize_try_from (usize_MAX E) (or_len obj))
           (LimitExceeded ''object byte length'')) (\<lambda>bs.
         if reads \<noteq> [] \<and> bs > max_object_bytes (lg_options lg) - active_bytes
         then Inr (obj # pending, reads, active_bytes)
         else
           and_then (ok_or (usize_checked_add (usize_MAX E) active_bytes bs)
             (LimitExceeded ''graph read bytes'')) (\<lambda>active_bytes.
           fill E lg mode pending (reads @ [(bs, obj)]) active_bytes))
     else Inr (obj # pending, reads, active_bytes))"

definition read_graph_children :: "externals \<Rightarrow> log \<Rightarrow> object_ref \<Rightarrow> object_ref list action" where
  "read_graph_children E lg obj =
    (case or_kind obj of
       Blob \<Rightarrow> await_try (verify_object_durable E lg obj) (\<lambda>_. succeed [])
     | Node \<Rightarrow>
         await_try (read_immutable E lg obj) (\<lambda>bs.
         attempt (decode_node_reference E lg obj bs) (\<lambda>n. succeed (nd_children n)))
     | Checkpoint \<Rightarrow> fail_with (invalid ''application dependencies cannot name a checkpoint''))"

definition remove_nth :: "nat \<Rightarrow> 'a list \<Rightarrow> 'a list" where
  "remove_nth i xs = take i xs @ drop (Suc i) xs"

lemma attempt_cong [fundef_cong]:
  "r = r' \<Longrightarrow> (\<And>x. r' = Inr x \<Longrightarrow> f x = g x) \<Longrightarrow> attempt r f = attempt r' g"
  by (cases r') simp_all

lemma length_remove_nth: "i < length xs \<Longrightarrow> length (remove_nth i xs) = length xs - 1"
  by (simp add: remove_nth_def)

lemma fill_length:
  "fill E lg mode pending reads active = Inr (pending', reads', active') \<Longrightarrow>
    length pending' + length reads' \<le> length pending + length reads"
  by (induction E lg mode pending reads active rule: fill.induct)
    (fastforce simp: and_then_Inr split: if_splits)+

lemma enqueue_object_length:
  assumes "enqueue_object E lg blocked obj (visited, pending) = Inr (visited', pending')"
  shows "(visited' = visited \<and> pending' = pending)
    \<or> (length visited' = Suc (length visited) \<and> length pending' = Suc (length pending)
        \<and> length visited' \<le> max_collection_objects (lg_options lg))"
  using assms
  by (auto simp: enqueue_object_def and_then_Inr guard_Inr Let_def not_less split: option.splits)

definition room :: "log \<Rightarrow> visited \<Rightarrow> nat" where
  "room lg visited = max_collection_objects (lg_options lg) - length visited"

lemma enqueue_all_length:
  "enqueue_all E lg blocked objects (visited, pending) = Inr (visited', pending') \<Longrightarrow>
    room lg visited' + length pending' = room lg visited + length pending"
proof (induction objects arbitrary: visited pending)
  case (Cons obj objects)
  then obtain v p where "enqueue_object E lg blocked obj (visited, pending) = Inr (v, p)"
    and "enqueue_all E lg blocked objects (v, p) = Inr (visited', pending')"
    by (auto simp: enqueue_all_def and_then_Inr)
  with Cons.IH enqueue_object_length show ?case
    unfolding room_def by fastforce
qed (simp add: enqueue_all_def)

function walk_graph ::
    "externals \<Rightarrow> log \<Rightarrow> collection_candidate list option \<Rightarrow> graph_walk \<Rightarrow> visited
      \<Rightarrow> object_ref list \<Rightarrow> graph_read list \<Rightarrow> usize \<Rightarrow> visited action" where
  "walk_graph E lg blocked mode visited pending reads active_bytes =
    attempt (fill E lg mode pending reads active_bytes) (\<lambda>(pending, reads, active_bytes).
    if reads = [] then succeed visited
    else
      Next (length reads) (\<lambda>i.
      let i = i mod length reads; (bs, obj) = reads ! i in
      await_try (read_graph_children E lg obj) (\<lambda>children.
      attempt (enqueue_all E lg blocked children (visited, pending)) (\<lambda>(visited, pending).
      walk_graph E lg blocked mode visited pending (remove_nth i reads) (active_bytes - bs)))))"
  by pat_completeness auto
termination
proof (relation "measure (\<lambda>(_, lg, _, _, visited, pending, reads, _).
    room lg visited + length pending + length reads)", goal_cases)
  case (2 E lg blocked mode visited pending reads active_bytes x pending' y reads' active' i i' z bs obj
    children x' visited' pending'')
  then have "length pending' + length reads' \<le> length pending + length reads"
    by (auto dest: fill_length)
  moreover have "room lg visited' + length pending'' = room lg visited + length pending'"
    using 2 by (auto dest: enqueue_all_length)
  moreover have "length (remove_nth i' reads') < length reads'"
    using 2 by (simp add: length_remove_nth)
  ultimately show ?case by simp
qed simp

declare walk_graph.simps [simp del]

definition mark_object_graph ::
    "externals \<Rightarrow> log \<Rightarrow> object_ref list \<Rightarrow> visited \<Rightarrow> collection_candidate list option \<Rightarrow> graph_walk
      \<Rightarrow> visited action" where
  "mark_object_graph E lg roots visited blocked mode =
    attempt (enqueue_all E lg blocked roots (visited, [])) (\<lambda>(visited, pending).
    walk_graph E lg blocked mode visited pending [] 0)"


section \<open>Verifying publications\<close>

definition verify_publication_dependencies ::
    "externals \<Rightarrow> log \<Rightarrow> view \<Rightarrow> object_ref list \<Rightarrow> collection_candidate list option action" where
  "verify_publication_dependencies E lg v objects =
    await_try (active_collection_candidates E lg v) (\<lambda>blocked.
    await_try (mark_object_graph E lg objects [] blocked VerifyBlobs) (\<lambda>_.
    succeed blocked))"

definition verify_publication ::
    "externals \<Rightarrow> log \<Rightarrow> view \<Rightarrow> immutable_key \<Rightarrow> object_ref list \<Rightarrow> addr \<Rightarrow> unit action" where
  "verify_publication E lg v new_key objects staging =
    await_try (if proof_matches lg staging then active_collection_candidates E lg v
               else verify_publication_dependencies E lg v objects) (\<lambda>blocked.
    if is_blocked blocked new_key then fail_with CollectionFence else succeed ())"

definition verify_object_graph :: "externals \<Rightarrow> log \<Rightarrow> object_ref list \<Rightarrow> unit action" where
  "verify_object_graph E lg objects =
    await_try (mark_object_graph E lg objects [] None VerifyBlobs) (\<lambda>_. succeed ())"

definition verify_published_commit :: "externals \<Rightarrow> log \<Rightarrow> commit_ref \<Rightarrow> unit action" where
  "verify_published_commit E lg reference =
    await_try (read_commit E lg reference) (\<lambda>record.
    verify_object_graph E lg (rc_objects record))"


section \<open>Marking live objects\<close>

definition insert_live ::
    "log \<Rightarrow> visited \<Rightarrow> immutable_key \<Rightarrow> u64 \<Rightarrow> u64 \<Rightarrow> visited result" where
  "insert_live lg live key len subtree =
    and_then (case map_of live key of
        Some declared \<Rightarrow>
          and_then (guard (declared = (len, subtree)) CorruptObject) (\<lambda>_. Inr live)
      | None \<Rightarrow> Inr ((key, (len, subtree)) # live)) (\<lambda>live.
    and_then (guard (\<not> length live > max_collection_objects (lg_options lg))
      (LimitExceeded ''collection live objects'')) (\<lambda>_.
    Inr live))"

definition extend_roots ::
    "log \<Rightarrow> object_ref list \<Rightarrow> object_ref list \<Rightarrow> object_ref list result" where
  "extend_roots lg roots objects =
    and_then (guard (\<not> length objects > max_collection_objects (lg_options lg) - length roots)
      (LimitExceeded ''collection live objects'')) (\<lambda>_.
    Inr (roots @ objects))"

definition mark_commit ::
    "log \<Rightarrow> visited \<times> object_ref list \<Rightarrow> commit_record \<Rightarrow> (visited \<times> object_ref list) result" where
  "mark_commit lg = (\<lambda>(live, roots) record.
    and_then (insert_live lg live (commit_immutable_key lg (rc_reference record))
      (cr_len (rc_reference record)) 0) (\<lambda>live.
    and_then (extend_roots lg roots (rc_objects record)) (\<lambda>roots.
    Inr (live, roots))))"

definition mark_live :: "externals \<Rightarrow> log \<Rightarrow> view \<Rightarrow> visited action" where
  "mark_live E lg v =
    await_try (tail_records E lg v (mark_commit lg) ([], [])) (\<lambda>(live, roots).
    await (remember_tail lg v) (\<lambda>_.
    await_try (case checkpoint (v_head v) of
        None \<Rightarrow> succeed (live, roots)
      | Some reference \<Rightarrow>
          attempt (insert_live lg live (object_immutable_key lg (cp_object reference))
            (or_len (cp_object reference)) (or_subtree_objects (cp_object reference))) (\<lambda>live.
          await_try (load_checkpoint E lg reference) (\<lambda>c.
          attempt (extend_roots lg roots (ck_objects c)) (\<lambda>roots.
          succeed (live, roots))))) (\<lambda>(live, roots).
    mark_object_graph E lg roots live None Reachability)))"

end
