(* ===== verification/Log_Objects.thy ===== *)
theory Log_Objects
  imports Log_Graph
begin

text \<open>
  Creating immutable objects (\<^verbatim>\<open>src/src/log.rs\<close>): blobs, reference nodes, checkpoints and
  collection plans get a fresh physical identity; a commit entry is ensured at its own key.
  \<open>attempts\<close> is the number of loop iterations left.
\<close>

definition ensure_immutable :: "externals \<Rightarrow> log \<Rightarrow> store_key \<Rightarrow> bytes \<Rightarrow> unit action" where
  "ensure_immutable E lg key bs =
    await (create E (lg_store lg) key bs) (\<lambda>created.
    let read_back = (\<lambda>create_error.
      await_try (read E (lg_store lg) key (length bs)) (\<lambda>found.
      case found of
        Some stored \<Rightarrow> if so_bytes stored = bs then succeed () else fail_with CorruptObject
      | None \<Rightarrow> fail_with (case create_error of
          Some error \<Rightarrow> error | None \<Rightarrow> invalid ''an immutable object is missing''))) in
    case created of
      Inr True \<Rightarrow> succeed ()
    | Inr False \<Rightarrow> read_back None
    | Inl error \<Rightarrow> read_back (Some error))"

fun create_fresh_from ::
    "externals \<Rightarrow> log \<Rightarrow> collection_candidate list option \<Rightarrow> (storage_id \<Rightarrow> object_ref) \<Rightarrow> bytes \<Rightarrow> nat
      \<Rightarrow> object_ref action" where
  "create_fresh_from E lg blocked obj bs 0 =
    fail_with (LimitExceeded ''fresh physical storage identity'')"
| "create_fresh_from E lg blocked obj bs (Suc attempts) =
    NewUuid (\<lambda>sid.
    if is_blocked blocked (object_immutable_key lg (obj sid))
    then create_fresh_from E lg blocked obj bs attempts
    else
      await_try (create E (lg_store lg) (object_key lg (obj sid)) bs) (\<lambda>created.
      if created then succeed (obj sid) else create_fresh_from E lg blocked obj bs attempts))"

definition create_fresh_object_with ::
    "externals \<Rightarrow> log \<Rightarrow> object_kind \<Rightarrow> bytes \<Rightarrow> u64 \<Rightarrow> collection_candidate list option
      \<Rightarrow> object_ref action" where
  "create_fresh_object_with E lg kind bs subtree blocked =
    attempt (ok_or (u64_try_from (length bs)) (LimitExceeded ''object byte length'')) (\<lambda>len.
    create_fresh_from E lg blocked
      (\<lambda>sid. \<lparr>or_kind = kind, or_storage_id = sid, or_digest = Digest_of E bs, or_len = len,
              or_subtree_objects = subtree\<rparr>) bs MAX_FRESH_OBJECT_ATTEMPTS)"

definition put_object :: "externals \<Rightarrow> log \<Rightarrow> view \<Rightarrow> bytes \<Rightarrow> staged_object action" where
  "put_object E lg v bs =
    attempt (validate_view lg v) (\<lambda>_.
    attempt (guard (\<not> length bs > max_object_bytes (lg_options lg)) (LimitExceeded ''object bytes'')) (\<lambda>_.
    await_try (active_collection_candidates E lg v) (\<lambda>blocked.
    await_try (create_fresh_object_with E lg Blob bs 1 blocked) (\<lambda>obj.
    succeed (staged lg v obj)))))"

definition log_node_size :: "externals \<Rightarrow> log \<Rightarrow> usize \<Rightarrow> object_ref list \<Rightarrow> usize result" where
  "log_node_size E lg payload_bytes children =
    and_then (node_size E payload_bytes
      (map (\<lambda>child. (or_len child, or_subtree_objects child)) children) (lg_options lg)) (\<lambda>size.
    Inr (ns_encoded size))"

definition put_node ::
    "externals \<Rightarrow> log \<Rightarrow> view \<Rightarrow> bytes \<Rightarrow> staged_object list \<Rightarrow> staged_object action" where
  "put_node E lg v payload children =
    attempt (validate_staged_objects lg v children) (\<lambda>_.
    let n = \<lparr>nd_payload = payload, nd_children = map st_object children\<rparr> in
    attempt (subtree_objects (nd_children n)) (\<lambda>subtree.
    attempt (encode_node E n (lg_options lg)) (\<lambda>bs.
    await_try (active_collection_candidates E lg v) (\<lambda>blocked.
    await_try (create_fresh_object_with E lg Node bs subtree blocked) (\<lambda>obj.
    succeed (staged lg v obj))))))"

definition stage_objects ::
    "externals \<Rightarrow> log \<Rightarrow> view \<Rightarrow> object_ref list \<Rightarrow> staged_object list action" where
  "stage_objects E lg v objects =
    attempt (validate_view lg v) (\<lambda>_.
    attempt (validate_dependencies E lg objects) (\<lambda>_.
    await_try (verify_publication_dependencies E lg v objects) (\<lambda>_.
    succeed (map (staged lg v) objects))))"


section \<open>Collection plans\<close>

definition MAX_PLAN_ATTEMPTS :: nat where "MAX_PLAN_ATTEMPTS = 16"

fun create_plan_from ::
    "externals \<Rightarrow> log \<Rightarrow> (storage_id \<Rightarrow> plan_ref) \<Rightarrow> bytes \<Rightarrow> nat \<Rightarrow> plan_ref action" where
  "create_plan_from E lg reference bs 0 =
    fail_with (LimitExceeded ''fresh physical storage identity'')"
| "create_plan_from E lg reference bs (Suc attempts) =
    NewUuid (\<lambda>sid.
    await_try (create E (lg_store lg)
      (Immutable (collection_plan_key (lg_incarnation lg) (reference sid))) bs) (\<lambda>created.
    if created then succeed (reference sid) else create_plan_from E lg reference bs attempts))"

definition create_collection_plan :: "externals \<Rightarrow> log \<Rightarrow> collection_plan \<Rightarrow> plan_ref action" where
  "create_collection_plan E lg plan =
    attempt (encode_collection_plan E plan (lg_options lg)) (\<lambda>bs.
    attempt (ok_or (u64_try_from (length bs)) (LimitExceeded ''collection plan byte length'')) (\<lambda>len.
    create_plan_from E lg (\<lambda>sid. \<lparr>pl_storage_id = sid, pl_digest = Digest_of E bs, pl_len = len\<rparr>) bs
      MAX_PLAN_ATTEMPTS))"

definition cleanup_collection_plan :: "externals \<Rightarrow> log \<Rightarrow> immutable_key \<Rightarrow> unit action" where
  "cleanup_collection_plan E lg key =
    await (delete_immutable_batch E (lg_store lg) [key]) (\<lambda>r.
    attempt (publication_evidence r) (\<lambda>_. succeed ()))"

end
