(* ===== verification/Log_Publish.thy ===== *)
theory Log_Publish
  imports Log_Objects
begin

text \<open>
  Publication (\<^verbatim>\<open>src/src/log.rs\<close>): the bounded retry of a conditional head update, the
  classification of an uncertain outcome, commits with their recovery, and checkpoints.
\<close>


section \<open>The bounded head publication\<close>

text \<open>\<open>further\<close> counts the attempts that may follow the current one.\<close>

definition is_same_head :: "view \<Rightarrow> view \<Rightarrow> bool" where
  "is_same_head current v \<longleftrightarrow> v_head current = v_head v \<and> v_version current = v_version v"

fun publish_from ::
    "externals \<Rightarrow> log \<Rightarrow> (head \<Rightarrow> head result) \<Rightarrow> (head \<Rightarrow> bool) \<Rightarrow> nat \<Rightarrow> view
      \<Rightarrow> head_publication action" where
  "publish_from E lg candidate compatible further v =
    attempt (candidate (v_head v)) (\<lambda>h.
    await (update_head E lg v h) (\<lambda>updated.
    case updated of
      Inr (Some next_view) \<Rightarrow> succeed (HeadUpdated next_view)
    | Inr None \<Rightarrow>
        await (load E lg) (\<lambda>loaded.
        attempt (publication_evidence loaded) (\<lambda>evidence.
        case evidence of
          None \<Rightarrow> succeed HeadPending
        | Some current \<Rightarrow>
            if \<not> compatible (v_head current)
            then succeed (HeadChanged current (generation (v_head v)))
            else if is_same_head current v then succeed HeadPending
            else if generation (v_head current) \<le> generation (v_head v)
            then fail_with (invalid ''head version changed without a monotonic head change'')
            else (case further of
                0 \<Rightarrow> succeed (HeadContended current)
              | Suc n \<Rightarrow> publish_from E lg candidate compatible n current)))
    | Inl (Store _) \<Rightarrow> succeed HeadPending
    | Inl error \<Rightarrow> fail_with error))"

declare publish_from.simps [simp del]

definition publish_head_compatible ::
    "externals \<Rightarrow> log \<Rightarrow> view \<Rightarrow> (head \<Rightarrow> head result) \<Rightarrow> (head \<Rightarrow> head \<Rightarrow> bool)
      \<Rightarrow> head_publication action" where
  "publish_head_compatible E lg source candidate compatible =
    publish_from E lg candidate (compatible (v_head source)) (MAX_HEAD_PUBLICATION_ATTEMPTS - 1) source"

definition publish_head ::
    "externals \<Rightarrow> log \<Rightarrow> view \<Rightarrow> (head \<Rightarrow> head result) \<Rightarrow> head_publication action" where
  "publish_head E lg source candidate =
    publish_head_compatible E lg source candidate has_same_publication_base"

definition publish_checkpoint_head ::
    "externals \<Rightarrow> log \<Rightarrow> view \<Rightarrow> (head \<Rightarrow> head result) \<Rightarrow> head_publication action" where
  "publish_checkpoint_head E lg source candidate =
    publish_head_compatible E lg source candidate has_checkpoint_append_base"

definition compatible_publication_view ::
    "view \<Rightarrow> view \<Rightarrow> (head \<Rightarrow> head \<Rightarrow> bool) \<Rightarrow> view option result" where
  "compatible_publication_view source current compatible =
    (if is_same_head current source then Inr (Some current)
     else if \<not> compatible (v_head source) (v_head current) then Inr None
     else if generation (v_head current) \<le> generation (v_head source)
     then Inl (invalid ''head version changed without a monotonic head change'')
     else Inr (Some current))"

definition retention_publication_view :: "view \<Rightarrow> view \<Rightarrow> view option result" where
  "retention_publication_view source current =
    compatible_publication_view source current has_same_publication_base"

definition checkpoint_publication_view :: "view \<Rightarrow> view \<Rightarrow> view option result" where
  "checkpoint_publication_view source current =
    compatible_publication_view source current has_checkpoint_append_base"


section \<open>Classification\<close>

definition contains_commit :: "view \<Rightarrow> commit_ref \<Rightarrow> bool" where
  "contains_commit v target \<longleftrightarrow>
    list_ex (\<lambda>entry. entry = target) (tail (v_head v) @ recent_outcomes (v_head v))"

definition tail_contains :: "view \<Rightarrow> commit_ref \<Rightarrow> bool" where
  "tail_contains v target \<longleftrightarrow> list_ex (\<lambda>entry. entry = target) (tail (v_head v))"

definition classify_resolution :: "commit_ref \<Rightarrow> view \<Rightarrow> resolution result" where
  "classify_resolution target current =
    (let h = v_head current in
     if contains_commit current target then Inr (ResolvedCommitted current)
     else if next_sequence h > cr_sequence target then
       if list_ex (\<lambda>entry. cr_sequence entry = cr_sequence target) (tail h @ recent_outcomes h)
       then Inr (NotCommitted current)
       else Inr (Expired current)
     else if next_sequence h < cr_sequence target
     then Inl (invalid ''the head precedes the pending commit position'')
     else Inr (NotCommitted current))"

definition classify_checkpoint ::
    "pending_checkpoint \<Rightarrow> view \<Rightarrow> u64 \<Rightarrow> checkpoint_evidence result" where
  "classify_checkpoint pending current attempted_generation =
    (if checkpoint (v_head current) = Some (pk_checkpoint pending) then Inr (EvidencePublished current)
     else
       and_then (ok_or (checked_add attempted_generation 1) (LimitExceeded ''head generation''))
         (\<lambda>next_generation.
       if generation (v_head current) < next_generation
       then Inl (invalid ''the head precedes pending checkpoint evidence'')
       else if generation (v_head current) = next_generation then Inr (EvidenceNotPublished current)
       else Inr (EvidenceExpired current)))"


section \<open>Commits\<close>

definition commit :: "externals \<Rightarrow> log \<Rightarrow> prepared_commit \<Rightarrow> commit_status action" where
  "commit E lg prepared =
    attempt (validate_prepared E lg prepared) (\<lambda>_.
    attempt (encode_prepared E lg prepared) (\<lambda>(commit_ref, commit_bytes).
    await_try (verify_publication E lg (pc_view prepared) (commit_immutable_key lg commit_ref)
      (pc_objects prepared) (pc_staging_domain prepared)) (\<lambda>_.
    await_try (ensure_immutable E lg (commit_key lg commit_ref) commit_bytes) (\<lambda>_.
    let prepared = prepared\<lparr>pc_staging_domain := lg_staging_domain lg\<rparr>;
        pending = \<lparr>pd_prepared = Some prepared, pd_commit_ref = commit_ref, pd_token = None\<rparr> in
    await_try (publish_head E lg (pc_view prepared) (\<lambda>h. candidate_head h commit_ref)) (\<lambda>published.
    case published of
      HeadUpdated next_view \<Rightarrow>
        await (tail_is_verified lg (pc_view prepared)) (\<lambda>verified.
        await (if verified then remember_tail lg next_view else Done ()) (\<lambda>_.
        succeed (Committed next_view)))
    | HeadPending \<Rightarrow> succeed (Pending pending)
    | HeadContended current \<Rightarrow> succeed (Conflict current)
    | HeadChanged current _ \<Rightarrow>
        attempt (classify_resolution commit_ref current) (\<lambda>resolution.
        case resolution of
          ResolvedCommitted v \<Rightarrow> succeed (Committed v)
        | NotCommitted v \<Rightarrow> succeed (Conflict v)
        | Expired _ \<Rightarrow> succeed (Pending pending)
        | StillPending _ \<Rightarrow>
            fail_with (invalid ''an in-memory classification returned pending evidence'')))))))"

text \<open>
  \<open>resolve\<close> and \<open>resume\<close> call each other, but never twice: \<open>resolve\<close> defers to \<open>resume\<close> only without
  a prepared candidate, and \<open>resume\<close> calls \<open>resolve\<close> only with one. \<open>resolve_prepared\<close> is the body of
  \<open>resolve\<close> for a prepared candidate.
\<close>

definition resolve_prepared ::
    "externals \<Rightarrow> log \<Rightarrow> pending_commit \<Rightarrow> prepared_commit \<Rightarrow> resolution action" where
  "resolve_prepared E lg pending prepared =
    attempt (validate_pending E lg pending) (\<lambda>_.
    await (load E lg) (\<lambda>loaded.
    attempt (publication_evidence loaded) (\<lambda>evidence.
    case evidence of
      None \<Rightarrow> succeed (StillPending pending)
    | Some current \<Rightarrow>
    attempt (retention_publication_view (pc_view prepared) current) (\<lambda>publication_view.
    case publication_view of
      None \<Rightarrow>
        attempt (classify_resolution (pd_commit_ref pending) current) (\<lambda>resolution.
        case resolution of
          ResolvedCommitted v \<Rightarrow>
            if tail_contains v (pd_commit_ref pending) \<and> \<not> proof_matches lg (pc_staging_domain prepared)
            then
              await (verify_published_commit E lg (pd_commit_ref pending)) (\<lambda>r.
              attempt (publication_evidence r) (\<lambda>evidence.
              succeed (if evidence = None then StillPending pending else resolution)))
            else succeed resolution
        | _ \<Rightarrow> succeed resolution)
    | Some publication_view \<Rightarrow>
    attempt (encode_prepared E lg prepared) (\<lambda>(_, commit_bytes).
    await (verify_publication E lg (pc_view prepared)
      (commit_immutable_key lg (pd_commit_ref pending)) (pc_objects prepared)
      (pc_staging_domain prepared)) (\<lambda>r.
    attempt (publication_evidence r) (\<lambda>evidence.
    if evidence = None then succeed (StillPending pending)
    else
    await (if proof_matches lg (pc_staging_domain prepared) then succeed ()
           else ensure_immutable E lg (commit_key lg (pd_commit_ref pending)) commit_bytes) (\<lambda>r.
    attempt (publication_evidence r) (\<lambda>evidence.
    if evidence = None then succeed (StillPending pending)
    else
    let pending = pending\<lparr>pd_prepared := Some (prepared\<lparr>pc_staging_domain := lg_staging_domain lg\<rparr>)\<rparr> in
    await (publish_head E lg publication_view (\<lambda>h. candidate_head h (pd_commit_ref pending)))
      (\<lambda>published.
    case published of
      Inr (HeadUpdated v) \<Rightarrow> succeed (ResolvedCommitted v)
    | Inr HeadPending \<Rightarrow> succeed (StillPending pending)
    | Inl (Store _) \<Rightarrow> succeed (StillPending pending)
    | Inl RequestDenied \<Rightarrow> succeed (StillPending pending)
    | Inr (HeadContended current) \<Rightarrow> succeed (NotCommitted current)
    | Inl error \<Rightarrow> fail_with error
    | Inr (HeadChanged current _) \<Rightarrow>
        Done (classify_resolution (pd_commit_ref pending) current)))))))))))"

definition recovered_commit_ref :: "externals \<Rightarrow> log \<Rightarrow> recovery_token \<Rightarrow> commit_ref result" where
  "recovered_commit_ref E lg recovered =
    and_then (guard (rt_log_id recovered = ss_log_id (lg_store lg))
      (invalid ''the view belongs to another log'')) (\<lambda>_.
    and_then (guard (rt_incarnation recovered = lg_incarnation lg)
      (invalid ''the view belongs to another log incarnation'')) (\<lambda>_.
    and_then (options_digest E (lg_options lg)) (\<lambda>digest.
    and_then (guard (rt_options_digest recovered = digest) (ConfigurationMismatch ''options'')) (\<lambda>_.
    and_then (validate_prepared_sizes lg (rt_operation recovered) (rt_result recovered)) (\<lambda>_.
    and_then (validate_dependencies E lg (rt_objects recovered)) (\<lambda>_.
    let bs = encode_commit E \<lparr>
           cm_log_id = rt_log_id recovered,
           cm_incarnation = rt_incarnation recovered,
           cm_transaction_id = rt_transaction_id recovered,
           cm_expected_tip = rt_tip recovered,
           cm_operation = rt_operation recovered,
           cm_result = rt_result recovered,
           cm_objects = rt_objects recovered \<rparr> in
    and_then (guard (\<not> length bs > max_commit_bytes (lg_options lg))
      (LimitExceeded ''encoded commit bytes'')) (\<lambda>_.
    and_then (ok_or (u64_try_from (length bs)) (LimitExceeded ''commit byte length'')) (\<lambda>len.
    Inr \<lparr>cr_sequence = rt_next_sequence recovered,
         cr_transaction_id = rt_transaction_id recovered,
         cr_storage_id = rt_storage_id recovered,
         cr_digest = Digest_of E bs,
         cr_len = len\<rparr>))))))))"

definition resume :: "externals \<Rightarrow> log \<Rightarrow> bytes \<Rightarrow> resolution action" where
  "resume E lg token =
    attempt (decode_recovery_token E token) (\<lambda>recovered.
    attempt (recovered_commit_ref E lg recovered) (\<lambda>commit_ref.
    let pending = \<lparr>pd_prepared = None, pd_commit_ref = commit_ref, pd_token = Some token\<rparr> in
    await (load E lg) (\<lambda>loaded.
    attempt (publication_evidence loaded) (\<lambda>evidence.
    case evidence of
      None \<Rightarrow> succeed (StillPending pending)
    | Some current \<Rightarrow>
    let h = v_head current in
    attempt (encode_head E h) (\<lambda>head_bytes.
    let exact = v_version current = rt_version recovered
          \<and> generation h = rt_generation recovered
          \<and> Digest_of E head_bytes = rt_head_digest recovered in
    attempt (publication_base_digest E h) (\<lambda>base_digest.
    let retention_only = base_digest = rt_publication_base_digest recovered in
    if exact \<or> (retention_only \<and> generation h > rt_generation recovered) then
      attempt (guard (\<not> (next_sequence h \<noteq> rt_next_sequence recovered \<or> tip h \<noteq> rt_tip recovered))
        (invalid ''recovery token source fields disagree'')) (\<lambda>_.
      Alloc (\<lambda>domain.
      let prepared = \<lparr>
            pc_view = current,
            pc_staging_domain = domain,
            pc_transaction_id = rt_transaction_id recovered,
            pc_storage_id = rt_storage_id recovered,
            pc_operation = rt_operation recovered,
            pc_result = rt_result recovered,
            pc_objects = rt_objects recovered \<rparr> in
      attempt (encode_prepared E lg prepared) (\<lambda>(recomputed, _).
      attempt (guard (recomputed = commit_ref)
        (invalid ''recovery token candidate disagrees with source'')) (\<lambda>_.
      await_try (resolve_prepared E lg
        \<lparr>pd_prepared = Some prepared, pd_commit_ref = commit_ref, pd_token = None\<rparr> prepared) (\<lambda>resolution.
      succeed (case resolution of StillPending _ \<Rightarrow> StillPending pending | other \<Rightarrow> other))))))
    else if retention_only \<and> generation h \<le> rt_generation recovered
    then fail_with (invalid ''head version changed without a monotonic head change'')
    else
      attempt (classify_resolution commit_ref current) (\<lambda>resolution.
      case resolution of
        ResolvedCommitted v \<Rightarrow>
          if tail_contains v commit_ref then
            await (verify_published_commit E lg commit_ref) (\<lambda>r.
            attempt (publication_evidence r) (\<lambda>evidence.
            succeed (if evidence = None then StillPending pending else resolution)))
          else succeed resolution
      | _ \<Rightarrow> succeed resolution)))))))"

definition resolve :: "externals \<Rightarrow> log \<Rightarrow> pending_commit \<Rightarrow> resolution action" where
  "resolve E lg pending =
    (case pd_prepared pending of
       None \<Rightarrow> attempt (pending_recovery_token E pending) (resume E lg)
     | Some prepared \<Rightarrow> resolve_prepared E lg pending prepared)"


section \<open>Checkpoints\<close>

definition publish_checkpoint ::
    "externals \<Rightarrow> log \<Rightarrow> view \<Rightarrow> commit_ref \<Rightarrow> bytes \<Rightarrow> staged_object list \<Rightarrow> checkpoint_status action" where
  "publish_checkpoint E lg v through snapshot objects =
    attempt (validate_staged_objects lg v objects) (\<lambda>_.
    attempt (publication_objects E lg (map st_object objects)) (\<lambda>subtree.
    await_try (verify_tail E lg v) (\<lambda>_.
    let bs = encode_checkpoint E \<lparr>
          ck_log_id = ss_log_id (lg_store lg),
          ck_incarnation = lg_incarnation lg,
          ck_through_sequence = cr_sequence through,
          ck_through_commit = cr_digest through,
          ck_snapshot = snapshot,
          ck_objects = map st_object objects \<rparr> in
    attempt (validate_checkpoint_bytes lg (length bs)) (\<lambda>_.
    await_try (active_collection_candidates E lg v) (\<lambda>blocked.
    await_try (create_fresh_object_with E lg Checkpoint bs subtree blocked) (\<lambda>obj.
    let pending = \<lparr>pk_view = v, pk_staging_domain = lg_staging_domain lg, pk_through = through,
          pk_checkpoint = \<lparr>cp_through_sequence = cr_sequence through,
                           cp_through_commit = cr_digest through, cp_object = obj\<rparr>\<rparr> in
    await_try (publish_checkpoint_head E lg v (\<lambda>h. checkpoint_head h through obj)) (\<lambda>published.
    case published of
      HeadUpdated next_view \<Rightarrow>
        await (if next_sequence (v_head next_view) = next_sequence (v_head v)
               then remember_tail lg next_view else Done ()) (\<lambda>_.
        succeed (CheckpointPublished next_view))
    | HeadChanged current attempted_generation \<Rightarrow>
        attempt (classify_checkpoint pending current attempted_generation) (\<lambda>evidence.
        succeed (case evidence of
            EvidencePublished view \<Rightarrow> CheckpointPublished view
          | EvidenceNotPublished view \<Rightarrow> CheckpointConflict view
          | EvidenceExpired _ \<Rightarrow> CheckpointPending pending))
    | HeadContended current \<Rightarrow> succeed (CheckpointConflict current)
    | HeadPending \<Rightarrow> succeed (CheckpointPending pending))))))))"

definition verify_checkpoint :: "externals \<Rightarrow> log \<Rightarrow> checkpoint_ref \<Rightarrow> unit action" where
  "verify_checkpoint E lg reference =
    await_try (load_checkpoint E lg reference) (\<lambda>c.
    verify_object_graph E lg (ck_objects c))"

definition verify_checkpoint_publication :: "externals \<Rightarrow> log \<Rightarrow> pending_checkpoint \<Rightarrow> unit action" where
  "verify_checkpoint_publication E lg pending =
    (let key = object_immutable_key lg (cp_object (pk_checkpoint pending)) in
     if proof_matches lg (pk_staging_domain pending)
     then verify_publication E lg (pk_view pending) key [] (pk_staging_domain pending)
     else
       await_try (load_checkpoint E lg (pk_checkpoint pending)) (\<lambda>c.
       verify_publication E lg (pk_view pending) key (ck_objects c) (pk_staging_domain pending)))"

definition checkpoint_resolution_of :: "checkpoint_evidence \<Rightarrow> checkpoint_resolution" where
  "checkpoint_resolution_of evidence =
    (case evidence of
       EvidencePublished view \<Rightarrow> CheckpointResolvedPublished view
     | EvidenceNotPublished view \<Rightarrow> CheckpointNotPublished view
     | EvidenceExpired view \<Rightarrow> CheckpointExpired view)"

definition resolve_checkpoint ::
    "externals \<Rightarrow> log \<Rightarrow> pending_checkpoint \<Rightarrow> checkpoint_resolution action" where
  "resolve_checkpoint E lg pending =
    attempt (validate_view lg (pk_view pending)) (\<lambda>_.
    attempt (checkpoint_head (v_head (pk_view pending)) (pk_through pending)
      (cp_object (pk_checkpoint pending))) (\<lambda>original_candidate.
    attempt (guard (checkpoint original_candidate = Some (pk_checkpoint pending))
      (invalid ''pending checkpoint evidence does not match its candidate'')) (\<lambda>_.
    await (load E lg) (\<lambda>loaded.
    attempt (publication_evidence loaded) (\<lambda>evidence.
    case evidence of
      None \<Rightarrow> succeed (CheckpointStillPending pending)
    | Some current \<Rightarrow>
    attempt (checkpoint_publication_view (pk_view pending) current) (\<lambda>publication_view.
    case publication_view of
      None \<Rightarrow>
        attempt (classify_checkpoint pending current (generation (v_head (pk_view pending))))
          (\<lambda>evidence.
        case evidence of
          EvidencePublished view \<Rightarrow>
            if proof_matches lg (pk_staging_domain pending)
            then succeed (CheckpointResolvedPublished view)
            else
              await (verify_checkpoint E lg (pk_checkpoint pending)) (\<lambda>r.
              case r of
                Inr _ \<Rightarrow> succeed (CheckpointResolvedPublished view)
              | Inl (Store _) \<Rightarrow> succeed (CheckpointStillPending pending)
              | Inl RequestDenied \<Rightarrow> succeed (CheckpointStillPending pending)
              | Inl error \<Rightarrow> fail_with error)
        | _ \<Rightarrow> succeed (checkpoint_resolution_of evidence))
    | Some publication_view \<Rightarrow>
    await (verify_tail E lg (pk_view pending)) (\<lambda>r.
    attempt (publication_evidence r) (\<lambda>evidence.
    if evidence = None then succeed (CheckpointStillPending pending)
    else
    await (verify_checkpoint_publication E lg pending) (\<lambda>r.
    attempt (publication_evidence r) (\<lambda>evidence.
    if evidence = None then succeed (CheckpointStillPending pending)
    else
    let pending = pending\<lparr>pk_staging_domain := lg_staging_domain lg\<rparr> in
    await (publish_checkpoint_head E lg publication_view
      (\<lambda>h. checkpoint_head h (pk_through pending) (cp_object (pk_checkpoint pending)))) (\<lambda>published.
    case published of
      Inr (HeadUpdated view) \<Rightarrow> succeed (CheckpointResolvedPublished view)
    | Inr HeadPending \<Rightarrow> succeed (CheckpointStillPending pending)
    | Inl (Store _) \<Rightarrow> succeed (CheckpointStillPending pending)
    | Inl RequestDenied \<Rightarrow> succeed (CheckpointStillPending pending)
    | Inr (HeadContended current) \<Rightarrow> succeed (CheckpointNotPublished current)
    | Inl error \<Rightarrow> fail_with error
    | Inr (HeadChanged current attempted_generation) \<Rightarrow>
        attempt (classify_checkpoint pending current attempted_generation) (\<lambda>evidence.
        succeed (checkpoint_resolution_of evidence)))))))))))))"

end
