(* ===== verification/Log_Maintain.thy ===== *)
theory Log_Maintain
  imports Log_Publish
begin

text \<open>
  Maintenance (\<^verbatim>\<open>src/src/log.rs\<close>): retentions, and garbage collection with its positive deletion
  plan: marking live objects, scanning the namespace, installing the plan as a head fence, deleting
  the planned objects, and clearing the fence.
\<close>


section \<open>Retentions\<close>

definition status_of_retention :: "retention_head_state \<Rightarrow> view \<Rightarrow> retention_status" where
  "status_of_retention state v =
    (case state of
       StateApplied \<Rightarrow> RetentionApplied v
     | StateActiveCollection \<Rightarrow> RetentionActiveCollection v
     | StateConflict \<Rightarrow> RetentionConflict v)"

fun is_acquire :: "retention_change \<Rightarrow> bool" where
  "is_acquire (Acquire _) = True"
| "is_acquire _ = False"

fun change_retention_from ::
    "externals \<Rightarrow> log \<Rightarrow> view \<Rightarrow> retention_change \<Rightarrow> nat \<Rightarrow> view \<Rightarrow> retention_status action" where
  "change_retention_from E lg v change further current =
    attempt (guard (\<not> (is_acquire change
        \<and> fcard (retention_ids (v_head current)) \<ge> max_retention_ids (lg_options lg)))
      (LimitExceeded ''retention IDs'')) (\<lambda>_.
    attempt (retention_head change (v_head current)) (\<lambda>candidate.
    await (update_head E lg current candidate) (\<lambda>updated.
    case updated of
      Inr (Some next_view) \<Rightarrow> succeed (RetentionApplied next_view)
    | Inr None \<Rightarrow>
        await (load E lg) (\<lambda>loaded.
        attempt (publication_evidence loaded) (\<lambda>evidence.
        case evidence of
          None \<Rightarrow> succeed RetentionPending
        | Some next_view \<Rightarrow>
            if is_same_head next_view current then succeed RetentionPending
            else if is_acquire change
                \<and> collection_epoch (v_head next_view) \<noteq> collection_epoch (v_head v)
            then succeed (RetentionConflict next_view)
            else
              let state = retention_classify change (v_head next_view) in
              case further of
                0 \<Rightarrow> succeed (status_of_retention state next_view)
              | Suc n \<Rightarrow>
                  if is_acquire change \<and> state = StateConflict then
                    if generation (v_head next_view) \<le> generation (v_head current)
                    then fail_with (invalid ''head version changed without a monotonic head change'')
                    else change_retention_from E lg v change n next_view
                  else succeed (status_of_retention state next_view)))
    | Inl (Store _) \<Rightarrow> succeed RetentionPending
    | Inl error \<Rightarrow> fail_with error)))"

declare change_retention_from.simps [simp del]

definition change_retention ::
    "externals \<Rightarrow> log \<Rightarrow> view \<Rightarrow> retention_change \<Rightarrow> retention_status action" where
  "change_retention E lg v change =
    attempt (validate_view lg v) (\<lambda>_.
    let source = retention_classify change (v_head v) in
    if source \<noteq> StateConflict then
      await_try (refresh E lg v) (\<lambda>refreshed.
      case refreshed of
        None \<Rightarrow> succeed (status_of_retention source v)
      | Some current \<Rightarrow>
          if is_acquire change \<and> collection_epoch (v_head current) \<noteq> collection_epoch (v_head v)
          then succeed (RetentionConflict current)
          else succeed (status_of_retention (retention_classify change (v_head current)) current))
    else change_retention_from E lg v change (MAX_HEAD_PUBLICATION_ATTEMPTS - 1) v)"

definition retain :: "externals \<Rightarrow> log \<Rightarrow> view \<Rightarrow> retention_id \<Rightarrow> retention_status action" where
  "retain E lg v rid = change_retention E lg v (Acquire rid)"

definition release_retention :: "externals \<Rightarrow> log \<Rightarrow> view \<Rightarrow> retention_id \<Rightarrow> retention_status action" where
  "release_retention E lg v rid = change_retention E lg v (Release rid)"

definition clear_retentions_after_drain :: "externals \<Rightarrow> log \<Rightarrow> view \<Rightarrow> retention_status action" where
  "clear_retentions_after_drain E lg v = change_retention E lg v ClearAfterDrain"


section \<open>Starting a collection\<close>

record collection_report =
  cp_candidate_count :: usize
  cp_candidate_bytes :: u64
  cp_delete_attempts :: usize

definition CollectionReport_new :: "usize \<Rightarrow> u64 \<Rightarrow> usize \<Rightarrow> collection_report" where
  "CollectionReport_new count bs attempts =
    \<lparr>cp_candidate_count = count, cp_candidate_bytes = bs, cp_delete_attempts = attempts\<rparr>"

datatype collection_start =
    StartEmpty collection_report
  | StartInstalled view collection_report
  | StartActive view
  | StartRetained view
  | StartConflict view
  | StartPending

datatype collection_finish =
    FinishComplete view collection_report
  | FinishConflict view collection_report
  | FinishPending collection_report

text \<open>
  The scan loop: at most \<open>scan_limit\<close> listed items are examined; the ordered map of candidates is a
  list sorted by key. The second component of the result says that the listing ended.
\<close>

fun insert_candidate ::
    "immutable_key \<Rightarrow> u64 \<Rightarrow> collection_candidate list \<Rightarrow> collection_candidate list result" where
  "insert_candidate key bs [] = Inr [\<lparr>cc_key = key, cc_bytes = bs\<rparr>]"
| "insert_candidate key bs (c # cs) =
    (if key < cc_key c then Inr (\<lparr>cc_key = key, cc_bytes = bs\<rparr> # c # cs)
     else if key = cc_key c then
       if cc_bytes c \<noteq> bs then Inl CorruptObject else Inr (c # cs)
     else and_then (insert_candidate key bs cs) (\<lambda>cs. Inr (c # cs)))"

fun scan_candidates ::
    "visited \<Rightarrow> usize \<Rightarrow> nat \<Rightarrow> listed_object result list \<Rightarrow> collection_candidate list
      \<Rightarrow> (collection_candidate list \<times> bool) result" where
  "scan_candidates live max_candidates 0 items candidates = Inr (candidates, False)"
| "scan_candidates live max_candidates (Suc n) [] candidates = Inr (candidates, True)"
| "scan_candidates live max_candidates (Suc n) (item # items) candidates =
    and_then item (\<lambda>item.
    case lo_immutable_key item of
      None \<Rightarrow> scan_candidates live max_candidates n items candidates
    | Some key \<Rightarrow>
        if map_of live key \<noteq> None then scan_candidates live max_candidates n items candidates
        else
          and_then (insert_candidate key (lo_size item) candidates) (\<lambda>candidates.
          if length candidates = max_candidates then Inr (candidates, False)
          else scan_candidates live max_candidates n items candidates))"

definition install_plan ::
    "externals \<Rightarrow> log \<Rightarrow> view \<Rightarrow> u64 \<Rightarrow> collection_plan \<Rightarrow> collection_report \<Rightarrow> collection_start action" where
  "install_plan E lg v epoch plan report =
    await_try (create_collection_plan E lg plan) (\<lambda>plan_ref.
    let plan_key = collection_plan_key (lg_incarnation lg) plan_ref in
    attempt (install_plan_head (v_head v) epoch plan_ref) (\<lambda>candidate.
    await (update_head E lg v candidate) (\<lambda>updated.
    case updated of
      Inr (Some next_view) \<Rightarrow> succeed (StartInstalled next_view report)
    | Inr None \<Rightarrow>
        await (load E lg) (\<lambda>loaded.
        case loaded of
          Inr current \<Rightarrow>
            if active_plan (v_head current) = Some plan_ref
            then succeed (StartInstalled current report)
            else if is_same_head current v then succeed StartPending
            else
              await_try (cleanup_collection_plan E lg plan_key) (\<lambda>_.
              succeed (StartConflict current))
        | Inl (Store _) \<Rightarrow> succeed StartPending
        | Inl RequestDenied \<Rightarrow> succeed StartPending
        | Inl error \<Rightarrow> fail_with error)
    | Inl (Store _) \<Rightarrow> succeed StartPending
    | Inl error \<Rightarrow> fail_with error)))"

definition start_collection_with_limit ::
    "externals \<Rightarrow> log \<Rightarrow> view \<Rightarrow> usize \<Rightarrow> collection_start action" where
  "start_collection_with_limit E lg v max_candidates =
    attempt (guard (\<not> (max_candidates = 0 \<or> max_candidates > max_collection_objects (lg_options lg)))
      (LimitExceeded ''collection candidate objects'')) (\<lambda>_.
    attempt (validate_view lg v) (\<lambda>_.
    if active_plan (v_head v) \<noteq> None then succeed (StartActive v)
    else if retention_ids (v_head v) \<noteq> {||} then succeed (StartRetained v)
    else
    await_try (mark_live E lg v) (\<lambda>live.
    attempt (ok_or (Option.bind (usize_checked_add (usize_MAX E) (length live) max_candidates)
        (\<lambda>limit. usize_checked_add (usize_MAX E) limit 1))
      (LimitExceeded ''collection scan objects'')) (\<lambda>scan_limit.
    await (list_scoped E (lg_store lg)) (\<lambda>listed.
    attempt (scan_candidates live max_candidates scan_limit listed []) (\<lambda>(candidates, complete).
    attempt (guard (\<not> (candidates = [] \<and> \<not> complete))
      (LimitExceeded ''collection scan objects'')) (\<lambda>_.
    if candidates = [] then succeed (StartEmpty (CollectionReport_new 0 0 0))
    else
    attempt (ok_or (checked_add (collection_epoch (v_head v)) 1)
      (LimitExceeded ''collection epoch'')) (\<lambda>epoch.
    let plan = \<lparr>cl_log_id = ss_log_id (lg_store lg), cl_collection_epoch = epoch,
                cl_candidates = candidates\<rparr> in
    attempt (candidate_bytes plan) (\<lambda>plan_bytes.
    install_plan E lg v epoch plan (CollectionReport_new (length candidates) plan_bytes 0))))))))))"

definition start_collection :: "externals \<Rightarrow> log \<Rightarrow> view \<Rightarrow> collection_start action" where
  "start_collection E lg v =
    start_collection_with_limit E lg v (max_collection_objects (lg_options lg))"


section \<open>Finishing a collection\<close>

fun clear_plan_from ::
    "externals \<Rightarrow> log \<Rightarrow> plan_ref \<Rightarrow> immutable_key \<Rightarrow> collection_report \<Rightarrow> nat \<Rightarrow> view
      \<Rightarrow> collection_finish action" where
  "clear_plan_from E lg plan_ref plan_key report further current =
    attempt (clear_plan_head (v_head current)) (\<lambda>candidate.
    await (update_head E lg current candidate) (\<lambda>updated.
    case updated of
      Inr (Some next_view) \<Rightarrow>
        await_try (cleanup_collection_plan E lg plan_key) (\<lambda>_.
        succeed (FinishComplete next_view report))
    | Inr None \<Rightarrow>
        await (load E lg) (\<lambda>loaded.
        attempt (publication_evidence loaded) (\<lambda>evidence.
        case evidence of
          None \<Rightarrow> succeed (FinishPending report)
        | Some reloaded \<Rightarrow>
            if is_same_head reloaded current then succeed (FinishPending report)
            else (case active_plan (v_head reloaded) of
                None \<Rightarrow>
                  await_try (cleanup_collection_plan E lg plan_key) (\<lambda>_.
                  succeed (FinishComplete reloaded report))
              | Some active \<Rightarrow>
                  if active \<noteq> plan_ref then succeed (FinishConflict reloaded report)
                  else if generation (v_head reloaded) \<le> generation (v_head current)
                  then fail_with (invalid ''head version changed without a monotonic head change'')
                  else (case further of
                      0 \<Rightarrow> succeed (FinishConflict reloaded report)
                    | Suc n \<Rightarrow> clear_plan_from E lg plan_ref plan_key report n reloaded))))
    | Inl (Store _) \<Rightarrow> succeed (FinishPending report)
    | Inl RequestDenied \<Rightarrow> succeed (FinishPending report)
    | Inl error \<Rightarrow> fail_with error))"

declare clear_plan_from.simps [simp del]

definition clear_collection_plan ::
    "externals \<Rightarrow> log \<Rightarrow> view \<Rightarrow> plan_ref \<Rightarrow> immutable_key \<Rightarrow> collection_report
      \<Rightarrow> collection_finish action" where
  "clear_collection_plan E lg current plan_ref plan_key report =
    clear_plan_from E lg plan_ref plan_key report (MAX_HEAD_PUBLICATION_ATTEMPTS - 1) current"

text \<open>\<open>slice::chunks\<close>.\<close>

function chunks :: "nat \<Rightarrow> 'a list \<Rightarrow> 'a list list" where
  "chunks n xs = (if xs = [] then [] else take (max n 1) xs # chunks n (drop (max n 1) xs))"
  by pat_completeness auto
termination
  by (relation "measure (\<lambda>(n, xs). length xs)") auto

declare chunks.simps [simp del]

text \<open>The deletion loop ends with the finished report, or with the reason to stop.\<close>

fun delete_batches ::
    "externals \<Rightarrow> log \<Rightarrow> collection_candidate list list \<Rightarrow> collection_report
      \<Rightarrow> (collection_finish + collection_report) action" where
  "delete_batches E lg [] report = succeed (Inr report)"
| "delete_batches E lg (batch # batches) report =
    (let submitted = report\<lparr>cp_delete_attempts := cp_delete_attempts report + length batch\<rparr> in
    await (delete_immutable_batch E (lg_store lg) (map cc_key batch)) (\<lambda>r.
    case r of
      Inr _ \<Rightarrow> delete_batches E lg batches submitted
    | Inl RequestDenied \<Rightarrow> succeed (Inl (FinishPending report))
    | Inl (Store _) \<Rightarrow> succeed (Inl (FinishPending submitted))
    | Inl error \<Rightarrow> fail_with error))"

definition resume_collection :: "externals \<Rightarrow> log \<Rightarrow> view \<Rightarrow> collection_finish action" where
  "resume_collection E lg v =
    attempt (validate_view lg v) (\<lambda>_.
    let requested_plan = active_plan (v_head v) in
    await_try (load E lg) (\<lambda>current.
    case active_plan (v_head current) of
      None \<Rightarrow>
        await_try (case requested_plan of
            None \<Rightarrow> succeed ()
          | Some requested \<Rightarrow>
              cleanup_collection_plan E lg (collection_plan_key (incarnation (v_head v)) requested)) (\<lambda>_.
        succeed (FinishComplete current (CollectionReport_new 0 0 0)))
    | Some plan_ref \<Rightarrow>
        if requested_plan \<noteq> Some plan_ref
        then succeed (FinishConflict current (CollectionReport_new 0 0 0))
        else
          let plan_key = collection_plan_key (incarnation (v_head current)) plan_ref in
          await_try (read_collection_plan E lg (v_head current) plan_ref) (\<lambda>plan.
          attempt (candidate_bytes plan) (\<lambda>plan_bytes.
          await_try (delete_batches E lg (chunks MAX_DELETE_BATCH (cl_candidates plan))
            (CollectionReport_new (length (cl_candidates plan)) plan_bytes 0)) (\<lambda>deleted.
          case deleted of
            Inl finish \<Rightarrow> succeed finish
          | Inr report \<Rightarrow> clear_collection_plan E lg current plan_ref plan_key report)))))"

end
