(* ===== verification/Outcomes.thy ===== *)
theory Outcomes
  imports Log_Maintain
begin

text \<open>
  What holds of a method whatever the store answers. \<open>safely D Q p\<close>: every write and every delete that
  \<open>p\<close> requests satisfies \<open>D\<close> and every result satisfies \<open>Q\<close>, for all responses to all requests. \<open>within g u n p\<close>: no run issues reads and writes of total weight more than \<open>n\<close>.
\<close>


section \<open>Results and effects\<close>

datatype effect = Stores path bytes put_mode | Removes path

primrec safely :: "(effect \<Rightarrow> bool) \<Rightarrow> ('a \<Rightarrow> bool) \<Rightarrow> 'a prog \<Rightarrow> bool" where
  "safely D Q (Done x) = Q x"
| "safely D Q (Get p tag k) = (\<forall>r. safely D Q (k r))"
| "safely D Q (Put p bs mode k) = (D (Stores p bs mode) \<and> (\<forall>r. safely D Q (k r)))"
| "safely D Q (ListPrefix p k) = (\<forall>r. safely D Q (k r))"
| "safely D Q (DeleteStream ps k) = ((\<forall>p\<in>set ps. D (Removes p)) \<and> (\<forall>r. safely D Q (k r)))"
| "safely D Q (Delete p k) = (D (Removes p) \<and> (\<forall>r. safely D Q (k r)))"
| "safely D Q (Ask g q k) = (\<forall>r. safely D Q (k r))"
| "safely D Q (NewUuid k) = (\<forall>r. safely D Q (k r))"
| "safely D Q (Alloc k) = (\<forall>r. safely D Q (k r))"
| "safely D Q (TailProof a k) = (\<forall>r. safely D Q (k r))"
| "safely D Q (SetTailProof a d k) = safely D Q k"
| "safely D Q (PlanCell a k) = (\<forall>r. safely D Q (k r))"
| "safely D Q (InitPlanCell a c k) = (\<forall>r. safely D Q (k r))"
| "safely D Q (Next n k) = (\<forall>r. safely D Q (k r))"

abbreviation ends :: "('a \<Rightarrow> bool) \<Rightarrow> 'a prog \<Rightarrow> bool" where
  "ends \<equiv> safely (\<lambda>_. True)"

text \<open>\<open>yields\<close> is about the successes only.\<close>

definition ok_and :: "('a \<Rightarrow> bool) \<Rightarrow> 'a result \<Rightarrow> bool" where
  "ok_and Q r = (case r of Inl e \<Rightarrow> True | Inr x \<Rightarrow> Q x)"

abbreviation yields :: "('a \<Rightarrow> bool) \<Rightarrow> 'a action \<Rightarrow> bool" where
  "yields Q \<equiv> ends (ok_and Q)"

lemma ok_and_simps [simp]: "ok_and Q (Inl e)" "ok_and Q (Inr x) = Q x"
  by (simp_all add: ok_and_def)

lemma safely_await: "safely D Q (await p f) \<longleftrightarrow> safely D (\<lambda>x. safely D Q (f x)) p"
  by (induction p) simp_all

lemma safely_mono: "safely D Q p \<Longrightarrow> (\<And>x. Q x \<Longrightarrow> Q' x) \<Longrightarrow> safely D Q' p"
  by (induction p) auto

lemma safely_True: "safely D (\<lambda>_. True) p \<Longrightarrow> (\<And>x. Q x) \<Longrightarrow> safely D Q p"
  by (rule safely_mono)

lemma ends_True [simp]: "ends (\<lambda>_. True) p"
  by (induction p) auto

lemma safely_return [simp]: "safely D Q (succeed x) = Q (Inr x)" "safely D Q (fail_with e) = Q (Inl e)"
  by (simp_all add: succeed_def fail_with_def)

lemma safely_attempt:
  "safely D Q (attempt r f) \<longleftrightarrow> (case r of Inl e \<Rightarrow> Q (Inl e) | Inr x \<Rightarrow> safely D Q (f x))"
  by (cases r) simp_all

lemma safely_try:
  assumes "safely D (ok_and R) p" "\<And>x. R x \<Longrightarrow> safely D (ok_and Q) (f x)"
  shows "safely D (ok_and Q) (await_try p f)"
  unfolding await_try_def safely_await
  by (rule safely_mono [OF assms(1)]) (use assms(2) in \<open>auto simp: ok_and_def split: sum.splits\<close>)

lemma yields_mono: "yields Q p \<Longrightarrow> (\<And>x. Q x \<Longrightarrow> Q' x) \<Longrightarrow> yields Q' p"
  by (erule safely_mono) (simp add: ok_and_def split: sum.splits)

lemma yields_try:
  assumes "yields R p" "\<And>x. R x \<Longrightarrow> yields Q (f x)"
  shows "yields Q (await_try p f)"
  using assms by (rule safely_try)

lemma yields_any [simp]: "yields (\<lambda>_. True) p"
  by (rule safely_True) (simp_all add: ok_and_def split: sum.splits)

lemma yields_try_any: "(\<And>x. yields Q (f x)) \<Longrightarrow> yields Q (await_try p f)"
  by (rule yields_try [OF yields_any])

lemma safely_await_any: "(\<And>x. ends Q (f x)) \<Longrightarrow> ends Q (await p f)"
  unfolding safely_await by (rule safely_True) simp_all

lemma safely_attemptI: "(\<And>x. r = Inr x \<Longrightarrow> safely D (ok_and Q) (f x)) \<Longrightarrow> safely D (ok_and Q) (attempt r f)"
  by (cases r) simp_all

lemma safely_ifI: "(b \<Longrightarrow> safely D Q p) \<Longrightarrow> (\<not> b \<Longrightarrow> safely D Q q) \<Longrightarrow> safely D Q (if b then p else q)"
  by simp

lemma yields_conj: "yields P p \<Longrightarrow> yields Q p \<Longrightarrow> yields (\<lambda>x. P x \<and> Q x) p"
  by (induction p) (auto simp: ok_and_def split: sum.splits)


text \<open>\<open>does D p\<close> is about the effects only; \<open>quiet\<close> programs leave one path alone.\<close>

abbreviation does :: "(effect \<Rightarrow> bool) \<Rightarrow> 'a prog \<Rightarrow> bool" where
  "does D \<equiv> safely D (\<lambda>_. True)"

fun effect_path :: "effect \<Rightarrow> path" where
  "effect_path (Stores p bs mode) = p"
| "effect_path (Removes p) = p"

abbreviation quiet :: "path \<Rightarrow> 'a prog \<Rightarrow> bool" where
  "quiet hp \<equiv> does (\<lambda>e. effect_path e \<noteq> hp)"

lemma does_await [simp]: "does D p \<Longrightarrow> (\<And>x. does D (f x)) \<Longrightarrow> does D (await p f)"
  unfolding safely_await by (erule safely_mono)

lemma does_await_try [simp]: "does D p \<Longrightarrow> (\<And>x. does D (f x)) \<Longrightarrow> does D (await_try p f)"
  unfolding await_try_def by (intro does_await) (auto split: sum.splits)

lemma does_attempt [simp]: "(\<And>x. r = Inr x \<Longrightarrow> does D (f x)) \<Longrightarrow> does D (attempt r f)"
  by (cases r) simp_all

lemma does_ends: "does D p \<Longrightarrow> ends Q p \<Longrightarrow> safely D Q p"
  by (induction p) auto

lemma does_try_ends:
  assumes "safely D (ok_and R) p" "\<And>x. R x \<Longrightarrow> does D (f x)"
  shows "does D (await_try p f)"
  unfolding await_try_def safely_await
  by (rule safely_mono [OF assms(1)]) (use assms(2) in \<open>auto simp: ok_and_def split: sum.splits\<close>)

lemma does_mono: "does D p \<Longrightarrow> (\<And>e. D e \<Longrightarrow> D' e) \<Longrightarrow> does D' p"
  by (induction p) auto


section \<open>Request bounds\<close>

primrec within :: "(path \<Rightarrow> nat) \<Rightarrow> (path \<Rightarrow> nat) \<Rightarrow> nat \<Rightarrow> 'a prog \<Rightarrow> bool" where
  "within g u n (Done x) = True"
| "within g u n (Get p tag k) = (g p \<le> n \<and> (\<forall>r. within g u (n - g p) (k r)))"
| "within g u n (Put p bs mode k) = (u p \<le> n \<and> (\<forall>r. within g u (n - u p) (k r)))"
| "within g u n (ListPrefix p k) = (\<forall>r. within g u n (k r))"
| "within g u n (DeleteStream ps k) = (\<forall>r. within g u n (k r))"
| "within g u n (Delete p k) = (\<forall>r. within g u n (k r))"
| "within g u n (Ask a q k) = (\<forall>r. within g u n (k r))"
| "within g u n (NewUuid k) = (\<forall>r. within g u n (k r))"
| "within g u n (Alloc k) = (\<forall>r. within g u n (k r))"
| "within g u n (TailProof a k) = (\<forall>r. within g u n (k r))"
| "within g u n (SetTailProof a d k) = within g u n k"
| "within g u n (PlanCell a k) = (\<forall>r. within g u n (k r))"
| "within g u n (InitPlanCell a c k) = (\<forall>r. within g u n (k r))"
| "within g u n (Next m k) = (\<forall>r. within g u n (k r))"

lemma within_await: "within g u n p \<Longrightarrow> (\<And>x k. within g u (k + m) (f x)) \<Longrightarrow> within g u (n + m) (await p f)"
proof (induction p arbitrary: n)
  case (Get p tag k)
  then have "within g u (n - g p + m) (await (k r) f)" for r
    by (intro Get.IH [OF rangeI]) simp_all
  with Get.prems(1) show ?case by simp
next
  case (Put p bs mode k)
  then have "within g u (n - u p + m) (await (k r) f)" for r
    by (intro Put.IH [OF rangeI]) simp_all
  with Put.prems(1) show ?case by simp
qed auto

lemma within_add: "within g u n p \<Longrightarrow> within g u (n + m) p"
  using within_await [of g u n p m Done] by simp

lemma within_mono: "within g u n p \<Longrightarrow> n \<le> m \<Longrightarrow> within g u m p"
  using within_add [of g u n p "m - n"] by simp

lemma within_then:
  assumes "within g u n p" "\<And>x. within g u m (f x)"
  shows "within g u (n + m) (await p f)"
  using assms(1) by (rule within_await) (rule within_mono [OF assms(2)], simp)

lemma within_try: "within g u n p \<Longrightarrow> (\<And>x. within g u m (f x)) \<Longrightarrow> within g u (n + m) (await_try p f)"
  unfolding await_try_def by (rule within_then) (auto split: sum.splits)

lemma within_attempt: "(\<And>x. within g u n (f x)) \<Longrightarrow> within g u n (attempt r f)"
  by (cases r) auto

lemma within_return [simp]: "within g u n (succeed x)" "within g u n (fail_with e)"
  by (simp_all add: succeed_def fail_with_def)

end
