(* ===== verification/History.thy ===== *)
theory History
  imports Log_Maintain
begin

text \<open>
  Recovery of a view's history (\<^verbatim>\<open>src/src/history.rs\<close>): a cursor over the checkpoint and the active
  tail, reading ahead in a bounded window. A method that takes \<^verbatim>\<open>&mut self\<close> returns the cursor
  beside its result, also when it fails.
\<close>

definition READ_AHEAD :: usize where "READ_AHEAD = 8"

record 'r authenticated =
  au_record :: 'r
  au_proofs :: "staged_object list"

datatype history_item =
    CheckpointItem "checkpoint_record authenticated"
  | CommitItem "commit_record authenticated"

record history_cursor =
  hc_log :: log
  hc_view :: view
  hc_checkpoint_read :: bool
  hc_next_commit :: usize
  hc_ready :: "commit_record option result list"
  hc_complete :: bool

definition clone_cursor :: "history_cursor \<Rightarrow> history_cursor" where
  "clone_cursor c = c\<lparr>hc_ready := []\<rparr>"

definition record_proofs :: "log \<Rightarrow> view \<Rightarrow> object_ref list \<Rightarrow> staged_object list" where
  "record_proofs lg v objects = map (staged lg v) objects"

definition history :: "log \<Rightarrow> view \<Rightarrow> history_cursor result" where
  "history lg v =
    and_then (validate_view lg v) (\<lambda>_.
    Inr \<lparr>hc_log = lg, hc_view = v, hc_checkpoint_read = False, hc_next_commit = 0, hc_ready = [],
         hc_complete = False\<rparr>)"

text \<open>\<open>join_all\<close> over a range of tail indices.\<close>

fun read_ahead :: "externals \<Rightarrow> log \<Rightarrow> view \<Rightarrow> nat list \<Rightarrow> commit_record option result list prog" where
  "read_ahead E lg v [] = Done []"
| "read_ahead E lg v (index # rest) =
    await (read_tail_record_optional E lg v index) (\<lambda>r.
    await (read_ahead E lg v rest) (\<lambda>rs. Done (r # rs)))"

definition next_commit ::
    "externals \<Rightarrow> history_cursor \<Rightarrow> (history_item option result \<times> history_cursor) prog" where
  "next_commit E c =
    (let lg = hc_log c; v = hc_view c; total = length (tail (v_head v)) in
    if hc_next_commit c < total then
      await (if hc_ready c = []
             then read_ahead E lg v
               [hc_next_commit c ..< min total (hc_next_commit c + commit_read_window lg READ_AHEAD)]
             else Done (hc_ready c)) (\<lambda>ready.
      case ready of
        [] \<Rightarrow> Done (Inl CorruptObject, c\<lparr>hc_ready := []\<rparr>)
      | Inr (Some record) # rest \<Rightarrow>
          Done (Inr (Some (CommitItem \<lparr>au_record = record,
                  au_proofs = record_proofs lg v (rc_objects record)\<rparr>)),
                c\<lparr>hc_ready := rest, hc_next_commit := Suc (hc_next_commit c)\<rparr>)
      | Inr None # rest \<Rightarrow>
          await (missing_read_error E lg v) (\<lambda>r.
          Done (case r of Inl e \<Rightarrow> Inl e | Inr e \<Rightarrow> Inl e, c\<lparr>hc_ready := []\<rparr>))
      | Inl error # rest \<Rightarrow> Done (Inl error, c\<lparr>hc_ready := []\<rparr>))
    else
      await (remember_tail lg v) (\<lambda>_.
      Done (Inr None, c\<lparr>hc_complete := True\<rparr>)))"

definition cursor_next ::
    "externals \<Rightarrow> history_cursor \<Rightarrow> (history_item option result \<times> history_cursor) prog" where
  "cursor_next E c =
    (if hc_complete c then Done (Inr None, c)
     else if \<not> hc_checkpoint_read c then
       await (read_checkpoint E (hc_log c) (hc_view c)) (\<lambda>r.
       case r of
         Inl e \<Rightarrow> Done (Inl e, c)
       | Inr (Some record) \<Rightarrow>
           Done (Inr (Some (CheckpointItem \<lparr>au_record = record,
                   au_proofs = record_proofs (hc_log c) (hc_view c) (rk_objects record)\<rparr>)),
                 c\<lparr>hc_checkpoint_read := True\<rparr>)
       | Inr None \<Rightarrow> next_commit E (c\<lparr>hc_checkpoint_read := True\<rparr>))
     else next_commit E c)"

definition tail_record :: "externals \<Rightarrow> log \<Rightarrow> view \<Rightarrow> usize \<Rightarrow> commit_record authenticated action" where
  "tail_record E lg v index =
    await_try (read_tail_record E lg v index) (\<lambda>record.
    succeed \<lparr>au_record = record, au_proofs = record_proofs lg v (rc_objects record)\<rparr>)"

end
