(* ===== verification/Byte_Stream.thy ===== *)
theory Byte_Stream
  imports Log_Objects
begin

text \<open>
  Byte streams over immutable blobs (\<^verbatim>\<open>src/src/byte_stream.rs\<close>): a writer that cuts its input into
  chunks and, for more than one chunk, stores a descriptor node; and a reader with two cached
  chunks. A method that takes \<^verbatim>\<open>&mut self\<close> returns the writer or reader beside its result, also when
  it fails. The casts \<^verbatim>\<open>as u64\<close> of sizes below \<open>MAX_CHUNK_BYTES\<close> and of child counts are
  \<open>of_nat\<close>, which keeps the wrap-around of the cast.
\<close>


section \<open>Values\<close>

definition TAG :: bytes where "TAG = [0x4f, 0x4c, 0x42, 0x53, 0, 0, 0, 1]"
definition DESCRIPTOR_BYTES :: usize where "DESCRIPTOR_BYTES = 24"
definition MAX_CHUNK_BYTES :: usize where "MAX_CHUNK_BYTES = 2 * 1024 * 1024"

definition invalid_stream :: error where
  "invalid_stream = InvalidFormat ''invalid byte stream''"

record stream_writer =
  bw_log :: log
  bw_view :: view
  bw_chunk_bytes :: usize
  bw_capacity :: u64
  bw_len :: u64
  bw_buffer :: bytes
  bw_children :: "staged_object list"
  bw_failed :: bool

record byte_reader =
  br_log :: log
  br_view :: view
  br_chunk_bytes :: u64
  br_len :: u64
  br_children :: "object_ref list"
  br_cached0 :: "(usize \<times> bytes) option"
  br_cached1 :: "(usize \<times> bytes) option"


section \<open>Writing\<close>

definition stream_fits :: "externals \<Rightarrow> options \<Rightarrow> usize \<Rightarrow> nat \<Rightarrow> bool" where
  "stream_fits E opts chunk_bytes count =
    (case node_size E DESCRIPTOR_BYTES (replicate count (of_nat chunk_bytes, 1)) opts of
       Inl _ \<Rightarrow> False | Inr _ \<Rightarrow> True)"

text \<open>The search for the largest child count that fits one node.\<close>

function search_count :: "(nat \<Rightarrow> bool) \<Rightarrow> nat \<Rightarrow> nat \<Rightarrow> nat" where
  "search_count ok low high =
    (if low < high then
       let mid = low + div_ceil (high - low) 2 in
       if ok mid then search_count ok mid high else search_count ok low (mid - 1)
     else low)"
  by pat_completeness auto
termination
  by (relation "measure (\<lambda>(_, low, high). high - low)") (auto simp: div_ceil_def)

declare search_count.simps [simp del]

definition byte_writer :: "externals \<Rightarrow> log \<Rightarrow> view \<Rightarrow> stream_writer result" where
  "byte_writer E lg v =
    (let opts = lg_options lg;
         chunk_bytes = min (max_object_bytes opts) MAX_CHUNK_BYTES in
    and_then (log_node_size E lg DESCRIPTOR_BYTES []) (\<lambda>_.
    let low = search_count (stream_fits E opts chunk_bytes) 0
          (min (max_object_refs opts) (max_object_bytes opts div 32)) in
    and_then (ok_or (checked_mul (of_nat low) (of_nat chunk_bytes)) (LimitExceeded ''byte stream length''))
      (\<lambda>capacity.
    Inr \<lparr>bw_log = lg, bw_view = v, bw_chunk_bytes = chunk_bytes, bw_capacity = capacity, bw_len = 0,
         bw_buffer = [], bw_children = [], bw_failed = False\<rparr>)))"

text \<open>
  The loop of \<open>write\<close>. The buffer never reaches \<open>chunk_bytes\<close> between two iterations, so every
  iteration takes at least one byte; \<open>max _ 1\<close> makes the recursion total without the invariant.
\<close>

function write_loop ::
    "externals \<Rightarrow> stream_writer \<Rightarrow> bytes \<Rightarrow> (unit result \<times> stream_writer) prog" where
  "write_loop E w data =
    (if data = [] then Done (Inr (), w)
     else
       let n = min (length data) (max (bw_chunk_bytes w - length (bw_buffer w)) 1);
           w' = w\<lparr>bw_buffer := bw_buffer w @ take n data\<rparr> in
       if length (bw_buffer w') = bw_chunk_bytes w' then
         await (put_object E (bw_log w) (bw_view w) (bw_buffer w')) (\<lambda>r.
         case r of
           Inl e \<Rightarrow> Done (Inl e, w'\<lparr>bw_buffer := []\<rparr>)
         | Inr child \<Rightarrow>
             write_loop E (w'\<lparr>bw_buffer := [], bw_children := bw_children w @ [child]\<rparr>) (drop n data))
       else write_loop E w' (drop n data))"
  by pat_completeness auto
termination
  by (relation "measure (\<lambda>(_, _, data). length data)") auto

declare write_loop.simps [simp del]

definition writer_write :: "externals \<Rightarrow> stream_writer \<Rightarrow> bytes \<Rightarrow> (unit result \<times> stream_writer) prog" where
  "writer_write E w data =
    (if bw_failed w then Done (Inl invalid_stream, w)
     else
       let w = w\<lparr>bw_failed := True\<rparr> in
       case checked_add (bw_len w) (of_nat (length data)) of
         None \<Rightarrow> Done (Inl (LimitExceeded ''byte stream length''), w)
       | Some len \<Rightarrow>
           if \<not> len \<le> bw_capacity w then Done (Inl (LimitExceeded ''byte stream length''), w)
           else
             await (write_loop E w data) (\<lambda>(r, w).
             Done (case r of
                 Inl e \<Rightarrow> (Inl e, w)
               | Inr _ \<Rightarrow> (Inr (), w\<lparr>bw_len := len, bw_failed := False\<rparr>))))"

definition stream_descriptor :: "u64 \<Rightarrow> usize \<Rightarrow> bytes" where
  "stream_descriptor len chunk_bytes = TAG @ be_bytes 8 len @ be_bytes 8 (of_nat chunk_bytes :: u64)"

definition writer_finish :: "externals \<Rightarrow> stream_writer \<Rightarrow> staged_object action" where
  "writer_finish E w =
    (if bw_failed w then fail_with invalid_stream
     else
       await_try (if bw_buffer w \<noteq> []
           then await_try (put_object E (bw_log w) (bw_view w) (bw_buffer w)) (\<lambda>child.
             succeed (bw_children w @ [child]))
           else succeed (bw_children w)) (\<lambda>children.
       case children of
         [child] \<Rightarrow> succeed child
       | _ \<Rightarrow> put_node E (bw_log w) (bw_view w) (stream_descriptor (bw_len w) (bw_chunk_bytes w)) children))"


section \<open>Reading\<close>

definition descriptor_number :: "bytes \<Rightarrow> nat \<Rightarrow> u64" where
  "descriptor_number descriptor offset = of_be_bytes (take 8 (drop offset descriptor))"

definition u64_div_ceil :: "u64 \<Rightarrow> u64 \<Rightarrow> u64" where
  "u64_div_ceil a b = (if a mod b > 0 then a div b + 1 else a div b)"

fun check_children :: "u64 \<Rightarrow> u64 \<Rightarrow> nat \<Rightarrow> object_ref list \<Rightarrow> unit result" where
  "check_children len chunk_bytes index [] = Inr ()"
| "check_children len chunk_bytes index (child # children) =
    (let expected = min (len - of_nat index * chunk_bytes) chunk_bytes in
     if or_kind child \<noteq> Blob \<or> or_len child \<noteq> expected then Inl invalid_stream
     else check_children len chunk_bytes (Suc index) children)"

definition open_bytes :: "externals \<Rightarrow> log \<Rightarrow> view \<Rightarrow> object_ref \<Rightarrow> byte_reader action" where
  "open_bytes E lg v root =
    (if or_kind root = Blob then
       attempt (validate_view lg v) (\<lambda>_.
       attempt (validate_count root) (\<lambda>_.
       let chunk_bytes = of_nat (min (max_object_bytes (lg_options lg)) MAX_CHUNK_BYTES) in
       attempt (guard (\<not> or_len root > chunk_bytes) (LimitExceeded ''byte stream chunk bytes'')) (\<lambda>_.
       await_try (read_object E lg v root) (\<lambda>bs.
       succeed \<lparr>br_log = lg, br_view = v, br_chunk_bytes = chunk_bytes, br_len = or_len root,
                br_children = [root], br_cached0 = Some (0, bs), br_cached1 = None\<rparr>))))
     else
       await_try (read_node E lg v root) (\<lambda>n.
       let descriptor = nd_payload n in
       if length descriptor \<noteq> DESCRIPTOR_BYTES \<or> take 8 descriptor \<noteq> TAG then fail_with invalid_stream
       else
         let len = descriptor_number descriptor 8;
             chunk_bytes = descriptor_number descriptor 16 in
         if chunk_bytes = 0
            \<or> chunk_bytes > of_nat (min (max_object_bytes (lg_options lg)) MAX_CHUNK_BYTES)
            \<or> u64_div_ceil len chunk_bytes \<noteq> of_nat (length (nd_children n))
         then fail_with invalid_stream
         else
           attempt (check_children len chunk_bytes 0 (nd_children n)) (\<lambda>_.
           succeed \<lparr>br_log = lg, br_view = v, br_chunk_bytes = chunk_bytes, br_len = len,
                    br_children = nd_children n, br_cached0 = None, br_cached1 = None\<rparr>)))"

text \<open>
  \<open>cached_slice\<close> is the end of \<open>read_at\<close>: the requested part of the chunk in the first cache slot.
\<close>

definition cached_slice :: "externals \<Rightarrow> byte_reader \<Rightarrow> u64 \<Rightarrow> usize \<Rightarrow> bytes result" where
  "cached_slice E r offset max_len =
    and_then (ok_or (br_cached0 r) invalid_stream) (\<lambda>(_, bs).
    and_then (ok_or (usize_try_from (usize_MAX E) (offset mod br_chunk_bytes r)) invalid_stream) (\<lambda>start.
    Inr (slice bs (start, start + min max_len (length bs - start)))))"

definition read_at ::
    "externals \<Rightarrow> byte_reader \<Rightarrow> u64 \<Rightarrow> usize \<Rightarrow> (bytes result \<times> byte_reader) prog" where
  "read_at E r offset max_len =
    (if max_len = 0 \<or> offset \<ge> br_len r then Done (Inr [], r)
     else
       case usize_try_from (usize_MAX E) (offset div br_chunk_bytes r) of
         None \<Rightarrow> Done (Inl invalid_stream, r)
       | Some index \<Rightarrow>
           if map_option fst (br_cached0 r) = Some index then Done (cached_slice E r offset max_len, r)
           else if map_option fst (br_cached1 r) = Some index then
             let r = r\<lparr>br_cached0 := br_cached1 r, br_cached1 := br_cached0 r\<rparr> in
             Done (cached_slice E r offset max_len, r)
           else
             let r = r\<lparr>br_cached1 := None\<rparr> in
             await (read_object E (br_log r) (br_view r) (br_children r ! index)) (\<lambda>found.
             case found of
               Inl e \<Rightarrow> Done (Inl e, r)
             | Inr bs \<Rightarrow>
                 let r = r\<lparr>br_cached1 := br_cached0 r, br_cached0 := Some (index, bs)\<rparr> in
                 Done (cached_slice E r offset max_len, r)))"

end
