(* ===== verification/Effects.thy ===== *)
theory Effects
  imports Outcomes History Byte_Stream
begin

text \<open>
  What the methods of a log ask the store to change: reads change nothing, creations store one
  immutable object, batched deletes remove immutable objects, and only the conditional update writes
  the head object.
\<close>

abbreviation head_path :: "log \<Rightarrow> path" where
  "head_path lg \<equiv> ss_scope (lg_store lg) @ [''index.cbor'']"

lemma immutable_not_head [simp]:
  "immutable_location E s key \<noteq> ss_scope s @ [''index.cbor'']"
  "ss_scope s @ [''index.cbor''] \<noteq> immutable_location E s key"
  by (simp_all add: immutable_location_def)


section \<open>Store operations\<close>

lemma does_ask_guards [simp]: "does D (ask_guards gs req)"
  by (induction gs) auto

lemma does_admit [simp]: "does D (admit s req)"
  by (simp add: admit_def)

lemma does_retry_from: "does D p \<Longrightarrow> does D (retry_safe_read_from n s max_bytes p)"
  by (induction n) simp_all

lemma does_read_with [simp]: "does D (read_with E s key max_bytes collect)"
  unfolding read_with_def retry_safe_read_def
  by (intro does_retry_from) (auto split: sum.splits store_error.splits)

lemma does_read [simp]: "does D (read E s key max_bytes)" "does D (read_integrity E s key max_bytes)"
  by (simp_all add: read_def read_integrity_def)

lemma does_read_if_changed [simp]: "does D (read_if_changed E s key observed max_bytes)"
  unfolding read_if_changed_def retry_safe_read_def
  by (auto intro!: does_retry_from split: sum.splits store_error.splits option.splits)

lemma does_create [simp]: "D (Stores (location E s key) bs Create) \<Longrightarrow> does D (create E s key bs)"
  unfolding create_def by (auto split: sum.splits store_error.splits)

lemma does_update [simp]: "D (Stores (location E s key) bs (Update v)) \<Longrightarrow> does D (update E s key bs v)"
  unfolding update_def by (auto split: sum.splits store_error.splits)

lemma does_list_scoped [simp]: "does D (list_scoped E s)"
  unfolding list_scoped_def by (auto split: sum.splits)

lemma does_delete_batch [simp]:
  "(\<And>key. key \<in> set keys \<Longrightarrow> D (Removes (immutable_location E s key))) \<Longrightarrow> does D (delete_immutable_batch E s keys)"
  unfolding delete_immutable_batch_def by (auto intro!: does_await_try split: option.splits)


section \<open>Log operations\<close>

lemma does_new_view [simp]: "does D (new_view h v)"
  by (simp add: new_view_def)

lemma does_view_from_stored [simp]: "does D (view_from_stored E lg stored)"
  by (simp add: view_from_stored_def)

lemma does_load [simp]: "does D (load E lg)"
  by (simp add: load_def)

lemma does_refresh [simp]: "does D (refresh E lg v)"
  unfolding refresh_def by (auto split: conditional_read.splits)

lemma does_read_immutable_optional [simp]: "does D (read_immutable_optional E lg obj)"
  unfolding read_immutable_optional_def by (auto split: option.splits)

lemma does_read_immutable [simp]: "does D (read_immutable E lg obj)"
  by (simp add: read_immutable_def)

lemma does_missing_read_error [simp]: "does D (missing_read_error E lg v)"
  by (simp add: missing_read_error_def)

lemma does_verify_object_durable [simp]: "does D (verify_object_durable E lg obj)"
  unfolding verify_object_durable_def by (auto split: prod.splits)

lemma does_read_commit_optional [simp]: "does D (read_commit_optional E lg reference)"
  unfolding read_commit_optional_def by (auto split: option.splits)

lemma does_read_commit [simp]: "does D (read_commit E lg reference)"
  by (simp add: read_commit_def)

lemma does_fold_tail [simp]: "does D (fold_tail E lg v f parent s references)"
  by (induction references arbitrary: parent s) (auto split: option.splits)

lemma does_tail_records [simp]: "does D (tail_records E lg v f s)"
  by (simp add: tail_records_def)

lemma does_tail_proof [simp]: "does D (remember_tail lg v)" "does D (tail_is_verified lg v)"
  by (simp_all add: remember_tail_def tail_is_verified_def)

lemma does_verify_tail [simp]: "does D (verify_tail E lg v)"
  by (simp add: verify_tail_def)

lemma does_load_checkpoint [simp]: "does D (load_checkpoint E lg reference)"
  by (simp add: load_checkpoint_def)

lemma does_read_collection_plan [simp]: "does D (read_collection_plan E lg h reference)"
  unfolding read_collection_plan_def by (auto simp: Let_def split: option.splits)

lemma does_active_candidates [simp]: "does D (active_collection_candidates E lg v)"
  unfolding active_collection_candidates_def by (auto split: option.splits)

lemma does_read_graph_children [simp]: "does D (read_graph_children E lg obj)"
  unfolding read_graph_children_def by (auto split: object_kind.splits)

lemma does_walk_graph [simp]: "does D (walk_graph E lg blocked mode visited pending reads active)"
proof (induction E lg blocked mode visited pending reads active rule: walk_graph.induct)
  case (1 E lg blocked mode visited pending reads active)
  then show ?case
    by (subst walk_graph.simps) (auto simp: Let_def split: prod.splits)
qed

lemma does_mark_object_graph [simp]: "does D (mark_object_graph E lg roots visited blocked mode)"
  unfolding mark_object_graph_def by (auto split: prod.splits)

lemma does_verify_publication [simp]:
  "does D (verify_publication_dependencies E lg v objects)"
  "does D (verify_publication E lg v key objects staging)"
  "does D (verify_object_graph E lg objects)"
  "does D (verify_published_commit E lg reference)"
  by (simp_all add: verify_publication_dependencies_def verify_publication_def verify_object_graph_def
    verify_published_commit_def)

lemma does_mark_live [simp]: "does D (mark_live E lg v)"
  unfolding mark_live_def by (auto split: prod.splits option.splits)

lemma does_ensure_immutable [simp]:
  "D (Stores (location E (lg_store lg) key) bs Create) \<Longrightarrow> does D (ensure_immutable E lg key bs)"
  unfolding ensure_immutable_def by (auto simp: Let_def split: sum.splits bool.splits option.splits)

lemma does_create_fresh_from:
  "(\<And>key. D (Stores (immutable_location E (lg_store lg) key) bs Create)) \<Longrightarrow>
    does D (create_fresh_from E lg blocked obj bs n)"
  by (induction n) (auto simp: object_key_def)

lemma does_create_fresh [simp]:
  "(\<And>key. D (Stores (immutable_location E (lg_store lg) key) bs Create)) \<Longrightarrow>
    does D (create_fresh_object_with E lg kind bs subtree blocked)"
  unfolding create_fresh_object_with_def by (intro does_attempt does_create_fresh_from)

lemma does_create_plan_from:
  "(\<And>key. D (Stores (immutable_location E (lg_store lg) key) bs Create)) \<Longrightarrow>
    does D (create_plan_from E lg reference bs n)"
  by (induction n) auto

lemma does_create_collection_plan [simp]:
  "(\<And>key bs. encode_collection_plan E plan (lg_options lg) = Inr bs \<Longrightarrow>
      D (Stores (immutable_location E (lg_store lg) key) bs Create)) \<Longrightarrow>
    does D (create_collection_plan E lg plan)"
  unfolding create_collection_plan_def by (intro does_attempt does_create_plan_from)

lemma does_cleanup [simp]:
  "D (Removes (immutable_location E (lg_store lg) key)) \<Longrightarrow> does D (cleanup_collection_plan E lg key)"
  unfolding cleanup_collection_plan_def by (intro does_await does_delete_batch) simp_all

lemma does_delete_batches [simp]:
  "(\<And>c. c \<in> set (concat batches) \<Longrightarrow> D (Removes (immutable_location E (lg_store lg) (cc_key c)))) \<Longrightarrow>
    does D (delete_batches E lg batches report)"
proof (induction batches arbitrary: report)
  case (Cons batch batches)
  then show ?case
    by (auto intro!: does_await does_delete_batch simp: Let_def split: sum.splits error.splits)
qed simp

lemma does_update_head [simp]:
  "(\<And>bs. encode_head E h = Inr bs \<Longrightarrow> D (Stores (head_path lg) bs (Update (v_version v)))) \<Longrightarrow>
    does D (update_head E lg v h)"
  unfolding update_head_def by (auto split: option.splits)

lemma does_verify_checkpoint [simp]:
  "does D (verify_checkpoint E lg reference)"
  "does D (verify_checkpoint_publication E lg pending)"
  by (simp_all add: verify_checkpoint_def verify_checkpoint_publication_def Let_def)

end
