(* ===== verification/Protocol.thy ===== *)
theory Protocol
  imports Effects
begin

text \<open>
  The head object shared by all clients. A world records every version the head object ever had,
  oldest first, and the conditional updates this client has issued whose fate is open. Other
  clients may publish legal head steps at any time and a delayed update may still take effect while
  the version it names is current. The store may answer any request with any error, whether or
  not a write took effect; it answers \<open>Ok\<close> to a conditional update only when the update took effect
  on exactly the named version, and a successful read of the head returns the current one.

  \<open>wp\<close> quantifies over all these behaviours: \<open>wp E A hp Q p w\<close> says that from world \<open>w\<close>, whatever the
  store answers and the others do, every write of \<open>p\<close> to the head path \<open>hp\<close> is legal (it names a
  version that was current and writes a head one published step after it) and \<open>Q\<close> holds of the result and
  the final world. Responses for other paths are arbitrary. \<open>A\<close> restricts the steps of the others.
\<close>


section \<open>Worlds\<close>

record world =
  w_heads :: "(head \<times> update_version) list"
  w_flight :: "(head \<times> update_version) list"

definition current :: "world \<Rightarrow> head \<times> update_version" where
  "current w = last (w_heads w)"

definition durable :: "externals \<Rightarrow> head \<Rightarrow> bool" where
  "durable E h \<longleftrightarrow> (\<exists>bs. encode_head E h = Inr bs \<and> fits bs) \<and> head_fields_ok E h"

definition install :: "world \<Rightarrow> head \<Rightarrow> update_version \<Rightarrow> world" where
  "install w h v = w\<lparr>w_heads := w_heads w @ [(h, v)]\<rparr>"

definition world_ok :: "externals \<Rightarrow> world \<Rightarrow> bool" where
  "world_ok E w \<longleftrightarrow>
    w_heads w \<noteq> [] \<and> (\<exists>lid inc opts. fst (hd (w_heads w)) = head_empty lid inc opts)
    \<and> successively head_step (map fst (w_heads w))
    \<and> (\<forall>h\<in>fst ` set (w_heads w). durable E h)
    \<and> distinct (map snd (w_heads w))
    \<and> (\<forall>(h', v)\<in>set (w_flight w). durable E h' \<and> (\<exists>h. (h, v) \<in> set (w_heads w) \<and> head_step h h'))"

inductive env_step :: "externals \<Rightarrow> (head \<Rightarrow> head \<Rightarrow> bool) \<Rightarrow> world \<Rightarrow> world \<Rightarrow> bool" for E A where
  others: "head_step (fst (current w)) h' \<Longrightarrow> A (fst (current w)) h' \<Longrightarrow> durable E h' \<Longrightarrow>
    v' \<notin> snd ` set (w_heads w) \<Longrightarrow> env_step E A w (install w h' v')"
| delayed: "(h', snd (current w)) \<in> set (w_flight w) \<Longrightarrow> v' \<notin> snd ` set (w_heads w) \<Longrightarrow>
    env_step E A w (install w h' v')"

definition rely :: "externals \<Rightarrow> (head \<Rightarrow> head \<Rightarrow> bool) \<Rightarrow> world \<Rightarrow> world \<Rightarrow> bool" where
  "rely E A = (env_step E A)\<^sup>*\<^sup>*"

lemma rely_refl [simp, intro]: "rely E A w w"
  by (simp add: rely_def)

lemma rely_trans [trans]: "rely E A w w' \<Longrightarrow> rely E A w' w'' \<Longrightarrow> rely E A w w''"
  unfolding rely_def by (rule rtranclp_trans)

lemma rely_induct [consumes 1, case_names refl step]:
  assumes "rely E A w w'" "P w" "\<And>x y. rely E A w x \<Longrightarrow> env_step E A x y \<Longrightarrow> P x \<Longrightarrow> P y"
  shows "P w'"
  using assms(1) unfolding rely_def
  by (induction rule: rtranclp_induct) (use assms in \<open>auto simp: rely_def\<close>)


section \<open>Responses\<close>

definition head_response :: "externals \<Rightarrow> world \<Rightarrow> string option \<Rightarrow> store_error + get_result \<Rightarrow> bool" where
  "head_response E w tag r \<longleftrightarrow>
    (case r of
       Inl e \<Rightarrow> e = NotModified \<longrightarrow> tag \<noteq> None \<and> tag = e_tag (snd (current w))
     | Inr g \<Rightarrow> gr_version g = snd (current w)
         \<and> (\<forall>parts. gr_chunks g = map Inr parts \<longrightarrow> encode_head E (fst (current w)) = Inr (concat parts)))"

text \<open>The outcomes of a conditional update of the head: applied, refused or lost, or delayed.\<close>

inductive update_response ::
    "externals \<Rightarrow> world \<Rightarrow> bytes \<Rightarrow> put_mode \<Rightarrow> store_error + update_version \<Rightarrow> world \<Rightarrow> bool" for E w where
  applied: "decode_head E bs = Inr h' \<Longrightarrow> v' \<notin> snd ` set (w_heads w) \<Longrightarrow> r = Inr v' \<or> (\<exists>e. r = Inl e) \<Longrightarrow>
    update_response E w bs (Update (snd (current w))) r (install w h' v')"
| refused: "update_response E w bs mode (Inl e) w"
| in_flight: "decode_head E bs = Inr h' \<Longrightarrow>
    update_response E w bs (Update v) (Inl e) (w\<lparr>w_flight := (h', v) # w_flight w\<rparr>)"

definition legal_update :: "externals \<Rightarrow> world \<Rightarrow> bytes \<Rightarrow> put_mode \<Rightarrow> bool" where
  "legal_update E w bs mode \<longleftrightarrow>
    (\<exists>v h h'. mode = Update v \<and> (h, v) \<in> set (w_heads w) \<and> decode_head E bs = Inr h' \<and> durable E h'
      \<and> head_step h h')"

primrec wp ::
    "externals \<Rightarrow> (head \<Rightarrow> head \<Rightarrow> bool) \<Rightarrow> path \<Rightarrow> ('a \<Rightarrow> world \<Rightarrow> bool) \<Rightarrow> 'a prog \<Rightarrow> world \<Rightarrow> bool" where
  "wp E A hp Q (Done x) w = Q x w"
| "wp E A hp Q (Get p tag k) w =
    (\<forall>w' r. rely E A w w' \<longrightarrow> (p = hp \<longrightarrow> head_response E w' tag r) \<longrightarrow> wp E A hp Q (k r) w')"
| "wp E A hp Q (Put p bs mode k) w =
    (\<forall>w'. rely E A w w' \<longrightarrow>
      (if p = hp
       then legal_update E w' bs mode
         \<and> (\<forall>r w''. update_response E w' bs mode r w'' \<longrightarrow> wp E A hp Q (k r) w'')
       else \<forall>r. wp E A hp Q (k r) w'))"
| "wp E A hp Q (ListPrefix p k) w = (\<forall>w' r. rely E A w w' \<longrightarrow> wp E A hp Q (k r) w')"
| "wp E A hp Q (DeleteStream ps k) w =
    (hp \<notin> set ps \<and> (\<forall>w' r. rely E A w w' \<longrightarrow> wp E A hp Q (k r) w'))"
| "wp E A hp Q (Delete p k) w = (p \<noteq> hp \<and> (\<forall>w' r. rely E A w w' \<longrightarrow> wp E A hp Q (k r) w'))"
| "wp E A hp Q (Ask g q k) w = (\<forall>w' r. rely E A w w' \<longrightarrow> wp E A hp Q (k r) w')"
| "wp E A hp Q (NewUuid k) w = (\<forall>w' r. rely E A w w' \<longrightarrow> wp E A hp Q (k r) w')"
| "wp E A hp Q (Alloc k) w = (\<forall>w' r. rely E A w w' \<longrightarrow> wp E A hp Q (k r) w')"
| "wp E A hp Q (TailProof a k) w = (\<forall>w' r. rely E A w w' \<longrightarrow> wp E A hp Q (k r) w')"
| "wp E A hp Q (SetTailProof a d k) w = (\<forall>w'. rely E A w w' \<longrightarrow> wp E A hp Q k w')"
| "wp E A hp Q (PlanCell a k) w = (\<forall>w' r. rely E A w w' \<longrightarrow> wp E A hp Q (k r) w')"
| "wp E A hp Q (InitPlanCell a c k) w = (\<forall>w' r. rely E A w w' \<longrightarrow> wp E A hp Q (k r) w')"
| "wp E A hp Q (Next n k) w = (\<forall>w' r. rely E A w w' \<longrightarrow> wp E A hp Q (k r) w')"

lemma wp_await: "wp E A hp Q (await p f) w \<longleftrightarrow> wp E A hp (\<lambda>x. wp E A hp Q (f x)) p w"
  by (induction p arbitrary: w) simp_all

lemma wp_mono:
  assumes "wp E A hp Q p w" "\<And>x w. Q x w \<Longrightarrow> Q' x w"
  shows "wp E A hp Q' p w"
  using assms(1)
proof (induction p arbitrary: w)
  case (Put p bs mode k)
  then show ?case by (simp split: if_splits)
qed (use assms(2) in \<open>auto\<close>)


section \<open>Programs that leave the head alone\<close>

lemma wp_ends:
  assumes "safely (\<lambda>e. effect_path e \<noteq> hp) R p" "\<And>x w'. rely E A w w' \<Longrightarrow> R x \<Longrightarrow> Q x w'"
  shows "wp E A hp Q p w"
  using assms
proof (induction p arbitrary: w)
  case (Put p bs mode k)
  then show ?case by (simp, metis rangeI rely_trans)
qed (simp; metis rangeI rely_trans rely_refl effect_path.simps)+

lemma wp_quiet:
  assumes "quiet hp p" "\<And>x w'. rely E A w w' \<Longrightarrow> Q x w'"
  shows "wp E A hp Q p w"
  using assms by (rule wp_ends)

end
