(* ===== verification/World.thy ===== *)
theory World
  imports Protocol "HOL-Library.Sublist"
begin

text \<open>
  The published log of a world and its invariants: the commits appended by the successive heads,
  that every reachable world is well-formed and only grows, and when a commit that is not in the
  log can no longer enter it.
\<close>


section \<open>The published log\<close>

definition appended :: "head \<Rightarrow> head \<Rightarrow> commit_ref list" where
  "appended h h' = (if next_sequence h' = next_sequence h then [] else [last (tail h')])"

fun log_of :: "head list \<Rightarrow> commit_ref list" where
  "log_of (h # h' # hs) = appended h h' @ log_of (h' # hs)"
| "log_of _ = []"

definition world_log :: "world \<Rightarrow> commit_ref list" where
  "world_log w = log_of (map fst (w_heads w))"

lemma log_of_snoc: "hs \<noteq> [] \<Longrightarrow> log_of (hs @ [h]) = log_of hs @ appended (last hs) h"
  by (induction hs rule: log_of.induct) auto

lemma world_log_install:
  "w_heads w \<noteq> [] \<Longrightarrow> world_log (install w h v) = world_log w @ appended (fst (current w)) h"
  by (simp add: world_log_def install_def log_of_snoc current_def last_map)

lemma candidate_appended: "candidate_head h c = Inr h' \<Longrightarrow> appended h h' = [c]"
  by (auto simp: candidate_head_Inr appended_def)

lemma represents_appended:
  assumes "head_step h h'" "represents h L"
  shows "represents h' (L @ appended h h')"
  using assms
proof (induction rule: head_step.induct)
  case (step_append c h h')
  then show ?case using represents_append by (simp add: candidate_appended)
next
  case (step_checkpoint h through obj h')
  then have "next_sequence h' = next_sequence h"
    by (auto simp: checkpoint_head_Inr compacted_head_def)
  with step_checkpoint show ?case by (simp add: appended_def represents_checkpoint)
qed (auto simp: represents_def base_start_def step_defs appended_def split: option.splits)

lemma represents_log_of:
  assumes "successively head_step hs" "hs \<noteq> []" "hd hs = head_empty lid inc opts"
  shows "represents (last hs) (log_of hs)"
  using assms
proof (induction hs rule: rev_induct)
  case (snoc h hs)
  show ?case
  proof (cases "hs = []")
    case True
    with snoc show ?thesis by (simp add: represents_empty)
  next
    case False
    with snoc have "represents (last hs) (log_of hs)" "head_step (last hs) h"
      by (simp_all add: successively_append_iff)
    with False show ?thesis by (simp add: log_of_snoc represents_appended)
  qed
qed simp

lemma durable_ok: "durable E h \<Longrightarrow> head_ok (usize_MAX E) h"
  by (auto simp: durable_def encode_head_def and_then_Inr head_validate_iff)

lemma world_represents: "world_ok E w \<Longrightarrow> represents (fst (current w)) (world_log w)"
  unfolding world_ok_def world_log_def current_def
  using represents_log_of [of "map fst (w_heads w)"] by (auto simp: hd_map last_map)

lemma world_chain: "world_ok E w \<Longrightarrow> head_chain (usize_MAX E) (map fst (w_heads w))"
  by (auto simp: world_ok_def head_chain_def durable_ok)


section \<open>Reachable worlds\<close>

lemma current_in [simp]: "w_heads w \<noteq> [] \<Longrightarrow> current w \<in> set (w_heads w)"
  by (simp add: current_def)

lemma version_unique:
  assumes "world_ok E w" "(h, v) \<in> set (w_heads w)" "(h', v) \<in> set (w_heads w)"
  shows "h = h'"
proof -
  have "inj_on snd (set (w_heads w))"
    using assms(1) by (simp add: world_ok_def distinct_map)
  with assms(2,3) show ?thesis by (metis inj_onD prod.inject snd_conv)
qed

lemma world_ok_install:
  assumes ok: "world_ok E w" and step: "head_step (fst (current w)) h'" "durable E h'"
    and fresh: "v' \<notin> snd ` set (w_heads w)"
  shows "world_ok E (install w h' v')"
proof -
  have "successively head_step (map fst (w_heads w) @ [h'])"
    using ok step by (auto simp: world_ok_def successively_append_iff current_def last_map)
  moreover have "\<forall>(g, v)\<in>set (w_flight w). durable E g
      \<and> (\<exists>h. (h, v) \<in> set (w_heads w @ [(h', v')]) \<and> head_step h g)"
    using ok unfolding world_ok_def by fastforce
  ultimately show ?thesis
    using assms by (simp add: world_ok_def install_def hd_append)
qed

lemma delayed_step:
  assumes "world_ok E w" "(h', snd (current w)) \<in> set (w_flight w)"
  shows "head_step (fst (current w)) h'" "durable E h'"
proof -
  obtain h where "durable E h'" "(h, snd (current w)) \<in> set (w_heads w)" "head_step h h'"
    using assms by (auto simp: world_ok_def)
  moreover have "(fst (current w), snd (current w)) \<in> set (w_heads w)"
    using assms by (simp add: world_ok_def)
  moreover from calculation have "h = fst (current w)"
    using version_unique [OF assms(1)] by blast
  ultimately show "head_step (fst (current w)) h'" "durable E h'" by simp_all
qed

lemma env_step_ok: "env_step E A w w' \<Longrightarrow> world_ok E w \<Longrightarrow> world_ok E w'"
  by (induction rule: env_step.induct) (auto intro: world_ok_install dest: delayed_step)

lemma rely_ok: "rely E A w w' \<Longrightarrow> world_ok E w \<Longrightarrow> world_ok E w'"
  by (induction rule: rely_induct) (auto intro: env_step_ok)

lemma env_step_grows: "env_step E A w w' \<Longrightarrow> prefix (w_heads w) (w_heads w') \<and> w_flight w' = w_flight w"
  by (induction rule: env_step.induct) (auto simp: install_def)

lemma rely_grows:
  assumes "rely E A w w'"
  shows "prefix (w_heads w) (w_heads w')" "w_flight w' = w_flight w"
proof -
  have "prefix (w_heads w) (w_heads w') \<and> w_flight w' = w_flight w"
    using assms by (induction rule: rely_induct) (auto dest: env_step_grows intro: prefix_order.trans)
  then show "prefix (w_heads w) (w_heads w')" "w_flight w' = w_flight w" by simp_all
qed

lemma prefix_nth: "prefix xs ys \<Longrightarrow> i < length xs \<Longrightarrow> ys ! i = xs ! i"
  by (auto simp: prefix_def nth_append)

lemma rely_nth: "rely E A w w' \<Longrightarrow> i < length (w_heads w) \<Longrightarrow> w_heads w' ! i = w_heads w ! i"
  by (simp add: prefix_nth rely_grows)

lemma rely_length: "rely E A w w' \<Longrightarrow> length (w_heads w) \<le> length (w_heads w')"
  by (simp add: prefix_length_le rely_grows)

lemma rely_member: "rely E A w w' \<Longrightarrow> x \<in> set (w_heads w) \<Longrightarrow> x \<in> set (w_heads w')"
  using set_mono_prefix [OF rely_grows(1)] by blast

lemma env_step_log:
  assumes "env_step E A w w'" "world_ok E w"
  shows "prefix (world_log w) (world_log w')"
  using assms by (induction rule: env_step.induct) (auto simp: world_log_install world_ok_def)

lemma rely_log:
  assumes "rely E A w w'" "world_ok E w"
  shows "prefix (world_log w) (world_log w')"
  using assms
proof (induction rule: rely_induct)
  case (step x y)
  then show ?case using env_step_log rely_ok prefix_order.trans by metis
qed simp

lemma published_stays: "rely E A w w' \<Longrightarrow> world_ok E w \<Longrightarrow> c \<in> set (world_log w) \<Longrightarrow> c \<in> set (world_log w')"
  using set_mono_prefix [OF rely_log] by blast

text \<open>Where two heads of a world share their version, they are the same entry.\<close>

lemma world_index:
  assumes "world_ok E w" "i < length (w_heads w)" "j < length (w_heads w)"
    and "snd (w_heads w ! i) = snd (w_heads w ! j)"
  shows "i = j"
  using assms by (simp add: world_ok_def distinct_conv_nth [of "map snd _"]) metis

lemma world_generation:
  assumes "world_ok E w" "i \<le> j" "j < length (w_heads w)"
  shows "unat (generation (fst (w_heads w ! j))) = unat (generation (fst (w_heads w ! i))) + (j - i)"
  using head_chain_generation [OF world_chain [OF assms(1)] assms(2)] assms by simp


lemma update_response_grows: "update_response E w bs mode r w' \<Longrightarrow> prefix (w_heads w) (w_heads w')"
  by (induction rule: update_response.induct) (simp_all add: install_def)

lemma rely_prefix: "prefix hs (w_heads w) \<Longrightarrow> rely E A w w' \<Longrightarrow> prefix hs (w_heads w')"
  using rely_grows(1) prefix_order.trans by blast

lemma wp_keeps:
  "wp E A hp Q p w \<Longrightarrow> prefix hs (w_heads w) \<Longrightarrow> wp E A hp (\<lambda>r w'. Q r w' \<and> prefix hs (w_heads w')) p w"
proof (induction p arbitrary: w)
  case (Put p bs mode k)
  show ?case
  proof (cases "p = hp")
    case True
    have "prefix hs (w_heads w'')"
      if "rely E A w w'" "update_response E w' bs mode r w''" for w' w'' r
      using rely_prefix [OF Put.prems(2) that(1)] update_response_grows [OF that(2)]
      by (rule prefix_order.trans)
    with Put True show ?thesis by auto
  next
    case False
    with Put show ?thesis by (auto intro: rely_prefix)
  qed
qed (auto intro: rely_prefix)

lemma wp_grows: "wp E A hp Q p w \<Longrightarrow> wp E A hp (\<lambda>r w'. Q r w' \<and> prefix (w_heads w) (w_heads w')) p w"
  by (simp add: wp_keeps)


section \<open>Transitions that can no longer happen\<close>

text \<open>
  A publication is a transition \<open>T h h'\<close> between consecutive heads. \<open>flights_below T n w\<close>: the open updates of
  this client that would perform it all name one of the versions up to index \<open>n\<close>. Once the head has
  moved past \<open>n\<close> without it, none of them can take effect any more.
\<close>

definition happened :: "(head \<Rightarrow> head \<Rightarrow> bool) \<Rightarrow> world \<Rightarrow> bool" where
  "happened T w \<longleftrightarrow>
    (\<exists>i. Suc i < length (w_heads w) \<and> T (fst (w_heads w ! i)) (fst (w_heads w ! Suc i)))"

definition flights_below :: "(head \<Rightarrow> head \<Rightarrow> bool) \<Rightarrow> nat \<Rightarrow> world \<Rightarrow> bool" where
  "flights_below T n w \<longleftrightarrow> n < length (w_heads w) \<and>
    (\<forall>(h', v)\<in>set (w_flight w). \<forall>h. (h, v) \<in> set (w_heads w) \<longrightarrow> T h h' \<longrightarrow>
      (\<exists>m\<le>n. w_heads w ! m = (h, v)))"

definition avoids :: "(head \<Rightarrow> head \<Rightarrow> bool) \<Rightarrow> head \<Rightarrow> head \<Rightarrow> bool" where
  "avoids T h h' \<longleftrightarrow> \<not> T h h'"

definition sealed :: "(head \<Rightarrow> head \<Rightarrow> bool) \<Rightarrow> world \<Rightarrow> bool" where
  "sealed T w \<longleftrightarrow> \<not> happened T w \<and> (\<exists>n. flights_below T n w \<and> Suc n < length (w_heads w))"

definition never :: "externals \<Rightarrow> (head \<Rightarrow> head \<Rightarrow> bool) \<Rightarrow> world \<Rightarrow> bool" where
  "never E T w \<longleftrightarrow> (\<forall>w'. rely E (avoids T) w w' \<longrightarrow> \<not> happened T w')"

lemma happened_install:
  assumes "w_heads w \<noteq> []"
  shows "happened T (install w h v) \<longleftrightarrow> happened T w \<or> T (fst (current w)) h"
proof -
  have cur: "w_heads w ! (length (w_heads w) - 1) = current w"
    using assms by (simp add: current_def last_conv_nth)
  have "T (fst (current w)) h \<Longrightarrow> happened T (install w h v)"
    unfolding happened_def install_def
    by (rule exI [of _ "length (w_heads w) - 1"]) (use assms cur in \<open>simp add: nth_append\<close>)
  moreover have "happened T (install w h v)" if hyp: "happened T w"
  proof -
    obtain i where "Suc i < length (w_heads w)" "T (fst (w_heads w ! i)) (fst (w_heads w ! Suc i))"
      using hyp by (auto simp: happened_def)
    then show ?thesis
      unfolding happened_def install_def by (intro exI [of _ i]) (simp add: nth_append)
  qed
  moreover have "happened T w \<or> T (fst (current w)) h" if hyp: "happened T (install w h v)"
  proof -
    obtain i where i: "i < length (w_heads w)"
        "T (fst ((w_heads w @ [(h, v)]) ! i)) (fst ((w_heads w @ [(h, v)]) ! Suc i))"
      using hyp by (auto simp: happened_def install_def)
    show ?thesis
    proof (cases "Suc i < length (w_heads w)")
      case True
      with i show ?thesis by (auto simp: happened_def nth_append)
    next
      case False
      with i(1) have "i = length (w_heads w) - 1" by simp
      with i assms cur show ?thesis by (simp add: nth_append)
    qed
  qed
  ultimately show ?thesis by blast
qed

lemma flights_belowI:
  assumes "n < length (w_heads w)"
    and "\<And>h' v h. (h', v) \<in> set (w_flight w) \<Longrightarrow> (h, v) \<in> set (w_heads w) \<Longrightarrow> T h h' \<Longrightarrow>
      \<exists>m\<le>n. w_heads w ! m = (h, v)"
  shows "flights_below T n w"
  using assms by (auto simp: flights_below_def)

lemma flights_belowD:
  assumes "flights_below T n w" "(h', v) \<in> set (w_flight w)" "(h, v) \<in> set (w_heads w)" "T h h'"
  obtains m where "m \<le> n" "w_heads w ! m = (h, v)"
  using assms unfolding flights_below_def by blast

lemma flights_below_length: "flights_below T n w \<Longrightarrow> n < length (w_heads w)"
  by (simp add: flights_below_def)

lemma flights_below_flight:
  assumes ok: "world_ok E w" and below: "flights_below T n w" and fl: "(h', v) \<in> set (w_flight w)"
    and m: "m < length (w_heads w)" "w_heads w ! m = (h, v)" "T h h'"
  shows "m \<le> n"
proof -
  have "(h, v) \<in> set (w_heads w)" using m by (metis nth_mem)
  from flights_belowD [OF below fl this m(3)] obtain k where k: "k \<le> n" "w_heads w ! k = (h, v)" .
  then have "k = m"
    using world_index [OF ok, of k m] m flights_below_length [OF below] by simp
  with k show ?thesis by simp
qed

lemma flights_below_rely:
  assumes ok: "world_ok E w" and below: "flights_below T n w" and rely: "rely E A w w'"
  shows "flights_below T n w'"
proof (rule flights_belowI)
  note len = flights_below_length [OF below]
  then show "n < length (w_heads w')" using rely_length [OF rely] by simp
  fix h' v h assume asm: "(h', v) \<in> set (w_flight w')" "(h, v) \<in> set (w_heads w')" "T h h'"
  have fl: "(h', v) \<in> set (w_flight w)" using asm(1) rely_grows(2) [OF rely] by simp
  then obtain h0 where h0: "(h0, v) \<in> set (w_heads w)"
    using ok by (auto simp: world_ok_def)
  then have "h = h0"
    using version_unique [OF rely_ok [OF rely ok] asm(2) rely_member [OF rely]] by blast
  with h0 flights_belowD [OF below fl _ asm(3)] obtain m where "m \<le> n" "w_heads w ! m = (h, v)" by blast
  with len show "\<exists>m\<le>n. w_heads w' ! m = (h, v)"
    using rely_nth [OF rely, of m] by (intro exI [of _ m]) simp
qed

lemma sealed_step:
  assumes step: "env_step E (avoids T) w w'" and ok: "world_ok E w" and sealed: "sealed T w"
  shows "sealed T w'"
proof -
  obtain n where n: "flights_below T n w" "Suc n < length (w_heads w)" and before: "\<not> happened T w"
    using sealed by (auto simp: sealed_def)
  have ne: "w_heads w \<noteq> []" using ok by (simp add: world_ok_def)
  have rely: "rely E (avoids T) w w'"
    using step by (auto simp: rely_def)
  have "\<not> happened T w'"
    using step
  proof cases
    case (others h' v')
    then show ?thesis using before ne by (simp add: happened_install avoids_def)
  next
    case (delayed h' v')
    have "w_heads w ! (length (w_heads w) - 1) = (fst (current w), snd (current w))"
      using ne by (simp add: current_def last_conv_nth)
    from flights_below_flight [OF ok n(1) delayed(2) _ this] n(2) have "\<not> T (fst (current w)) h'"
      by fastforce
    then show ?thesis using before ne delayed by (simp add: happened_install)
  qed
  moreover have "flights_below T n w'" "Suc n < length (w_heads w')"
    using flights_below_rely [OF ok n(1) rely] rely_length [OF rely] n(2) by simp_all
  ultimately show ?thesis by (auto simp: sealed_def)
qed

lemma sealed_never:
  assumes "world_ok E w" "sealed T w"
  shows "never E T w"
  unfolding never_def
proof (intro allI impI)
  fix w' assume "rely E (avoids T) w w'"
  then have "sealed T w'"
  proof (induction rule: rely_induct)
    case (step x y)
    then show ?case using sealed_step rely_ok assms(1) by blast
  qed (rule assms(2))
  then show "\<not> happened T w'" by (simp add: sealed_def)
qed

lemma never_rely: "never E T w \<Longrightarrow> rely E (avoids T) w w' \<Longrightarrow> never E T w'"
  unfolding never_def using rely_trans by blast


section \<open>Positions in the history\<close>

definition at_index :: "view \<Rightarrow> nat \<Rightarrow> world \<Rightarrow> bool" where
  "at_index v n w \<longleftrightarrow> n < length (w_heads w) \<and> w_heads w ! n = (v_head v, v_version v)"

lemma at_index_rely: "rely E A w w' \<Longrightarrow> at_index v n w \<Longrightarrow> at_index v n w'"
  using rely_nth [of E A w w' n] rely_length [of E A w w'] by (simp add: at_index_def)

lemma at_index_member: "at_index v n w \<Longrightarrow> (v_head v, v_version v) \<in> set (w_heads w)"
  using nth_mem [of n "w_heads w"] by (simp add: at_index_def)

lemma at_index_install: "at_index v n w \<Longrightarrow> at_index v n (install w h ver)"
  by (simp add: at_index_def install_def nth_append)

lemma member_durable: "world_ok E w \<Longrightarrow> (h, v) \<in> set (w_heads w) \<Longrightarrow> durable E h"
  by (force simp: world_ok_def)

lemma flights_below_mono:
  assumes "flights_below T n w" "n \<le> m" "m < length (w_heads w)"
  shows "flights_below T m w"
proof (rule flights_belowI [OF assms(3)])
  fix h' v h assume "(h', v) \<in> set (w_flight w)" "(h, v) \<in> set (w_heads w)" "T h h'"
  from flights_belowD [OF assms(1) this] obtain k where "k \<le> n" "w_heads w ! k = (h, v)" .
  with assms(2) show "\<exists>k\<le>m. w_heads w ! k = (h, v)" by (meson le_trans)
qed

lemma flights_below_install:
  assumes ok: "world_ok E w" and below: "flights_below T n w" and fresh: "ver \<notin> snd ` set (w_heads w)"
  shows "flights_below T n (install w g ver)"
proof (rule flights_belowI)
  note len = flights_below_length [OF below]
  then show "n < length (w_heads (install w g ver))" by (simp add: install_def)
  fix h' v h assume fl: "(h', v) \<in> set (w_flight (install w g ver))"
    and h: "(h, v) \<in> set (w_heads (install w g ver))" and app: "T h h'"
  from fl have fl: "(h', v) \<in> set (w_flight w)" by (simp add: install_def)
  then have "v \<noteq> ver" using ok fresh by (force simp: world_ok_def)
  with h have "(h, v) \<in> set (w_heads w)" by (auto simp: install_def)
  from flights_belowD [OF below fl this app] obtain m where "m \<le> n" "w_heads w ! m = (h, v)" .
  with len show "\<exists>m\<le>n. w_heads (install w g ver) ! m = (h, v)"
    by (intro exI [of _ m]) (simp add: install_def nth_append)
qed

lemma flights_below_issue:
  assumes ok: "world_ok E w" and below: "flights_below T n w" and view: "w_heads w ! n = (h, v)"
  shows "flights_below T n (w\<lparr>w_flight := (h', v) # w_flight w\<rparr>)"
proof (rule flights_belowI)
  show "n < length (w_heads (w\<lparr>w_flight := (h', v) # w_flight w\<rparr>))"
    using flights_below_length [OF below] by simp
  fix g' u g assume "(g', u) \<in> set (w_flight (w\<lparr>w_flight := (h', v) # w_flight w\<rparr>))"
    and "(g, u) \<in> set (w_heads (w\<lparr>w_flight := (h', v) # w_flight w\<rparr>))" "T g g'"
  then have "u = v \<or> (g', u) \<in> set (w_flight w)" and g: "(g, u) \<in> set (w_heads w)" "T g g'"
    by auto
  then show "\<exists>m\<le>n. w_heads (w\<lparr>w_flight := (h', v) # w_flight w\<rparr>) ! m = (g, u)"
  proof (elim disjE)
    assume "u = v"
    then have "g = h"
      using version_unique [OF ok] g(1) view nth_mem [OF flights_below_length [OF below]] by simp
    with view \<open>u = v\<close> show ?thesis by auto
  next
    assume "(g', u) \<in> set (w_flight w)"
    from flights_belowD [OF below this g] show ?thesis by auto
  qed
qed


section \<open>Commits that can no longer be published\<close>

definition appends :: "commit_ref \<Rightarrow> head \<Rightarrow> head \<Rightarrow> bool" where
  "appends c h h' \<longleftrightarrow> appended h h' = [c]"

definition never_published :: "externals \<Rightarrow> commit_ref \<Rightarrow> world \<Rightarrow> bool" where
  "never_published E c w \<longleftrightarrow> (\<forall>w'. rely E (avoids (appends c)) w w' \<longrightarrow> c \<notin> set (world_log w'))"

lemma in_log_of:
  "c \<in> set (log_of hs) \<longleftrightarrow> (\<exists>i. Suc i < length hs \<and> appended (hs ! i) (hs ! Suc i) = [c])"
proof (induction hs rule: log_of.induct)
  case (1 h h' hs)
  have "(\<exists>i. Suc i < length (h # h' # hs) \<and> appended ((h # h' # hs) ! i) ((h # h' # hs) ! Suc i) = [c])
    \<longleftrightarrow> appended h h' = [c] \<or> (\<exists>i. Suc i < length (h' # hs) \<and> appended ((h' # hs) ! i) ((h' # hs) ! Suc i) = [c])"
    (is "(\<exists>i. ?P i) \<longleftrightarrow> _ \<or> (\<exists>i. ?R i)")
  proof -
    have "(\<exists>i. ?P i) \<longleftrightarrow> ?P 0 \<or> (\<exists>i. ?P (Suc i))" by (metis not0_implies_Suc)
    then show ?thesis by simp
  qed
  then show ?case using 1 by (auto simp: appended_def)
qed simp_all

lemma in_world_log: "c \<in> set (world_log w) \<longleftrightarrow> happened (appends c) w"
  by (auto simp: world_log_def in_log_of happened_def appends_def)

lemma never_published_iff: "never_published E c w \<longleftrightarrow> never E (appends c) w"
  by (simp add: never_published_def never_def in_world_log)

end
