(* ===== verification/Publication.thy ===== *)
theory Publication
  imports World
begin

text \<open>
  What publication promises against every behaviour of the store and of the other clients: the
  reloaded head is one that was current, every head write is a legal step of a head that was
  current, a reported commit is in the published log, and a reported conflict can never become a
  commit.
\<close>


section \<open>Rules for the steps of a method\<close>

lemma wp_await_try:
  "wp E A hp Q (await_try p f) w \<longleftrightarrow>
    wp E A hp (\<lambda>r w. case r of Inl e \<Rightarrow> Q (Inl e) w | Inr x \<Rightarrow> wp E A hp Q (f x) w) p w"
proof -
  have "(\<lambda>x. wp E A hp Q (case x of Inl e \<Rightarrow> Done (Inl e) | Inr x \<Rightarrow> f x))
      = (\<lambda>r w. case r of Inl e \<Rightarrow> Q (Inl e) w | Inr x \<Rightarrow> wp E A hp Q (f x) w)"
    by (auto simp: fun_eq_iff split: sum.splits)
  then show ?thesis by (simp add: await_try_def wp_await)
qed

lemma wp_attempt:
  "wp E A hp Q (attempt r f) w \<longleftrightarrow> (case r of Inl e \<Rightarrow> Q (Inl e) w | Inr x \<Rightarrow> wp E A hp Q (f x) w)"
  by (cases r) simp_all

lemma wp_return [simp]:
  "wp E A hp Q (succeed x) w \<longleftrightarrow> Q (Inr x) w"
  "wp E A hp Q (fail_with e) w \<longleftrightarrow> Q (Inl e) w"
  by (simp_all add: succeed_def fail_with_def)

lemmas wp_simps = wp_await wp_await_try wp_attempt

lemma wp_await_quiet:
  assumes "quiet hp p" "\<And>x w'. rely E A w w' \<Longrightarrow> wp E A hp Q (f x) w'"
  shows "wp E A hp Q (await p f) w"
  unfolding wp_await using assms by (rule wp_quiet)

lemma wp_try_quiet:
  assumes "quiet hp p" "\<And>e w'. rely E A w w' \<Longrightarrow> Q (Inl e) w'"
    and "\<And>x w'. rely E A w w' \<Longrightarrow> wp E A hp Q (f x) w'"
  shows "wp E A hp Q (await_try p f) w"
  unfolding wp_await_try using assms(1) by (rule wp_quiet) (use assms in \<open>simp split: sum.splits\<close>)

lemma wp_ifI:
  assumes "b \<Longrightarrow> wp E A hp Q p w" "\<not> b \<Longrightarrow> wp E A hp Q q w"
  shows "wp E A hp Q (if b then p else q) w"
  using assms by simp

text \<open>The same for what the operation knows: a predicate that the others cannot invalidate.\<close>

definition stable :: "externals \<Rightarrow> (head \<Rightarrow> head \<Rightarrow> bool) \<Rightarrow> (world \<Rightarrow> bool) \<Rightarrow> bool" where
  "stable E A R \<longleftrightarrow> (\<forall>w w'. R w \<longrightarrow> rely E A w w' \<longrightarrow> R w')"

lemma stableI: "(\<And>w w'. R w \<Longrightarrow> rely E A w w' \<Longrightarrow> R w') \<Longrightarrow> stable E A R"
  by (simp add: stable_def)

lemma stable_conj: "stable E A R \<Longrightarrow> stable E A R' \<Longrightarrow> stable E A (\<lambda>w. R w \<and> R' w)"
  unfolding stable_def by blast

lemma wp_await_stable:
  assumes "stable E A R" "R w" "quiet hp p" "\<And>x w'. R w' \<Longrightarrow> wp E A hp Q (f x) w'"
  shows "wp E A hp Q (await p f) w"
  using assms(3) by (rule wp_await_quiet) (use assms in \<open>unfold stable_def, blast\<close>)

lemma wp_try_stable:
  assumes "stable E A R" "R w" "quiet hp p" "\<And>e w'. R w' \<Longrightarrow> Q (Inl e) w'"
    and "\<And>x w'. R w' \<Longrightarrow> wp E A hp Q (f x) w'"
  shows "wp E A hp Q (await_try p f) w"
  using assms(3) by (rule wp_try_quiet) (use assms in \<open>unfold stable_def, blast\<close>)+

lemma wp_evidence_stable:
  assumes "stable E A R" "R w" "quiet hp p"
    and "\<And>e w'. R w' \<Longrightarrow> Q (Inl e) w'" "\<And>w'. R w' \<Longrightarrow> Q (Inr x) w'" "\<And>w'. R w' \<Longrightarrow> wp E A hp Q k w'"
  shows "wp E A hp Q (await p (\<lambda>r. attempt (publication_evidence r) (\<lambda>evidence.
    if evidence = None then succeed x else k))) w"
  using assms(1-3) by (rule wp_await_stable) (use assms(4-) in \<open>simp add: wp_attempt split: sum.splits\<close>)

lemma wp_attemptI:
  assumes "\<And>e. r = Inl e \<Longrightarrow> Q (Inl e) w" "\<And>x. r = Inr x \<Longrightarrow> wp E A hp Q (f x) w"
  shows "wp E A hp Q (attempt r f) w"
  using assms by (simp add: wp_attempt split: sum.splits)

lemma wp_ask_guards:
  assumes "\<And>w'. rely E A w w' \<Longrightarrow> Q (Inr ()) w'" "\<And>w'. rely E A w w' \<Longrightarrow> Q (Inl RequestDenied) w'"
  shows "wp E A hp Q (ask_guards gs req) w"
  using assms
proof (induction gs arbitrary: w)
  case (Cons g gs)
  have "wp E A hp Q (ask_guards gs req) w'" if "rely E A w w'" for w'
    using Cons.prems that rely_trans by (intro Cons.IH) blast+
  with Cons.prems show ?case by simp
qed simp

lemma wp_admit:
  assumes "\<And>w'. rely E A w w' \<Longrightarrow> Q (Inr ()) w'" "\<And>w'. rely E A w w' \<Longrightarrow> Q (Inl RequestDenied) w'"
  shows "wp E A hp Q (admit s req) w"
  unfolding admit_def using assms by (rule wp_ask_guards)

lemma wp_retry_from:
  assumes read: "\<And>w'. rely E A w w' \<Longrightarrow> wp E A hp (\<lambda>r w1. rely E A w w1 \<and> Q r w1) p w'"
    and denied: "\<And>w'. rely E A w w' \<Longrightarrow> Q (Inl RequestDenied) w'"
  shows "rely E A w w' \<Longrightarrow> wp E A hp Q (retry_safe_read_from n s max_bytes p) w'"
proof (induction n arbitrary: w')
  case 0
  show ?case
    unfolding retry_safe_read_from.simps wp_await_try
  proof (rule wp_admit)
    fix w1 assume "rely E A w' w1"
    with 0 have w1: "rely E A w w1" by (rule rely_trans)
    then show "case Inl RequestDenied of Inl e \<Rightarrow> Q (Inl e) w1 | Inr x \<Rightarrow> wp E A hp Q (await p Done) w1"
      using denied by simp
    show "case Inr () of Inl e \<Rightarrow> Q (Inl e) w1 | Inr x \<Rightarrow> wp E A hp Q (await p Done) w1"
      using wp_mono [OF read [OF w1]] by simp
  qed
next
  case (Suc n)
  let ?again = "\<lambda>r. if r = Inl (Store Generic) then retry_safe_read_from n s max_bytes p else Done r"
  show ?case
    unfolding retry_safe_read_from.simps wp_await_try
  proof (rule wp_admit)
    fix w1 assume "rely E A w' w1"
    with Suc.prems have w1: "rely E A w w1" by (rule rely_trans)
    then show "case Inl RequestDenied of Inl e \<Rightarrow> Q (Inl e) w1 | Inr x \<Rightarrow> wp E A hp Q (await p ?again) w1"
      using denied by simp
    have "wp E A hp (\<lambda>r. wp E A hp Q (?again r)) p w1"
      by (rule wp_mono [OF read [OF w1]]) (simp add: Suc.IH)
    then show "case Inr () of Inl e \<Rightarrow> Q (Inl e) w1 | Inr x \<Rightarrow> wp E A hp Q (await p ?again) w1"
      by (simp add: wp_await)
  qed
qed


section \<open>Reading the head\<close>

lemma collect_chunks_Inr:
  "collect_chunks E max_bytes bs cs = Inr out \<Longrightarrow>
    \<exists>parts. cs = map Inr parts \<and> out = bs @ concat parts"
proof (induction E max_bytes bs cs arbitrary: out rule: collect_chunks.induct)
  case (2 E max_bytes bs chunk cs)
  from "2.prems" obtain part n where part: "chunk = Inr part" "\<not> max_bytes < n"
      "collect_chunks E max_bytes (bs @ part) cs = Inr out"
    by (auto simp: and_then_Inr map_err_Inr ok_or_Inr split: if_splits)
  then obtain parts where "cs = map Inr parts" "out = (bs @ part) @ concat parts"
    using "2.IH" by blast
  with part show ?case by (intro exI [of _ "part # parts"]) simp
qed simp

lemma collect_object_Inr:
  assumes "collect_object E r max_bytes = Inr stored"
  shows "so_version stored = gr_version r"
    and "\<exists>parts. gr_chunks r = map Inr parts \<and> so_bytes stored = concat parts"
proof -
  obtain bs where "collect_chunks E max_bytes [] (gr_chunks r) = Inr bs"
    and stored: "stored = \<lparr>so_bytes = bs, so_version = gr_version r\<rparr>"
    using assms by (auto simp: collect_object_def and_then_Inr split: if_splits)
  from collect_chunks_Inr [OF this(1)] show "\<exists>parts. gr_chunks r = map Inr parts \<and> so_bytes stored = concat parts"
    by (auto simp: stored)
  show "so_version stored = gr_version r" by (simp add: stored)
qed

definition reads_current :: "externals \<Rightarrow> (head \<Rightarrow> head \<Rightarrow> bool) \<Rightarrow> world \<Rightarrow> stored_object \<Rightarrow> world \<Rightarrow> bool" where
  "reads_current E A w stored w' \<longleftrightarrow> rely E A w w'
    \<and> encode_head E (fst (current w')) = Inr (so_bytes stored) \<and> so_version stored = snd (current w')"

lemma wp_read_head:
  assumes found: "\<And>stored w'. reads_current E A w stored w' \<Longrightarrow> Q (Inr (Some stored)) w'"
    and missing: "\<And>w'. rely E A w w' \<Longrightarrow> Q (Inr None) w'" and failed: "\<And>e w'. rely E A w w' \<Longrightarrow> Q (Inl e) w'"
  shows "wp E A (ss_scope s @ [''index.cbor'']) Q (read E s HeadKey max_bytes) w"
  unfolding read_def read_with_def retry_safe_read_def
proof (rule wp_retry_from)
  fix w' assume w': "rely E A w w'"
  show "wp E A (ss_scope s @ [''index.cbor'']) (\<lambda>r w1. rely E A w w1 \<and> Q r w1)
     (Get (location E s HeadKey) None (\<lambda>r. case r of
        Inl NotFound \<Rightarrow> succeed None | Inl error \<Rightarrow> fail_with (Store error)
      | Inr result \<Rightarrow> attempt (collect_object E result max_bytes) (\<lambda>x. succeed (Some x)))) w'"
  proof (simp, intro allI impI)
    fix w1 r assume w1: "rely E A w' w1" and r: "head_response E w1 None r"
    have reach: "rely E A w w1" using w' w1 by (rule rely_trans)
    show "wp E A (ss_scope s @ [''index.cbor'']) (\<lambda>r w1. rely E A w w1 \<and> Q r w1)
        (case r of Inl NotFound \<Rightarrow> succeed None | Inl error \<Rightarrow> fail_with (Store error)
         | Inr result \<Rightarrow> attempt (collect_object E result max_bytes) (\<lambda>x. succeed (Some x))) w1"
    proof (cases r)
      case (Inl e)
      then show ?thesis using reach missing failed by (cases e) simp_all
    next
      case (Inr g)
      have "reads_current E A w stored w1" if "collect_object E g max_bytes = Inr stored" for stored
        using collect_object_Inr [OF that] r reach
        by (auto simp: reads_current_def head_response_def Inr)
      with Inr reach found failed show ?thesis
        by (auto simp: wp_attempt split: sum.splits)
    qed
  qed
qed (use failed in auto)

definition observed :: "log \<Rightarrow> view \<Rightarrow> world \<Rightarrow> bool" where
  "observed lg v w \<longleftrightarrow> current w = (v_head v, v_version v) \<and> options (v_head v) = lg_options lg"

context cbor
begin

lemma durable_decode: "durable E h \<Longrightarrow> encode_head E h = Inr bs \<Longrightarrow> decode_head E bs = Inr h"
  by (auto simp: durable_def decode_head_iff)

lemma durable_decode_unique:
  "durable E h \<Longrightarrow> encode_head E h = Inr bs \<Longrightarrow> decode_head E bs = Inr h' \<Longrightarrow> h' = h"
  using durable_decode by fastforce

lemma current_durable: "world_ok E w \<Longrightarrow> durable E (fst (current w))"
  by (simp add: world_ok_def)

lemma wp_view_from_stored:
  assumes ok: "world_ok E w" and reads: "reads_current E A w stored w'"
    and loaded: "\<And>v w' w''. rely E A w w' \<Longrightarrow> observed lg v w' \<Longrightarrow> rely E A w' w'' \<Longrightarrow> Q (Inr v) w''"
    and failed: "\<And>e w'. rely E A w w' \<Longrightarrow> Q (Inl e) w'"
  shows "wp E A (head_path lg) Q (view_from_stored E lg stored) w'"
proof -
  have w': "rely E A w w'" and enc: "encode_head E (fst (current w')) = Inr (so_bytes stored)"
    and ver: "so_version stored = snd (current w')"
    using reads by (auto simp: reads_current_def)
  have "durable E (fst (current w'))"
    using rely_ok [OF w' ok] by (rule current_durable)
  then have "h = fst (current w')" if "decode_head E (so_bytes stored) = Inr h" for h
    using durable_decode_unique enc that by blast
  moreover have "Q (Inl e) w'" for e using failed w' .
  moreover have "Q (Inr \<lparr>v_observed = a, v_head = fst (current w'), v_version = so_version stored\<rparr>) w''"
    if "rely E A w' w''" "options (fst (current w')) = lg_options lg" for a w''
    using w' _ that(1) by (rule loaded) (simp add: observed_def that(2) ver)
  ultimately show ?thesis
    by (auto simp: view_from_stored_def wp_simps new_view_def guard_def split: sum.splits)
qed

lemma wp_load:
  assumes ok: "world_ok E w"
    and loaded: "\<And>v w' w''. rely E A w w' \<Longrightarrow> observed lg v w' \<Longrightarrow> rely E A w' w'' \<Longrightarrow> Q (Inr v) w''"
    and failed: "\<And>e w'. rely E A w w' \<Longrightarrow> Q (Inl e) w'"
  shows "wp E A (head_path lg) Q (load E lg) w"
  unfolding load_def wp_await_try
proof (rule wp_read_head)
  fix stored w' assume "reads_current E A w stored w'"
  then show "case Inr (Some stored) of Inl e \<Rightarrow> Q (Inl e) w'
    | Inr found \<Rightarrow> wp E A (head_path lg) Q
        (attempt (ok_or found (invalid ''the opened log has no durable head'')) (view_from_stored E lg)) w'"
    using wp_view_from_stored [OF ok _ loaded failed] by simp
qed (use failed in auto)

end


section \<open>Updating the head\<close>

text \<open>
  After an update without an \<open>Ok\<close> answer the world is unchanged, or the update is still in flight, or
  it took effect.
\<close>

definition unsettled :: "externals \<Rightarrow> world \<Rightarrow> view \<Rightarrow> head \<Rightarrow> world \<Rightarrow> bool" where
  "unsettled E w v h' w' \<longleftrightarrow> w' = w \<or> durable E h' \<and>
    (w' = w\<lparr>w_flight := (h', v_version v) # w_flight w\<rparr>
     \<or> (\<exists>ver. current w = (v_head v, v_version v) \<and> ver \<notin> snd ` set (w_heads w) \<and> w' = install w h' ver))"

lemma unsettled_refl [simp]: "unsettled E w v h' w"
  by (simp add: unsettled_def)

lemma durable_head_bytes: "durable E h \<Longrightarrow> max_head_bytes (options h) < 2 ^ 64"
  using unat_less_2p [where 'a = 64]
  by (auto simp: durable_def encode_head_def and_then_Inr options_to_wire_Inr)

context cbor
begin

lemma update_response_cases:
  assumes ok: "world_ok E w" and view: "(v_head v, v_version v) \<in> set (w_heads w)"
    and bs: "durable E h'" "encode_head E h' = Inr bs"
    and resp: "update_response E w bs (Update (v_version v)) r w'"
  shows "(\<exists>ver. r = Inr ver \<and> current w = (v_head v, v_version v) \<and> ver \<notin> snd ` set (w_heads w)
      \<and> w' = install w h' ver) \<or> (\<exists>e. r = Inl e \<and> unsettled E w v h' w')"
  using resp
proof cases
  case (applied h'' ver)
  have "h'' = h'" using durable_decode_unique bs applied by blast
  moreover have "current w = (v_head v, v_version v)"
  proof -
    have "(fst (current w), v_version v) \<in> set (w_heads w)"
      using ok applied(1) by (simp add: world_ok_def)
    from version_unique [OF ok view this] applied(1) show ?thesis by (simp add: prod_eq_iff)
  qed
  ultimately show ?thesis using applied bs by (auto simp: unsettled_def)
next
  case (in_flight h'')
  then show ?thesis using durable_decode_unique bs by (auto simp: unsettled_def)
qed (simp add: unsettled_def)

lemma wp_update_head:
  assumes ok: "world_ok E w" and view: "(v_head v, v_version v) \<in> set (w_heads w)"
    and opts: "options (v_head v) = lg_options lg"
    and step: "head_step (v_head v) h'" "head_fields_ok E h'"
    and updated: "\<And>w' ver v' w''. rely E A w w' \<Longrightarrow> current w' = (v_head v, v_version v) \<Longrightarrow>
      ver \<notin> snd ` set (w_heads w') \<Longrightarrow> durable E h' \<Longrightarrow> v_head v' = h' \<Longrightarrow> v_version v' = ver \<Longrightarrow>
      rely E A (install w' h' ver) w'' \<Longrightarrow> Q (Inr (Some v')) w''"
    and lost: "\<And>w' w'' r. rely E A w w' \<Longrightarrow> unsettled E w' v h' w'' \<Longrightarrow>
      r = Inr None \<or> (\<exists>e. r = Inl e) \<Longrightarrow> Q r w''"
  shows "wp E A (head_path lg) Q (update_head E lg v h') w"
proof (cases "\<exists>bs. encode_head E h' = Inr bs \<and> validate_head_size (lg_options lg) bs = Inr ()")
  case False
  then show ?thesis
    using lost [OF rely_refl unsettled_refl]
    by (auto simp: update_head_def wp_simps split: sum.splits)
next
  case True
  then obtain bs where bs: "encode_head E h' = Inr bs" "validate_head_size (lg_options lg) bs = Inr ()"
    by blast
  have "durable E (v_head v)" using ok view by (force simp: world_ok_def)
  then have durable: "durable E h'"
    using durable_head_bytes [of E "v_head v"] bs step(2) opts
    by (auto simp: durable_def fits_def validate_head_size_def guard_Inr)
  let ?finish = "\<lambda>r w'. case r of Inl e \<Rightarrow> Q (Inl e) w'
    | Inr found \<Rightarrow> wp E A (head_path lg) Q (case found of None \<Rightarrow> succeed None
        | Some ver \<Rightarrow> await (new_view h' ver) (\<lambda>v. succeed (Some v))) w'"
  let ?answer = "\<lambda>r. case r of Inl Precondition \<Rightarrow> succeed None
    | Inl AlreadyExists \<Rightarrow> succeed None | Inl error \<Rightarrow> fail_with (Store error)
    | Inr ver \<Rightarrow> succeed (Some ver)"
  let ?put = "Put (location E (lg_store lg) HeadKey) bs (Update (v_version v)) ?answer"
  have "wp E A (head_path lg) ?finish (update E (lg_store lg) HeadKey bs (v_version v)) w"
    unfolding update_def wp_await_try
  proof (rule wp_admit)
    fix w1 assume "rely E A w w1"
    then show "case Inl RequestDenied of Inl e \<Rightarrow> ?finish (Inl e) w1
        | Inr x \<Rightarrow> wp E A (head_path lg) ?finish ?put w1"
      using lost by simp
  next
    fix w1 assume w1: "rely E A w w1"
    have "wp E A (head_path lg) ?finish (?answer r) w3"
      if w2: "rely E A w1 w2" and resp: "update_response E w2 bs (Update (v_version v)) r w3" for w2 w3 r
    proof -
      have reach: "rely E A w w2" using w1 w2 by (rule rely_trans)
      from update_response_cases [OF rely_ok [OF reach ok] rely_member [OF reach view] durable bs(1) resp]
      show ?thesis
      proof (elim disjE exE conjE)
        fix e assume e: "r = Inl e" "unsettled E w2 v h' w3"
        then show ?thesis
          using lost [OF reach e(2)] by (cases e) simp_all
      next
        fix ver assume "r = Inr ver" "current w2 = (v_head v, v_version v)"
          "ver \<notin> snd ` set (w_heads w2)" "w3 = install w2 h' ver"
        then show ?thesis
          using updated [OF reach] durable by (simp add: wp_simps new_view_def)
      qed
    qed
    moreover have "legal_update E w2 bs (Update (v_version v))" if "rely E A w1 w2" for w2
      unfolding legal_update_def
      using rely_member [OF rely_trans [OF w1 that] view] durable durable_decode [OF durable bs(1)] step(1)
      by blast
    ultimately show "case Inr () of Inl e \<Rightarrow> ?finish (Inl e) w1
        | Inr x \<Rightarrow> wp E A (head_path lg) ?finish ?put w1"
      by simp
  qed
  then show ?thesis
    by (simp only: update_head_def bs attempt_simps wp_await_try)
qed

end

lemma unsettled_ok:
  assumes "world_ok E w" "(v_head v, v_version v) \<in> set (w_heads w)" "head_step (v_head v) h'"
    and "unsettled E w v h' w'"
  shows "world_ok E w'"
proof -
  have "world_ok E (w\<lparr>w_flight := (h', v_version v) # w_flight w\<rparr>)" if "durable E h'"
    using assms(1-3) that by (auto simp: world_ok_def)
  moreover have "world_ok E (install w h' ver)"
    if "durable E h'" "current w = (v_head v, v_version v)" "ver \<notin> snd ` set (w_heads w)" for ver
    using assms(1,3) that by (intro world_ok_install) simp_all
  ultimately show ?thesis using assms(1,4) by (auto simp: unsettled_def)
qed

lemma unsettled_heads: "unsettled E w v h' w' \<Longrightarrow> prefix (w_heads w) (w_heads w')"
  by (auto simp: unsettled_def install_def)

lemma unsettled_flights:
  assumes "world_ok E w" "flights_below T n w"
    and "w_heads w ! n = (v_head v, v_version v)" "unsettled E w v h' w'"
  shows "flights_below T n w'"
  using assms flights_below_issue [OF assms(1-3), of h'] flights_below_install [OF assms(1,2)]
  by (auto simp: unsettled_def)

lemma at_index_unsettled: "unsettled E w v h' w' \<Longrightarrow> at_index u n w \<Longrightarrow> at_index u n w'"
  using prefix_length_le [OF unsettled_heads, of E w v h' w'] prefix_nth [OF unsettled_heads, of E w v h' w' n]
  by (simp add: at_index_def)

lemma observed_at_index:
  "world_ok E w \<Longrightarrow> observed lg v w \<Longrightarrow> at_index v (length (w_heads w) - 1) w"
  by (simp add: at_index_def observed_def current_def last_conv_nth world_ok_def)


section \<open>The bounded publication\<close>

text \<open>
  The interface of the retry loop to the operations that use it. \<open>inv v w\<close> is what the operation knows
  while it tries to update the view \<open>v\<close>; \<open>post\<close> is what it may conclude from the outcome.
\<close>

locale publication = cbor E for E :: externals +
  fixes lg :: log and candidate :: "head \<Rightarrow> head result" and compatible :: "head \<Rightarrow> bool"
    and A :: "head \<Rightarrow> head \<Rightarrow> bool" and inv :: "view \<Rightarrow> world \<Rightarrow> bool"
    and post :: "head_publication result \<Rightarrow> world \<Rightarrow> bool"
  assumes inv_ok: "inv v w \<Longrightarrow> world_ok E w"
    and inv_member: "inv v w \<Longrightarrow> (v_head v, v_version v) \<in> set (w_heads w)"
    and inv_options: "inv v w \<Longrightarrow> options (v_head v) = lg_options lg"
    and inv_rely: "inv v w \<Longrightarrow> rely E A w w' \<Longrightarrow> inv v w'"
    and inv_unsettled: "inv v w \<Longrightarrow> candidate (v_head v) = Inr h' \<Longrightarrow> unsettled E w v h' w' \<Longrightarrow> inv v w'"
    and inv_newer: "inv v w \<Longrightarrow> observed lg u w \<Longrightarrow> compatible (v_head u) \<Longrightarrow>
      generation (v_head v) < generation (v_head u) \<Longrightarrow> inv u w"
    and candidate_step: "inv v w \<Longrightarrow> candidate (v_head v) = Inr h' \<Longrightarrow>
      head_step (v_head v) h' \<and> head_fields_ok E h'"
    and post_updated: "inv v w \<Longrightarrow> candidate (v_head v) = Inr h' \<Longrightarrow> durable E h' \<Longrightarrow>
      current w = (v_head v, v_version v) \<Longrightarrow> ver \<notin> snd ` set (w_heads w) \<Longrightarrow>
      v_head v' = h' \<Longrightarrow> v_version v' = ver \<Longrightarrow> rely E A (install w h' ver) w' \<Longrightarrow>
      post (Inr (HeadUpdated v')) w'"
    and post_changed: "inv v w \<Longrightarrow> observed lg u w \<Longrightarrow> \<not> compatible (v_head u) \<Longrightarrow> rely E A w w' \<Longrightarrow>
      post (Inr (HeadChanged u (generation (v_head v)))) w'"
    and post_contended: "inv v w \<Longrightarrow> observed lg u w \<Longrightarrow> compatible (v_head u) \<Longrightarrow>
      generation (v_head v) < generation (v_head u) \<Longrightarrow> rely E A w w' \<Longrightarrow> post (Inr (HeadContended u)) w'"
    and post_pending: "inv v w \<Longrightarrow> post (Inr HeadPending) w"
    and post_error: "inv v w \<Longrightarrow> post (Inl e) w"
begin

lemma wp_reload:
  assumes inv: "inv v w"
    and newer: "\<And>u w' j. k = Suc j \<Longrightarrow> inv u w' \<Longrightarrow>
      wp E A (head_path lg) post (publish_from E lg candidate compatible j u) w'"
  shows "wp E A (head_path lg) post (await (load E lg) (\<lambda>loaded.
      attempt (publication_evidence loaded) (\<lambda>evidence.
      case evidence of
        None \<Rightarrow> succeed HeadPending
      | Some cur \<Rightarrow>
          if \<not> compatible (v_head cur)
          then succeed (HeadChanged cur (generation (v_head v)))
          else if is_same_head cur v then succeed HeadPending
          else if generation (v_head cur) \<le> generation (v_head v)
          then fail_with (invalid ''head version changed without a monotonic head change'')
          else (case k of
              0 \<Rightarrow> succeed (HeadContended cur)
            | Suc n \<Rightarrow> publish_from E lg candidate compatible n cur)))) w"
  unfolding wp_await
proof (rule wp_load [OF inv_ok [OF inv]], goal_cases)
  case (1 u w1 w2)
  note inv1 = inv_rely [OF inv 1(1)] and inv2 = inv_rely [OF inv_rely [OF inv 1(1)] 1(3)]
  show ?case
    using post_changed [OF inv1 1(2) _ 1(3)] post_contended [OF inv1 1(2) _ _ 1(3)] newer
      inv_rely [OF inv_newer [OF inv1 1(2)] 1(3)] post_pending [OF inv2] post_error [OF inv2]
    by (auto simp: publication_evidence_def wp_attempt not_le split: nat.splits)
next
  case (2 e w1)
  note inv1 = inv_rely [OF inv 2]
  show ?case
    using post_pending [OF inv1] post_error [OF inv1]
    by (auto simp: publication_evidence_def wp_attempt split: sum.splits error.splits)
qed

lemma wp_publish_from: "inv v w \<Longrightarrow> wp E A (head_path lg) post (publish_from E lg candidate compatible k v) w"
proof (induction k arbitrary: v w rule: less_induct)
  case (less k)
  show ?case
  proof (cases "candidate (v_head v)")
    case (Inl e)
    then show ?thesis
      unfolding publish_from.simps [of _ _ _ _ k] using post_error [OF less.prems] by simp
  next
    case (Inr h')
    note cand = candidate_step [OF less.prems Inr]
    show ?thesis
      unfolding publish_from.simps [of _ _ _ _ k] Inr attempt_simps wp_await [of _ _ _ _ "update_head E lg v h'"]
    proof (rule wp_update_head [OF inv_ok inv_member inv_options], goal_cases)
      case (6 w1 ver v' w2)
      from post_updated [OF inv_rely [OF less.prems 6(1)] Inr 6(4,2,3,5,6,7)] show ?case by simp
    next
      case (7 w1 w2 r)
      note inv2 = inv_unsettled [OF inv_rely [OF less.prems 7(1)] Inr 7(2)]
      from 7(3) show ?case
        using post_pending [OF inv2] post_error [OF inv2] wp_reload [OF inv2, of k] less.IH
        by (auto split: error.splits)
    qed (use less.prems cand in auto)
  qed
qed

end

end
