(* ===== verification/Commit_Safety.thy ===== *)
theory Commit_Safety
  imports Publication
begin

text \<open>
  Commits: the classification of an uncertain outcome is sound for the published log, and the
  bounded publication of a commit reports only what holds of the log in every later world.
\<close>


section \<open>Classification\<close>

lemma represents_member:
  assumes "represents h L" "c \<in> set (tail h @ recent_outcomes h)"
  shows "c \<in> set L"
  using assms by (auto simp: represents_def keep_window_def dest: in_set_dropD in_set_takeD)

lemma represents_sequence:
  assumes "represents h L" "c \<in> set L"
  shows "seq_of c < unat (next_sequence h)"
proof -
  obtain i where i: "i < length L" "c = L ! i" using assms(2) by (auto simp: in_set_conv_nth)
  then show ?thesis
    using assms(1) numbered_from_nth [of 0 L i] by (auto simp: represents_def)
qed

lemma classify_cases:
  assumes "represents (v_head cur) L" "classify_resolution c cur = Inr r"
  shows "(r = ResolvedCommitted cur \<and> c \<in> set L) \<or> (r = NotCommitted cur \<and> c \<notin> set L) \<or> r = Expired cur"
proof (cases "contains_commit cur c")
  case True
  then show ?thesis
    using assms represents_member [OF assms(1), of c]
    by (auto simp: classify_resolution_def contains_commit_def list_ex_iff)
next
  case False
  have other: "c \<notin> set L" if "e \<in> set (tail (v_head cur) @ recent_outcomes (v_head cur))"
      "cr_sequence e = cr_sequence c" for e
  proof
    assume "c \<in> set L"
    moreover have "e \<in> set L" using represents_member [OF assms(1) that(1)] .
    ultimately have "c = e"
      using assms(1) that(2) numbered_from_inject [of 0 L c e] by (simp add: represents_def)
    with that(1) False show False by (auto simp: contains_commit_def list_ex_iff)
  qed
  have late: "c \<notin> set L" if "\<not> cr_sequence c < next_sequence (v_head cur)"
    using that represents_sequence [OF assms(1), of c] by (auto simp: word_less_nat_alt)
  show ?thesis
    using assms(2) False other late
    by (auto simp: classify_resolution_def Let_def list_ex_iff split: if_splits)
qed


section \<open>Publishing a commit\<close>

text \<open>
  \<open>recovering E base c w\<close>: the open updates that append \<open>c\<close> name versions up to one with the
  publication base of \<open>base\<close>. \<open>past E base c cur w\<close>: \<open>cur\<close> was current when none of them could take effect
  any more.
\<close>

definition recovering :: "externals \<Rightarrow> head \<Rightarrow> commit_ref \<Rightarrow> world \<Rightarrow> bool" where
  "recovering E base c w \<longleftrightarrow> world_ok E w
    \<and> (\<exists>n. flights_below (appends c) n w \<and> has_same_publication_base base (fst (w_heads w ! n)))"

definition past :: "externals \<Rightarrow> head \<Rightarrow> commit_ref \<Rightarrow> view \<Rightarrow> world \<Rightarrow> bool" where
  "past E base c cur w \<longleftrightarrow> (\<exists>w0 n. world_ok E w0 \<and> current w0 = (v_head cur, v_version cur)
    \<and> flights_below (appends c) n w0 \<and> has_same_publication_base base (fst (w_heads w0 ! n))
    \<and> Suc n < length (w_heads w0) \<and> rely E (avoids (appends c)) w0 w)"

definition shown :: "view \<Rightarrow> world \<Rightarrow> bool" where
  "shown v w \<longleftrightarrow> (v_head v, v_version v) \<in> set (w_heads w)"

lemma recovering_rely: "recovering E base c w \<Longrightarrow> rely E A w w' \<Longrightarrow> recovering E base c w'"
proof -
  assume rec: "recovering E base c w" and rely: "rely E A w w'"
  then obtain n where ok: "world_ok E w" and n: "flights_below (appends c) n w"
      "has_same_publication_base base (fst (w_heads w ! n))"
    by (auto simp: recovering_def)
  then show ?thesis
    using rely_ok [OF rely ok] flights_below_rely [OF ok n(1) rely]
      rely_nth [OF rely flights_below_length [OF n(1)]]
    by (auto simp: recovering_def)
qed

lemma recovering_stable: "stable E A (recovering E base c)"
  using recovering_rely by (rule stableI)

lemma past_shown: "past E base c cur w \<Longrightarrow> world_ok E w \<and> shown cur w"
  unfolding past_def shown_def
  by (metis current_in rely_member rely_ok world_ok_def)

lemma past_recovering: "past E base c cur w \<Longrightarrow> recovering E base c w"
  unfolding past_def by (metis recovering_def recovering_rely)

lemma past_classified:
  assumes "past E base c cur w" "classify_resolution c cur = Inr r"
  shows "(r = ResolvedCommitted cur \<and> c \<in> set (world_log w))
    \<or> (r = NotCommitted cur \<and> never_published E c w) \<or> r = Expired cur"
proof -
  obtain w0 n where w0: "world_ok E w0" "current w0 = (v_head cur, v_version cur)"
    "flights_below (appends c) n w0" "Suc n < length (w_heads w0)" "rely E (avoids (appends c)) w0 w"
    using assms(1) by (auto simp: past_def)
  have "represents (v_head cur) (world_log w0)"
    using world_represents [OF w0(1)] w0(2) by simp
  moreover have "never_published E c w" if "c \<notin> set (world_log w0)"
    unfolding never_published_iff
    using that w0 by (intro never_rely [OF sealed_never w0(5)]) (auto simp: sealed_def in_world_log)
  ultimately show ?thesis
    using classify_cases [OF _ assms(2)] published_stays [OF w0(5,1)] by blast
qed

text \<open>What a commit knows while it tries to update \<open>v\<close>, the entry \<open>n\<close> of the history.\<close>

definition publishing :: "externals \<Rightarrow> log \<Rightarrow> head \<Rightarrow> commit_ref \<Rightarrow> view \<Rightarrow> nat \<Rightarrow> world \<Rightarrow> bool" where
  "publishing E lg base c v n w \<longleftrightarrow> world_ok E w \<and> at_index v n w \<and> flights_below (appends c) n w
    \<and> has_same_publication_base base (v_head v) \<and> options (v_head v) = lg_options lg
    \<and> cr_sequence c = next_sequence base"

lemma publishing_rely: "publishing E lg base c v n w \<Longrightarrow> rely E A w w' \<Longrightarrow> publishing E lg base c v n w'"
  using rely_ok at_index_rely flights_below_rely by (auto simp: publishing_def)

lemma publishing_stable: "stable E A (publishing E lg base c v n)"
  using publishing_rely by (rule stableI)

lemma publishing_recovering: "publishing E lg base c v n w \<Longrightarrow> recovering E base c w"
  by (auto simp: publishing_def recovering_def at_index_def)

lemma publishing_step:
  assumes "publishing E lg base c v n w" "candidate_head (v_head v) c = Inr h'"
  shows "head_step (v_head v) h' \<and> head_fields_ok E h'"
proof
  have "cr_sequence c = next_sequence (v_head v)"
    using assms(1) by (simp add: publishing_def has_same_publication_base_def)
  then show "head_step (v_head v) h'" using assms(2) by (rule step_append)
  have "durable E (v_head v)"
    using assms(1) member_durable [OF _ at_index_member, of E w v n] by (simp add: publishing_def)
  then show "head_fields_ok E h'"
    using assms(2) by (auto simp: durable_def candidate_head_Inr head_fields_ok_def)
qed

lemma publishing_unsettled:
  assumes "publishing E lg base c v n w" "candidate_head (v_head v) c = Inr h'" "unsettled E w v h' w'"
  shows "publishing E lg base c v n w'"
  using assms unsettled_ok [OF _ at_index_member _ assms(3)] publishing_step [OF assms(1,2)]
    at_index_unsettled [OF assms(3)] unsettled_flights [of E w "appends c" n v h' w']
  by (auto simp: publishing_def at_index_def)

text \<open>A head observed later than \<open>v\<close>: the same entry, or the head has moved past \<open>v\<close>.\<close>

lemma observed_later:
  assumes pub: "publishing E lg base c v n w" and obs: "observed lg u w"
  shows "n \<le> length (w_heads w) - 1" "at_index u (length (w_heads w) - 1) w"
    and "v_head u \<noteq> v_head v \<Longrightarrow> Suc n < length (w_heads w)"
proof -
  show u: "at_index u (length (w_heads w) - 1) w"
    using pub obs observed_at_index [of E w lg u] by (simp add: publishing_def)
  have n: "n < length (w_heads w)" "w_heads w ! n = (v_head v, v_version v)"
    using pub by (simp_all add: publishing_def at_index_def)
  then show "n \<le> length (w_heads w) - 1" by simp
  show "Suc n < length (w_heads w)" if "v_head u \<noteq> v_head v"
  proof -
    have "n \<noteq> length (w_heads w) - 1" using that u n by (auto simp: at_index_def)
    with n show ?thesis by linarith
  qed
qed

lemma publishing_newer:
  assumes "publishing E lg base c v n w" "observed lg u w" "has_same_publication_base base (v_head u)"
  shows "publishing E lg base c u (length (w_heads w) - 1) w"
  using assms observed_later(1,2) [OF assms(1,2)]
    flights_below_mono [of "appends c" n w "length (w_heads w) - 1"]
  by (auto simp: publishing_def observed_def at_index_def)

lemma publishing_past:
  assumes "publishing E lg base c v n w" "observed lg u w" "rely E (avoids (appends c)) w w'"
    and "v_head u \<noteq> v_head v"
  shows "past E base c u w'"
  unfolding past_def using assms observed_later [OF assms(1,2)]
  by (intro exI [of _ w] exI [of _ n]) (simp add: publishing_def observed_def at_index_def)

text \<open>A newer head with the same publication base proves that the attempt at \<open>v\<close> was lost.\<close>

lemma publishing_contended:
  assumes pub: "publishing E lg base c v n w" and obs: "observed lg u w"
    and rely: "rely E (avoids (appends c)) w w'"
    and same: "has_same_publication_base base (v_head u)" and newer: "v_head u \<noteq> v_head v"
  shows "never_published E c w'"
proof -
  have ok: "world_ok E w" using pub by (simp add: publishing_def)
  have "represents (v_head u) (world_log w)"
    using world_represents [OF ok] obs by (simp add: observed_def)
  then have "c \<notin> set (world_log w)"
    using represents_sequence [of "v_head u" "world_log w" c] pub same
    by (auto simp: has_same_publication_base_def publishing_def)
  then have "sealed (appends c) w"
    using observed_later(3) [OF pub obs] newer pub by (auto simp: sealed_def publishing_def in_world_log)
  then show ?thesis unfolding never_published_iff by (rule never_rely [OF sealed_never [OF ok] rely])
qed

lemma observed_shown: "world_ok E w \<Longrightarrow> observed lg u w \<Longrightarrow> rely E A w w' \<Longrightarrow> shown u w'"
  unfolding shown_def observed_def by (metis current_in rely_member world_ok_def)

lemma installed_commit:
  assumes pub: "publishing E lg base c v n w" and cand: "candidate_head (v_head v) c = Inr h'"
    and h': "durable E h'" and cur: "current w = (v_head v, v_version v)" "ver \<notin> snd ` set (w_heads w)"
    and rely: "rely E A (install w h' ver) w'"
  shows "world_ok E w'" "c \<in> set (world_log w')" "(h', ver) \<in> set (w_heads w')"
proof -
  have ok: "world_ok E w" using pub by (simp add: publishing_def)
  have ok': "world_ok E (install w h' ver)"
    using ok publishing_step [OF pub cand] h' cur by (intro world_ok_install) simp_all
  then show "world_ok E w'" by (rule rely_ok [OF rely])
  have "c \<in> set (world_log (install w h' ver))"
    using ok candidate_appended [OF cand] cur by (simp add: world_log_install world_ok_def)
  with rely ok' show "c \<in> set (world_log w')" by (rule published_stays)
  have "(h', ver) \<in> set (w_heads (install w h' ver))" by (simp add: install_def)
  then show "(h', ver) \<in> set (w_heads w')" by (rule rely_member [OF rely])
qed

fun publication_post :: "externals \<Rightarrow> head \<Rightarrow> commit_ref \<Rightarrow> head_publication result \<Rightarrow> world \<Rightarrow> bool" where
  "publication_post E base c (Inr (HeadUpdated v)) w = (world_ok E w \<and> shown v w \<and> c \<in> set (world_log w))"
| "publication_post E base c (Inr (HeadContended v)) w = (world_ok E w \<and> shown v w \<and> never_published E c w)"
| "publication_post E base c (Inr (HeadChanged v g)) w = past E base c v w"
| "publication_post E base c (Inr HeadPending) w = recovering E base c w"
| "publication_post E base c (Inl e) w = recovering E base c w"

sublocale cbor \<subseteq> commit_publication: publication E lg "\<lambda>h. candidate_head h c" "has_same_publication_base base"
  "avoids (appends c)" "\<lambda>v w. \<exists>n. publishing E lg base c v n w" "publication_post E base c"
  for lg base c
proof (unfold_locales, goal_cases)
  case (1 v w)
  then show ?case by (auto simp: publishing_def)
next
  case (2 v w)
  then show ?case by (auto simp: publishing_def dest: at_index_member)
next
  case (3 v w)
  then show ?case by (auto simp: publishing_def)
next
  case (4 v w w')
  then show ?case using publishing_rely by blast
next
  case (5 v w h' w')
  then show ?case using publishing_unsettled by blast
next
  case (6 v w u)
  then show ?case using publishing_newer by blast
next
  case (7 v w h')
  then show ?case using publishing_step by blast
next
  case (8 v w h' ver v' w')
  then obtain n where "publishing E lg base c v n w" by blast
  from installed_commit [OF this 8(2-5,8)] 8(6,7) show ?case by (simp add: shown_def)
next
  case (9 v w u w')
  then obtain n where n: "publishing E lg base c v n w" by blast
  with 9 have "v_head u \<noteq> v_head v" by (auto simp: publishing_def)
  from publishing_past [OF n 9(2,4) this] show ?case by simp
next
  case (10 v w u w')
  then obtain n where n: "publishing E lg base c v n w" by blast
  have "v_head u \<noteq> v_head v" "world_ok E w" using 10 n by (auto simp: publishing_def)
  with publishing_contended [OF n 10(2,5,3)] observed_shown [OF _ 10(2,5)] rely_ok [OF 10(5)]
  show ?case by simp
next
  case (11 v w)
  then show ?case using publishing_recovering by auto
next
  case (12 v w e)
  then show ?case using publishing_recovering by auto
qed


section \<open>Commit\<close>

fun commit_post :: "externals \<Rightarrow> head \<Rightarrow> commit_ref \<Rightarrow> commit_status result \<Rightarrow> world \<Rightarrow> bool" where
  "commit_post E base c (Inr (Committed v)) w = (world_ok E w \<and> shown v w \<and> c \<in> set (world_log w))"
| "commit_post E base c (Inr (Conflict v)) w = (world_ok E w \<and> shown v w \<and> never_published E c w)"
| "commit_post E base c (Inr (Pending p)) w = (pd_commit_ref p = c \<and> recovering E base c w)"
| "commit_post E base c (Inl e) w = recovering E base c w"

lemma publishing_start:
  assumes "validate_view lg v = Inr ()" "cr_sequence c = next_sequence (v_head v)"
    and "world_ok E w" "at_index v n w" "flights_below (appends c) n w"
  shows "publishing E lg (v_head v) c v n w"
  using assms by (auto simp: publishing_def validate_view_def and_then_Inr guard_Inr)

lemma encode_prepared_sequence:
  "encode_prepared E lg p = Inr (c, bs) \<Longrightarrow> cr_sequence c = next_sequence (v_head (pc_view p))"
  by (auto simp: encode_prepared_def Let_def and_then_Inr)

lemma committed_stable:
  "stable E A (\<lambda>w. world_ok E w \<and> shown v w \<and> c \<in> set (world_log w))"
  using rely_ok rely_member published_stays by (intro stableI) (auto simp: shown_def)

lemma commit_published:
  assumes post: "publication_post E base c r w" and pending: "pd_commit_ref pending = c"
  shows "case r of Inl e \<Rightarrow> commit_post E base c (Inl e) w
    | Inr published \<Rightarrow> wp E (avoids (appends c)) (head_path lg) (commit_post E base c) (case published of
        HeadUpdated next_view \<Rightarrow> await (tail_is_verified lg u) (\<lambda>verified.
          await (if verified then remember_tail lg next_view else Done ()) (\<lambda>_. succeed (Committed next_view)))
      | HeadPending \<Rightarrow> succeed (Pending pending)
      | HeadContended cur \<Rightarrow> succeed (Conflict cur)
      | HeadChanged cur g \<Rightarrow> attempt (classify_resolution c cur) (\<lambda>resolution. case resolution of
          ResolvedCommitted v \<Rightarrow> succeed (Committed v) | NotCommitted v \<Rightarrow> succeed (Conflict v)
        | Expired _ \<Rightarrow> succeed (Pending pending)
        | StillPending _ \<Rightarrow> fail_with (invalid ''an in-memory classification returned pending evidence''))) w"
proof (cases r)
  case (Inr p)
  show ?thesis
  proof (cases p)
    case (HeadUpdated v)
    let ?R = "\<lambda>w. world_ok E w \<and> shown v w \<and> c \<in> set (world_log w)"
    have "?R w" using post Inr HeadUpdated by simp
    then have "wp E (avoids (appends c)) (head_path lg) (commit_post E base c)
        (await (tail_is_verified lg u) (\<lambda>verified.
          await (if verified then remember_tail lg v else Done ()) (\<lambda>_. succeed (Committed v)))) w"
    proof (rule wp_await_stable [OF committed_stable], goal_cases)
      case (2 x w')
      from this(1) show ?case by (rule wp_await_stable [OF committed_stable]) simp_all
    qed simp
    then show ?thesis using Inr HeadUpdated by simp
  next
    case (HeadChanged v g)
    then have past: "past E base c v w" using post Inr by simp
    from past_classified [OF past] past_shown [OF past] past_recovering [OF past] show ?thesis
      using Inr HeadChanged pending by (fastforce simp: wp_attempt split: sum.splits)
  qed (use post pending Inr in auto)
qed (use post in auto)

context cbor
begin

lemma wp_publish_commit:
  assumes "publishing E lg (v_head v) c v n w"
    and "\<And>r w'. publication_post E (v_head v) c r w' \<Longrightarrow> Q r w'"
  shows "wp E (avoids (appends c)) (head_path lg) Q (publish_head E lg v (\<lambda>h. candidate_head h c)) w"
  unfolding publish_head_def publish_head_compatible_def
  by (rule wp_mono [OF commit_publication.wp_publish_from]) (use assms in blast)+

lemma wp_commit:
  assumes ok: "world_ok E w" and view: "at_index (pc_view p) n w"
    and c: "encode_prepared E lg p = Inr (c, bs)" and open_updates: "flights_below (appends c) n w"
  shows "wp E (avoids (appends c)) (head_path lg) (commit_post E (v_head (pc_view p)) c) (commit E lg p) w"
proof -
  let ?base = "v_head (pc_view p)"
  let ?R = "publishing E lg ?base c (pc_view p) n"
  let ?Q = "commit_post E ?base c"
  note R = publishing_stable [of E "avoids (appends c)" lg ?base c "pc_view p" n]
  have error: "?Q (Inl e) w'" if "?R w'" for e w' using publishing_recovering [OF that] by simp
  show ?thesis
    unfolding commit_def c attempt_simps prod.case Let_def
  proof (rule wp_attemptI, goal_cases)
    case (1 e)
    then show ?case using ok view open_updates by (auto simp: recovering_def at_index_def)
  next
    case (2 u)
    then have "validate_view lg (pc_view p) = Inr ()"
      by (auto simp: validate_prepared_def and_then_Inr)
    then have start: "?R w"
      using encode_prepared_sequence [OF c] ok view open_updates by (rule publishing_start)
    show ?case
    proof (rule wp_try_stable [OF R start], goal_cases)
      case (3 x w1)
      show ?case
      proof (rule wp_try_stable [OF R 3], goal_cases)
        case (3 x w2)
        then show ?case
          unfolding wp_await_try using commit_published by (intro wp_publish_commit) simp_all
      qed (use error in \<open>simp_all add: commit_key_def\<close>)
    qed (use error in simp_all)
  qed
qed

end

end
