(* ===== verification/Resolve_Safety.thy ===== *)
theory Resolve_Safety
  imports Commit_Safety
begin

text \<open>
  Recovery of an uncertain commit: \<open>resolve\<close> on the prepared candidate and \<open>resume\<close> from an encoded
  recovery token report a commit only when it is in the published log and its absence only when it
  can never enter it.
\<close>


section \<open>Resolving an uncertain commit\<close>

fun resolve_post ::
    "externals \<Rightarrow> (world \<Rightarrow> bool) \<Rightarrow> commit_ref \<Rightarrow> resolution result \<Rightarrow> world \<Rightarrow> bool" where
  "resolve_post E K c (Inr (ResolvedCommitted v)) w = (world_ok E w \<and> shown v w \<and> c \<in> set (world_log w))"
| "resolve_post E K c (Inr (NotCommitted v)) w = (world_ok E w \<and> shown v w \<and> never_published E c w)"
| "resolve_post E K c (Inr (Expired v)) w = (world_ok E w \<and> shown v w \<and> K w)"
| "resolve_post E K c (Inr (StillPending p)) w = (pd_commit_ref p = c \<and> K w)"
| "resolve_post E K c (Inl e) w = K w"

lemma resolve_post_mono:
  assumes "resolve_post E K c r w" "K w \<Longrightarrow> K' w"
  shows "resolve_post E K' c r w"
  using assms by (cases "(E, K, c, r, w)" rule: resolve_post.cases) simp_all

lemma recovering_same:
  "has_same_publication_base b b' \<Longrightarrow> recovering E b' c w \<longleftrightarrow> recovering E b c w"
  unfolding recovering_def using same_base_trans same_base_sym by blast

lemma past_same: "has_same_publication_base b b' \<Longrightarrow> past E b' c cur w \<longleftrightarrow> past E b c cur w"
  unfolding past_def using same_base_trans same_base_sym by blast

lemma recovering_past:
  assumes rec: "recovering E base c w" and obs: "observed lg u w"
    and rely: "rely E (avoids (appends c)) w w'" and other: "\<not> has_same_publication_base base (v_head u)"
  shows "past E base c u w'"
proof -
  obtain n where ok: "world_ok E w" and n: "flights_below (appends c) n w"
      "has_same_publication_base base (fst (w_heads w ! n))"
    using rec by (auto simp: recovering_def)
  have u: "w_heads w ! (length (w_heads w) - 1) = (v_head u, v_version u)"
    using observed_at_index [OF ok obs] by (simp add: at_index_def)
  have "n \<noteq> length (w_heads w) - 1" using u n(2) other by auto
  then have "Suc n < length (w_heads w)" using flights_below_length [OF n(1)] by linarith
  with ok n obs rely show ?thesis unfolding past_def observed_def by blast
qed

lemma recovering_publishing:
  assumes "recovering E base c w" "observed lg u w" "cr_sequence c = next_sequence (v_head u)"
  shows "publishing E lg (v_head u) c u (length (w_heads w) - 1) w"
proof -
  obtain n where "world_ok E w" "flights_below (appends c) n w"
    using assms(1) by (auto simp: recovering_def)
  then show ?thesis
    using assms(2,3) observed_at_index [of E w lg u] flights_below_length [of "appends c" n w]
      flights_below_mono [of "appends c" n w "length (w_heads w) - 1"]
    by (simp add: publishing_def observed_def at_index_def)
qed

lemma wp_resolve_classified:
  assumes past: "past E base c u w" and pending: "pd_commit_ref pending = c"
    and known: "stable E (avoids (appends c)) K" "K w"
  shows "wp E (avoids (appends c)) (head_path lg) (resolve_post E K c)
    (attempt (classify_resolution c u) (\<lambda>resolution.
      case resolution of
        ResolvedCommitted v \<Rightarrow>
          if unverified v then
            await (verify_published_commit E lg c) (\<lambda>r.
            attempt (publication_evidence r) (\<lambda>evidence.
            succeed (if evidence = None then StillPending pending else resolution)))
          else succeed resolution
      | _ \<Rightarrow> succeed resolution)) w"
proof (rule wp_attemptI, goal_cases)
  case (1 e)
  then show ?case using known(2) by simp
next
  case (2 r)
  from past_classified [OF past this] show ?case
  proof (elim disjE conjE)
    assume r: "r = ResolvedCommitted u" and c: "c \<in> set (world_log w)"
    have R: "K w \<and> world_ok E w \<and> shown u w \<and> c \<in> set (world_log w)"
      using known(2) past_shown [OF past] c by simp
    then have "wp E (avoids (appends c)) (head_path lg) (resolve_post E K c)
        (await (verify_published_commit E lg c) (\<lambda>x.
          attempt (publication_evidence x) (\<lambda>evidence.
          succeed (if evidence = None then StillPending pending else r)))) w"
    proof (rule wp_await_stable [OF stable_conj [OF known(1) committed_stable]], goal_cases)
      case (2 x w')
      then show ?case by (cases "publication_evidence x") (auto simp: r pending)
    qed simp
    then show ?thesis using r R by simp
  qed (use known(2) past_shown [OF past] in auto)
qed

lemma resolve_published:
  assumes post: "publication_post E base c r w" and pending: "pd_commit_ref pending = c"
  shows "wp E (avoids (appends c)) (head_path lg) (resolve_post E (recovering E base c) c)
    (case r of
      Inr (HeadUpdated v) \<Rightarrow> succeed (ResolvedCommitted v)
    | Inr HeadPending \<Rightarrow> succeed (StillPending pending)
    | Inl (Store _) \<Rightarrow> succeed (StillPending pending)
    | Inl RequestDenied \<Rightarrow> succeed (StillPending pending)
    | Inr (HeadContended cur) \<Rightarrow> succeed (NotCommitted cur)
    | Inl error \<Rightarrow> fail_with error
    | Inr (HeadChanged cur _) \<Rightarrow> Done (classify_resolution c cur)) w"
proof (cases r)
  case (Inl e)
  then show ?thesis using post pending by (cases e) auto
next
  case (Inr p)
  show ?thesis
  proof (cases p)
    case (HeadChanged v g)
    then have past: "past E base c v w" using post Inr by simp
    from past_classified [OF past] past_shown [OF past] past_recovering [OF past] show ?thesis
      using Inr HeadChanged by (cases "classify_resolution c v") auto
  qed (use post pending Inr in auto)
qed

lemma validate_pending_Inr:
  assumes "validate_pending E lg pending = Inr ()" "pd_prepared pending = Some p"
  shows "\<exists>bs. encode_prepared E lg p = Inr (pd_commit_ref pending, bs)"
  using assms by (auto simp: validate_pending_def and_then_Inr guard_Inr ok_or_Inr split: prod.splits)

lemma retention_view_Inr:
  assumes "retention_publication_view source u = Inr r"
  shows "(r = Some u \<and> has_same_publication_base (v_head source) (v_head u))
    \<or> (r = None \<and> \<not> has_same_publication_base (v_head source) (v_head u))"
  using assms
  by (auto simp: retention_publication_view_def compatible_publication_view_def is_same_head_def split: if_splits)

context cbor
begin

text \<open>The second half of the resolution: the head still has the publication base of the candidate.\<close>

lemma wp_resolve_publish:
  assumes pub: "publishing E lg (v_head u) c u n w" and pending: "pd_commit_ref pending = c"
  shows "wp E (avoids (appends c)) (head_path lg) (resolve_post E (recovering E (v_head u) c) c)
    (await (verify_publication E lg v key objects domain) (\<lambda>r.
    attempt (publication_evidence r) (\<lambda>evidence.
    if evidence = None then succeed (StillPending pending)
    else
    await (if verified then succeed () else ensure_immutable E lg (commit_key lg c) bs) (\<lambda>r.
    attempt (publication_evidence r) (\<lambda>evidence.
    if evidence = None then succeed (StillPending pending)
    else
    await (publish_head E lg u (\<lambda>h. candidate_head h c)) (\<lambda>published.
    case published of
      Inr (HeadUpdated v) \<Rightarrow> succeed (ResolvedCommitted v)
    | Inr HeadPending \<Rightarrow> succeed (StillPending (pending\<lparr>pd_prepared := q\<rparr>))
    | Inl (Store _) \<Rightarrow> succeed (StillPending (pending\<lparr>pd_prepared := q\<rparr>))
    | Inl RequestDenied \<Rightarrow> succeed (StillPending (pending\<lparr>pd_prepared := q\<rparr>))
    | Inr (HeadContended cur) \<Rightarrow> succeed (NotCommitted cur)
    | Inl error \<Rightarrow> fail_with error
    | Inr (HeadChanged cur _) \<Rightarrow> Done (classify_resolution c cur))))))) w"
proof (rule wp_evidence_stable [OF publishing_stable pub], goal_cases)
  case (4 w1)
  then show ?case
  proof (rule wp_evidence_stable [OF publishing_stable], goal_cases)
    case (4 w2)
    then show ?case
      unfolding wp_await by (rule wp_publish_commit) (simp add: resolve_published pending)
  qed (use publishing_recovering pending in \<open>auto simp: commit_key_def\<close>)
qed (use publishing_recovering pending in auto)

lemma wp_resolve_prepared:
  assumes rec: "recovering E (v_head (pc_view p)) c w"
    and pending: "pd_prepared pending = Some p" "pd_commit_ref pending = c"
  shows "wp E (avoids (appends c)) (head_path lg) (resolve_post E (recovering E (v_head (pc_view p)) c) c)
    (resolve_prepared E lg pending p) w"
  unfolding resolve_prepared_def
proof (rule wp_attemptI, goal_cases)
  case (1 e)
  then show ?case using rec by simp
next
  case (2 x)
  let ?base = "v_head (pc_view p)"
  obtain bs where enc: "encode_prepared E lg p = Inr (c, bs)"
    using validate_pending_Inr [of E lg pending p] 2 pending by auto
  have ok: "world_ok E w" using rec by (simp add: recovering_def)
  show ?case
    unfolding wp_await [of _ _ _ _ "load E lg"]
  proof (rule wp_load [OF ok], goal_cases)
    case (2 e w1)
    have "recovering E ?base c w1" using rec 2 by (rule recovering_rely)
    then show ?case
      using pending by (auto simp: wp_attempt publication_evidence_def split: sum.splits error.splits)
  next
    case (1 u w1 w2)
    have rec1: "recovering E ?base c w1" using rec 1(1) by (rule recovering_rely)
    have rec2: "recovering E ?base c w2" using rec1 1(3) by (rule recovering_rely)
    have ev: "publication_evidence (Inr u :: view result) = Inr (Some u)"
      by (simp add: publication_evidence_def)
    show ?case
      unfolding ev attempt_simps option.case
    proof (rule wp_attemptI, goal_cases)
      case (1 e)
      then show ?case using rec2 by simp
    next
      case (2 r)
      from retention_view_Inr [OF this] show ?case
      proof (elim disjE conjE)
        assume r: "r = None" and other: "\<not> has_same_publication_base ?base (v_head u)"
        from wp_resolve_classified [OF recovering_past [OF rec1 1(2,3) other] pending(2) recovering_stable rec2]
        show ?thesis unfolding r option.case pending(2) .
      next
        assume r: "r = Some u" and same: "has_same_publication_base ?base (v_head u)"
        have "cr_sequence c = next_sequence (v_head u)"
          using encode_prepared_sequence [OF enc] same by (simp add: has_same_publication_base_def)
        from publishing_rely [OF recovering_publishing [OF rec1 1(2) this] 1(3)]
        have pub: "publishing E lg (v_head u) c u (length (w_heads w1) - 1) w2" .
        have c': "pd_commit_ref (pending\<lparr>pd_prepared := q\<rparr>) = c" for q using pending(2) by simp
        show ?thesis
          unfolding r option.case enc attempt_simps prod.case Let_def pending(2) c'
          by (rule wp_mono [OF wp_resolve_publish [OF pub pending(2)]]) (erule resolve_post_mono, simp add: recovering_same [OF same])
      qed
    qed
  qed
qed

end


section \<open>Resuming from a recovery token\<close>

text \<open>
  What a client that holds only the encoded token relies on: the source version of the token was
  current once, and its open updates name versions up to one with the publication base digest of the
  token.
\<close>

definition recoverable :: "externals \<Rightarrow> recovery_token \<Rightarrow> commit_ref \<Rightarrow> world \<Rightarrow> bool" where
  "recoverable E rt c w \<longleftrightarrow> world_ok E w \<and> (\<exists>m n. m \<le> n \<and> flights_below (appends c) n w
    \<and> snd (w_heads w ! m) = rt_version rt
    \<and> publication_base_digest E (fst (w_heads w ! m)) = Inr (rt_publication_base_digest rt)
    \<and> publication_base_digest E (fst (w_heads w ! n)) = Inr (rt_publication_base_digest rt))"

lemma recoverableE:
  assumes "recoverable E rt c w"
  obtains m n where "world_ok E w" "m \<le> n" "n < length (w_heads w)" "flights_below (appends c) n w"
    "snd (w_heads w ! m) = rt_version rt"
    "publication_base_digest E (fst (w_heads w ! m)) = Inr (rt_publication_base_digest rt)"
    "publication_base_digest E (fst (w_heads w ! n)) = Inr (rt_publication_base_digest rt)"
  using assms flights_below_length unfolding recoverable_def by blast

lemma same_base_digest:
  assumes "has_same_publication_base a b"
  shows "publication_base_digest E a = publication_base_digest E b"
proof -
  have "a\<lparr>generation := max (next_sequence a) (collection_epoch a), retention_ids := {||}\<rparr>
      = b\<lparr>generation := max (next_sequence b) (collection_epoch b), retention_ids := {||}\<rparr>"
    using assms by (simp add: has_same_publication_base_def)
  then show ?thesis unfolding publication_base_digest_def by (rule arg_cong)
qed

lemma recoverable_stable: "stable E A (recoverable E rt c)"
proof (rule stableI)
  fix w w' assume rec: "recoverable E rt c w" and rely: "rely E A w w'"
  from rec show "recoverable E rt c w'"
  proof (rule recoverableE)
    fix m n assume ok: "world_ok E w" and n: "m \<le> n" "n < length (w_heads w)" "flights_below (appends c) n w"
      "snd (w_heads w ! m) = rt_version rt"
      "publication_base_digest E (fst (w_heads w ! m)) = Inr (rt_publication_base_digest rt)"
      "publication_base_digest E (fst (w_heads w ! n)) = Inr (rt_publication_base_digest rt)"
    then show ?thesis
      unfolding recoverable_def
      using rely_ok [OF rely ok] flights_below_rely [OF ok n(3) rely]
        rely_nth [OF rely, of m] rely_nth [OF rely, of n]
      by (intro conjI exI [of _ m] exI [of _ n]) simp_all
  qed
qed

text \<open>An exact match of the source version, or a match of the digest, leaves the digest of the token.\<close>

lemma recoverable_exact:
  assumes rec: "recoverable E rt c w" and obs: "observed lg u w" and exact: "v_version u = rt_version rt"
  shows "publication_base_digest E (v_head u) = Inr (rt_publication_base_digest rt)"
proof -
  obtain m n where ok: "world_ok E w" and n: "m \<le> n" "n < length (w_heads w)"
      "snd (w_heads w ! m) = rt_version rt"
      "publication_base_digest E (fst (w_heads w ! n)) = Inr (rt_publication_base_digest rt)"
    using rec by (rule recoverableE)
  have u: "w_heads w ! (length (w_heads w) - 1) = (v_head u, v_version u)"
    using observed_at_index [OF ok obs] by (simp add: at_index_def)
  have "m = length (w_heads w) - 1"
    by (rule world_index [OF ok]) (use n u exact in auto)
  with n have "n = length (w_heads w) - 1" by simp
  with n(4) u show ?thesis by simp
qed

lemma recoverable_publishing:
  assumes "recoverable E rt c w" "observed lg u w"
  shows "recovering E (v_head u) c w"
proof -
  obtain n where ok: "world_ok E w" and n: "flights_below (appends c) n w"
    using assms(1) by (rule recoverableE)
  then have "flights_below (appends c) (length (w_heads w) - 1) w"
    using flights_below_length [OF n] by (intro flights_below_mono [OF n]) linarith+
  then show ?thesis
    using ok observed_at_index [OF ok assms(2)] unfolding recovering_def at_index_def
    by (intro conjI exI [of _ "length (w_heads w) - 1"]) simp_all
qed

lemma recoverable_past:
  assumes rec: "recoverable E rt c w" and obs: "observed lg u w" and rely: "rely E (avoids (appends c)) w w'"
    and other: "publication_base_digest E (v_head u) \<noteq> Inr (rt_publication_base_digest rt)"
  shows "\<exists>base. past E base c u w'"
proof -
  obtain n where ok: "world_ok E w" and n: "flights_below (appends c) n w"
      "publication_base_digest E (fst (w_heads w ! n)) = Inr (rt_publication_base_digest rt)"
    using rec by (rule recoverableE)
  have "recovering E (fst (w_heads w ! n)) c w"
    using ok n(1) unfolding recovering_def by (intro conjI exI [of _ n]) simp_all
  moreover have "\<not> has_same_publication_base (fst (w_heads w ! n)) (v_head u)"
    using same_base_digest [of "fst (w_heads w ! n)" "v_head u" E] n(2) other by auto
  ultimately show ?thesis using recovering_past [OF _ obs rely] by blast
qed

lemma recoverable_again:
  assumes rec: "recoverable E rt c w" and grows: "prefix (w_heads w) (w_heads w')"
    and again: "recovering E base c w'" "publication_base_digest E base = Inr (rt_publication_base_digest rt)"
  shows "recoverable E rt c w'"
proof -
  obtain m n where "m \<le> n" "n < length (w_heads w)" and m: "snd (w_heads w ! m) = rt_version rt"
      "publication_base_digest E (fst (w_heads w ! m)) = Inr (rt_publication_base_digest rt)"
    using rec by (rule recoverableE)
  then have len: "m < length (w_heads w)" by simp
  obtain k where ok: "world_ok E w'" and k: "flights_below (appends c) k w'"
      "has_same_publication_base base (fst (w_heads w' ! k))"
    using again(1) by (auto simp: recovering_def)
  have m': "m < length (w_heads w')" "w_heads w' ! m = w_heads w ! m"
    using len prefix_length_le [OF grows] prefix_nth [OF grows len] by simp_all
  have "publication_base_digest E (fst (w_heads w' ! max m k)) = Inr (rt_publication_base_digest rt)"
    using m m' same_base_digest [OF k(2), of E] again(2) by (simp add: max_def)
  moreover have "flights_below (appends c) (max m k) w'"
    using m'(1) flights_below_length [OF k(1)] by (intro flights_below_mono [OF k(1)]) simp_all
  ultimately show ?thesis
    unfolding recoverable_def using ok m m' by (intro conjI exI [of _ m] exI [of _ "max m k"]) simp_all
qed

context cbor
begin

lemma wp_resume_prepared:
  assumes rec: "recoverable E rt c w0" and obs: "observed lg u w0" and rely: "rely E (avoids (appends c)) w0 w"
    and digest: "publication_base_digest E (v_head u) = Inr (rt_publication_base_digest rt)"
    and view: "\<And>domain. pc_view (prepared domain) = u" and pending: "pd_commit_ref pending = c"
  shows "wp E (avoids (appends c)) (head_path lg) (resolve_post E (recoverable E rt c) c)
    (Alloc (\<lambda>domain.
      attempt (encode_prepared E lg (prepared domain)) (\<lambda>(recomputed, _).
      attempt (guard (recomputed = c) (invalid msg)) (\<lambda>_.
      await_try (resolve_prepared E lg
        \<lparr>pd_prepared = Some (prepared domain), pd_commit_ref = c, pd_token = None\<rparr> (prepared domain))
        (\<lambda>resolution.
      succeed (case resolution of StillPending _ \<Rightarrow> StillPending pending | other \<Rightarrow> other)))))) w"
  unfolding wp.simps
proof (intro allI impI, goal_cases)
  case (1 w' domain)
  have reach: "rely E (avoids (appends c)) w0 w'" using rely 1 by (rule rely_trans)
  have rec': "recoverable E rt c w'" using recoverable_stable rec reach unfolding stable_def by blast
  have "recovering E (v_head (pc_view (prepared domain))) c w'"
    unfolding view using recoverable_publishing [OF rec obs] reach by (rule recovering_rely)
  from wp_grows [OF wp_resolve_prepared [OF this, of
      "\<lparr>pd_prepared = Some (prepared domain), pd_commit_ref = c, pd_token = None\<rparr>"]]
  have "wp E (avoids (appends c)) (head_path lg)
      (\<lambda>r w''. case r of Inl e \<Rightarrow> resolve_post E (recoverable E rt c) c (Inl e) w''
        | Inr x \<Rightarrow> wp E (avoids (appends c)) (head_path lg) (resolve_post E (recoverable E rt c) c)
            (succeed (case x of StillPending _ \<Rightarrow> StillPending pending | other \<Rightarrow> other)) w'')
      (resolve_prepared E lg \<lparr>pd_prepared = Some (prepared domain), pd_commit_ref = c, pd_token = None\<rparr>
        (prepared domain)) w'"
  proof (rule wp_mono, goal_cases)
    case (3 r w'')
    then have post: "resolve_post E (recovering E (v_head u) c) c r w''"
      and grows: "prefix (w_heads w') (w_heads w'')" by (simp_all add: view)
    from post have "resolve_post E (recoverable E rt c) c r w''"
      by (rule resolve_post_mono) (rule recoverable_again [OF rec' grows _ digest])
    then show ?case using pending by (auto split: sum.splits resolution.splits)
  qed simp_all
  then show ?case
    using rec' by (simp add: wp_attempt wp_await_try guard_def split: sum.splits prod.splits)
qed

lemma wp_resume:
  assumes rec: "recoverable E rt c w"
    and token: "decode_recovery_token E token = Inr rt" "recovered_commit_ref E lg rt = Inr c"
  shows "wp E (avoids (appends c)) (head_path lg) (resolve_post E (recoverable E rt c) c) (resume E lg token) w"
proof -
  have ok: "world_ok E w" using rec by (simp add: recoverable_def)
  have keep: "recoverable E rt c w2" if "recoverable E rt c w1" "rely E (avoids (appends c)) w1 w2" for w1 w2
    using recoverable_stable that unfolding stable_def by blast
  show ?thesis
    unfolding resume_def token attempt_simps Let_def wp_await [of _ _ _ _ "load E lg"]
  proof (rule wp_load [OF ok], goal_cases)
    case (2 e w1)
    from keep [OF rec 2] show ?case
      by (auto simp: wp_attempt publication_evidence_def split: sum.splits error.splits)
  next
    case (1 u w1 w2)
    note obs = 1(2) and rely = 1(3)
    note rec1 = keep [OF rec 1(1)] and rec2 = keep [OF keep [OF rec 1(1)] 1(3)]
    have ev: "publication_evidence (Inr u :: view result) = Inr (Some u)"
      by (simp add: publication_evidence_def)
    show ?case
      unfolding ev attempt_simps option.case
    proof (rule wp_attemptI, goal_cases)
      case (2 head_bytes)
      show ?case
      proof (rule wp_attemptI, goal_cases)
        case (2 digest)
        note digest = this
        show ?case
        proof (rule wp_ifI, goal_cases)
          case 1
          have known: "publication_base_digest E (v_head u) = Inr (rt_publication_base_digest rt)"
            using 1 2 recoverable_exact [OF rec1 obs] by auto
          show ?case
            by (rule wp_attemptI) (use rec2 in simp, rule wp_resume_prepared [OF rec1 obs rely known], simp_all)
        next
          case 2
          then show ?case
          proof (intro wp_ifI, goal_cases)
            case 2
            have "publication_base_digest E (v_head u) \<noteq> Inr (rt_publication_base_digest rt)"
              using 2 digest by auto
            then obtain base where "past E base c u w2"
              using recoverable_past [OF rec1 obs rely] by blast
            then show ?case
              by (rule wp_resolve_classified [OF _ _ recoverable_stable rec2]) simp
          qed (use rec2 in simp)
        qed
      qed (use rec2 in simp)
    qed (use rec2 in simp)
  qed
qed

end

end
