(* ===== verification/Checkpoint_Safety.thy ===== *)
theory Checkpoint_Safety
  imports Resolve_Safety
begin

text \<open>
  Checkpoints: the reference of a checkpoint identifies its publication because the through sequence
  of the published checkpoint only grows. The bounded publication and the recovery of a checkpoint report
  it as published only when a head carried it, and as lost only when no open update can publish it
  any more.
\<close>


section \<open>The checkpoint of a history\<close>

definition publishes :: "checkpoint_ref \<Rightarrow> head \<Rightarrow> head \<Rightarrow> bool" where
  "publishes ck h h' \<longleftrightarrow> checkpoint h' = Some ck \<and> checkpoint h \<noteq> Some ck"

definition carried :: "checkpoint_ref \<Rightarrow> world \<Rightarrow> bool" where
  "carried ck w \<longleftrightarrow> (\<exists>h\<in>fst ` set (w_heads w). checkpoint h = Some ck)"

definition absent_upto :: "checkpoint_ref \<Rightarrow> nat \<Rightarrow> world \<Rightarrow> bool" where
  "absent_upto ck n w \<longleftrightarrow> (\<forall>i\<le>n. checkpoint (fst (w_heads w ! i)) \<noteq> Some ck)"

definition checkpoint_advances :: "head \<Rightarrow> head \<Rightarrow> bool" where
  "checkpoint_advances a b \<longleftrightarrow> base_start a < base_start b \<or> checkpoint a = checkpoint b"

lemma checkpoint_base_start: "checkpoint a = checkpoint b \<Longrightarrow> base_start a = base_start b"
  by (simp add: base_start_def)

lemma checkpoint_advances_trans:
  "checkpoint_advances a b \<Longrightarrow> checkpoint_advances b c \<Longrightarrow> checkpoint_advances a c"
  using checkpoint_base_start [of a b] checkpoint_base_start [of b c]
  by (auto simp: checkpoint_advances_def)

lemma head_step_checkpoint:
  assumes "head_step h h'" "head_ok usize_max h"
  shows "checkpoint_advances h h'"
  using assms
proof (induction rule: head_step.induct)
  case (step_checkpoint h through obj h')
  then obtain i where i: "position (\<lambda>e. e = through) (tail h) = Some i"
      "h' = compacted_head h i through obj"
    by (auto simp: checkpoint_head_Inr)
  then show ?case
    using tail_index [OF step_checkpoint.prems i(1)] by (simp add: checkpoint_advances_def)
qed (auto simp: checkpoint_advances_def step_defs)

lemma world_checkpoints:
  assumes ok: "world_ok E w" and "i \<le> j" "j < length (w_heads w)"
  shows "checkpoint_advances (fst (w_heads w ! i)) (fst (w_heads w ! j))"
proof -
  note chain = world_chain [OF ok]
  have step: "checkpoint_advances (map fst (w_heads w) ! k) (map fst (w_heads w) ! Suc k)"
    if "Suc k < length (map fst (w_heads w))" for k
    using head_step_checkpoint [OF head_chain_nth [OF chain that], of "usize_MAX E"] chain that
    by (simp add: head_chain_def)
  have "checkpoint_advances (map fst (w_heads w) ! i) (map fst (w_heads w) ! j)"
    by (rule chain_lift [of _ checkpoint_advances, OF step _ checkpoint_advances_trans])
      (use assms in \<open>simp_all add: checkpoint_advances_def\<close>)
  then show ?thesis using assms by simp
qed

lemma checkpoint_between:
  assumes ok: "world_ok E w" and "i \<le> j" "j \<le> k" "k < length (w_heads w)"
    and same: "checkpoint (fst (w_heads w ! i)) = checkpoint (fst (w_heads w ! k))"
  shows "checkpoint (fst (w_heads w ! j)) = checkpoint (fst (w_heads w ! i))"
  using world_checkpoints [OF ok, of i j] world_checkpoints [OF ok, of j k] assms(2-4)
    checkpoint_base_start [OF same] checkpoint_base_start [of "fst (w_heads w ! j)" "fst (w_heads w ! k)"]
  by (auto simp: checkpoint_advances_def)

lemma carried_iff: "world_ok E w \<Longrightarrow> carried ck w \<longleftrightarrow> happened (publishes ck) w"
proof
  assume ok: "world_ok E w" and "carried ck w"
  then obtain i where i: "i < length (w_heads w)" "checkpoint (fst (w_heads w ! i)) = Some ck"
    by (auto simp: carried_def in_set_conv_nth)
  have first: "checkpoint (fst (w_heads w ! 0)) = None"
    using ok by (auto simp: world_ok_def hd_conv_nth head_empty_def)
  show "happened (publishes ck) w"
    using i
  proof (induction i)
    case (Suc i)
    then show ?case by (cases "checkpoint (fst (w_heads w ! i)) = Some ck") (auto simp: happened_def publishes_def)
  qed (use first in simp)
next
  assume "happened (publishes ck) w"
  then show "carried ck w" by (force simp: happened_def publishes_def carried_def)
qed

lemma absent_all: "absent_upto ck (length (w_heads w) - 1) w \<Longrightarrow> \<not> carried ck w"
proof
  assume absent: "absent_upto ck (length (w_heads w) - 1) w" and "carried ck w"
  then obtain i where "i < length (w_heads w)" "checkpoint (fst (w_heads w ! i)) = Some ck"
    by (auto simp: carried_def in_set_conv_nth)
  with absent show False by (simp add: absent_upto_def)
qed

lemma absent_extend:
  assumes ok: "world_ok E w" and absent: "absent_upto ck n w" and len: "n \<le> m" "m < length (w_heads w)"
    and same: "checkpoint (fst (w_heads w ! n)) = checkpoint (fst (w_heads w ! m))"
  shows "absent_upto ck m w"
  unfolding absent_upto_def
proof (intro allI impI)
  fix i assume "i \<le> m"
  show "checkpoint (fst (w_heads w ! i)) \<noteq> Some ck"
  proof (cases "i \<le> n")
    case True
    with absent show ?thesis by (simp add: absent_upto_def)
  next
    case False
    with checkpoint_between [OF ok _ \<open>i \<le> m\<close> len(2) same] absent show ?thesis
      by (simp add: absent_upto_def)
  qed
qed

lemma absent_keeps: "absent_upto ck n w \<Longrightarrow> n < length (w_heads w) \<Longrightarrow> prefix (w_heads w) (w_heads w') \<Longrightarrow> absent_upto ck n w'"
  by (simp add: absent_upto_def prefix_nth)


section \<open>The append base of a checkpoint\<close>

lemma append_base_iff:
  "has_checkpoint_append_base a b \<longleftrightarrow>
    log_id a = log_id b \<and> incarnation a = incarnation b \<and> options a = options b
    \<and> checkpoint a = checkpoint b \<and> recent_outcomes a = recent_outcomes b
    \<and> collection_epoch a = collection_epoch b \<and> active_plan a = active_plan b
    \<and> (\<exists>xs. tail b = tail a @ xs \<and> unat (next_sequence b) = unat (next_sequence a) + length xs)"
proof -
  have add: "Option.bind (u64_try_from n) (checked_add (next_sequence a)) = Some (next_sequence b)
      \<longleftrightarrow> unat (next_sequence b) = unat (next_sequence a) + n" for n
    using unat_less_2p [of "next_sequence b"]
    by (auto simp: bind_eq_Some_conv checked_simps u64_try_from_def intro!: exI [of _ "of_nat n"])
  show ?thesis
  proof (cases "\<exists>zs. tail b = tail a @ zs")
    case True
    then show ?thesis unfolding has_checkpoint_append_base_def add by auto
  next
    case False
    then have "strip_prefix (tail a) (tail b) = None" by (simp add: strip_prefix_None)
    with False show ?thesis unfolding has_checkpoint_append_base_def by auto
  qed
qed

lemma append_base_refl [simp]: "has_checkpoint_append_base h h"
  by (simp add: append_base_iff)

lemma append_base_trans:
  assumes "has_checkpoint_append_base a b" "has_checkpoint_append_base b c"
  shows "has_checkpoint_append_base a c"
proof -
  obtain xs ys where "tail b = tail a @ xs" "unat (next_sequence b) = unat (next_sequence a) + length xs"
      "tail c = tail b @ ys" "unat (next_sequence c) = unat (next_sequence b) + length ys"
    using assms by (auto simp: append_base_iff)
  then show ?thesis
    using assms unfolding append_base_iff by (intro conjI exI [of _ "xs @ ys"]) simp_all
qed


section \<open>Publishing a checkpoint\<close>

text \<open>
  \<open>checkpoint_open E base ck w\<close>: the open updates that publish \<open>ck\<close> name versions up to one that is an
  append of \<open>base\<close>, and no head up to it carries \<open>ck\<close>. \<open>checkpoint_past\<close>: \<open>cur\<close> was current when
  the head had moved past it.
\<close>

definition checkpoint_open :: "externals \<Rightarrow> head \<Rightarrow> checkpoint_ref \<Rightarrow> world \<Rightarrow> bool" where
  "checkpoint_open E base ck w \<longleftrightarrow> world_ok E w \<and> (\<exists>n. flights_below (publishes ck) n w \<and> absent_upto ck n w
    \<and> has_checkpoint_append_base base (fst (w_heads w ! n)) \<and> generation base \<le> generation (fst (w_heads w ! n)))"

definition checkpoint_past :: "externals \<Rightarrow> head \<Rightarrow> checkpoint_ref \<Rightarrow> view \<Rightarrow> u64 \<Rightarrow> world \<Rightarrow> bool" where
  "checkpoint_past E base ck cur g w \<longleftrightarrow> (\<exists>w0 n. world_ok E w0 \<and> current w0 = (v_head cur, v_version cur)
    \<and> flights_below (publishes ck) n w0 \<and> absent_upto ck n w0
    \<and> has_checkpoint_append_base base (fst (w_heads w0 ! n)) \<and> generation base \<le> generation (fst (w_heads w0 ! n))
    \<and> Suc n < length (w_heads w0) \<and> g \<le> generation (fst (w_heads w0 ! n))
    \<and> rely E (avoids (publishes ck)) w0 w)"

definition names_checkpoint :: "checkpoint_ref \<Rightarrow> commit_ref \<Rightarrow> object_ref \<Rightarrow> bool" where
  "names_checkpoint ck through obj \<longleftrightarrow>
    ck = \<lparr>cp_through_sequence = cr_sequence through, cp_through_commit = cr_digest through, cp_object = obj\<rparr>"

definition checkpointing ::
    "externals \<Rightarrow> log \<Rightarrow> head \<Rightarrow> commit_ref \<Rightarrow> object_ref \<Rightarrow> checkpoint_ref \<Rightarrow> view \<Rightarrow> nat \<Rightarrow> world \<Rightarrow> bool" where
  "checkpointing E lg base through obj ck v n w \<longleftrightarrow> world_ok E w \<and> at_index v n w
    \<and> flights_below (publishes ck) n w \<and> absent_upto ck n w
    \<and> has_checkpoint_append_base base (v_head v) \<and> generation base \<le> generation (v_head v)
    \<and> options (v_head v) = lg_options lg \<and> checkpoint_ref_ok ck
    \<and> names_checkpoint ck through obj"

lemma checkpoint_open_rely: "checkpoint_open E base ck w \<Longrightarrow> rely E A w w' \<Longrightarrow> checkpoint_open E base ck w'"
proof -
  assume rec: "checkpoint_open E base ck w" and rely: "rely E A w w'"
  then obtain n where ok: "world_ok E w" and n: "flights_below (publishes ck) n w" "absent_upto ck n w"
      "has_checkpoint_append_base base (fst (w_heads w ! n))" "generation base \<le> generation (fst (w_heads w ! n))"
    by (auto simp: checkpoint_open_def)
  note len = flights_below_length [OF n(1)]
  show ?thesis
    unfolding checkpoint_open_def
    using rely_ok [OF rely ok] flights_below_rely [OF ok n(1) rely] n
      absent_keeps [OF n(2) len rely_grows(1) [OF rely]] rely_nth [OF rely len]
    by (intro conjI exI [of _ n]) simp_all
qed

lemma checkpoint_open_stable: "stable E A (checkpoint_open E base ck)"
  using checkpoint_open_rely by (rule stableI)

lemma checkpoint_past_open: "checkpoint_past E base ck cur g w \<Longrightarrow> checkpoint_open E base ck w"
proof -
  assume "checkpoint_past E base ck cur g w"
  then obtain w0 where "checkpoint_open E base ck w0" "rely E (avoids (publishes ck)) w0 w"
    unfolding checkpoint_past_def checkpoint_open_def by blast
  then show ?thesis by (rule checkpoint_open_rely)
qed

lemma carried_rely: "carried ck w \<Longrightarrow> rely E A w w' \<Longrightarrow> carried ck w'"
  using rely_member unfolding carried_def by fastforce

lemma sealed_checkpoint:
  assumes "world_ok E w0" "flights_below (publishes ck) n w0" "Suc n < length (w_heads w0)"
    and "\<not> carried ck w0" "rely E (avoids (publishes ck)) w0 w"
  shows "never E (publishes ck) w"
  using assms carried_iff [OF assms(1)]
  by (intro never_rely [OF sealed_never assms(5)]) (auto simp: sealed_def)

lemma checkpointing_rely:
  assumes "checkpointing E lg base through obj ck v n w" "rely E A w w'"
  shows "checkpointing E lg base through obj ck v n w'"
  using assms(1) rely_ok [OF assms(2)] at_index_rely [OF assms(2)] flights_below_rely [OF _ _ assms(2)]
    absent_keeps [OF _ flights_below_length rely_grows(1) [OF assms(2)]]
  unfolding checkpointing_def by blast

lemma checkpointing_stable: "stable E A (checkpointing E lg base through obj ck v n)"
  using checkpointing_rely by (rule stableI)

lemma checkpointing_open: "checkpointing E lg base through obj ck v n w \<Longrightarrow> checkpoint_open E base ck w"
  unfolding checkpointing_def checkpoint_open_def at_index_def by auto

lemma checkpointing_step:
  assumes "checkpointing E lg base through obj ck v n w" "checkpoint_head (v_head v) through obj = Inr h'"
  shows "head_step (v_head v) h' \<and> head_fields_ok E h'" "checkpoint h' = Some ck"
proof -
  have h: "durable E (v_head v)"
    using assms(1) member_durable [OF _ at_index_member, of E w v n] by (simp add: checkpointing_def)
  show "checkpoint h' = Some ck"
    using assms by (auto simp: checkpointing_def names_checkpoint_def checkpoint_head_Inr compacted_head_def)
  with assms h have "head_fields_ok E h'"
    by (auto simp: durable_def checkpointing_def checkpoint_head_Inr compacted_head_def head_fields_ok_def)
  with step_checkpoint [OF assms(2)] show "head_step (v_head v) h' \<and> head_fields_ok E h'" ..
qed

lemma checkpointing_unsettled:
  assumes "checkpointing E lg base through obj ck v n w" "checkpoint_head (v_head v) through obj = Inr h'"
    and "unsettled E w v h' w'"
  shows "checkpointing E lg base through obj ck v n w'"
  using assms unsettled_ok [OF _ at_index_member _ assms(3)] checkpointing_step(1) [OF assms(1,2)]
    at_index_unsettled [OF assms(3)] unsettled_flights [of E w "publishes ck" n v h' w']
    absent_keeps [OF _ flights_below_length unsettled_heads [OF assms(3)]]
  unfolding checkpointing_def at_index_def by blast

lemma checkpointing_later:
  assumes chk: "checkpointing E lg base through obj ck v n w" and obs: "observed lg u w"
  shows "n \<le> length (w_heads w) - 1" "at_index u (length (w_heads w) - 1) w"
    and "v_head u \<noteq> v_head v \<Longrightarrow> Suc n < length (w_heads w)"
proof -
  show u: "at_index u (length (w_heads w) - 1) w"
    using chk obs observed_at_index [of E w lg u] by (simp add: checkpointing_def)
  have n: "n < length (w_heads w)" "w_heads w ! n = (v_head v, v_version v)"
    using chk by (simp_all add: checkpointing_def at_index_def)
  then show "n \<le> length (w_heads w) - 1" by simp
  show "Suc n < length (w_heads w)" if "v_head u \<noteq> v_head v"
  proof -
    have "n \<noteq> length (w_heads w) - 1" using that u n by (auto simp: at_index_def)
    with n show ?thesis by linarith
  qed
qed

lemma checkpointing_newer:
  assumes chk: "checkpointing E lg base through obj ck v n w" and obs: "observed lg u w"
    and base: "has_checkpoint_append_base base (v_head u)" and newer: "generation (v_head v) < generation (v_head u)"
  shows "checkpointing E lg base through obj ck u (length (w_heads w) - 1) w"
proof -
  note later = checkpointing_later [OF chk obs]
  have ok: "world_ok E w" and v: "at_index v n w" and fl: "flights_below (publishes ck) n w"
    and absent: "absent_upto ck n w" and b: "has_checkpoint_append_base base (v_head v)"
    using chk by (auto simp: checkpointing_def)
  have len: "length (w_heads w) - 1 < length (w_heads w)" using later(2) by (simp add: at_index_def)
  have "checkpoint (fst (w_heads w ! n)) = checkpoint (fst (w_heads w ! (length (w_heads w) - 1)))"
    using v later(2) b base by (simp add: at_index_def append_base_iff)
  from absent_extend [OF ok absent later(1) len this] flights_below_mono [OF fl later(1) len]
  show ?thesis
    using chk obs base newer later(2) unfolding checkpointing_def observed_def by auto
qed

lemma checkpointing_past:
  assumes chk: "checkpointing E lg base through obj ck v n w" and obs: "observed lg u w"
    and rely: "rely E (avoids (publishes ck)) w w'" and newer: "v_head u \<noteq> v_head v"
  shows "checkpoint_past E base ck u (generation (v_head v)) w'"
  unfolding checkpoint_past_def
  using chk obs rely checkpointing_later(3) [OF chk obs newer]
  by (intro exI [of _ w] exI [of _ n]) (simp add: checkpointing_def observed_def at_index_def)

lemma checkpointing_contended:
  assumes chk: "checkpointing E lg base through obj ck v n w" and obs: "observed lg u w"
    and rely: "rely E (avoids (publishes ck)) w w'"
    and base: "has_checkpoint_append_base base (v_head u)" and newer: "generation (v_head v) < generation (v_head u)"
  shows "never E (publishes ck) w'"
proof -
  have "\<not> carried ck w"
    using checkpointing_newer [OF chk obs base newer] absent_all by (simp add: checkpointing_def)
  moreover have "Suc n < length (w_heads w)"
    by (rule checkpointing_later(3) [OF chk obs]) (use newer in auto)
  ultimately show ?thesis
    using chk rely sealed_checkpoint by (auto simp: checkpointing_def)
qed

lemma installed_checkpoint:
  assumes chk: "checkpointing E lg base through obj ck v n w"
    and cand: "checkpoint_head (v_head v) through obj = Inr h'"
    and h': "durable E h'" and cur: "current w = (v_head v, v_version v)" "ver \<notin> snd ` set (w_heads w)"
    and rely: "rely E A (install w h' ver) w'"
  shows "world_ok E w'" "carried ck w'" "(h', ver) \<in> set (w_heads w')"
proof -
  have "world_ok E w" using chk by (simp add: checkpointing_def)
  then have "world_ok E (install w h' ver)"
    using checkpointing_step(1) [OF chk cand] h' cur by (intro world_ok_install) simp_all
  then show "world_ok E w'" by (rule rely_ok [OF rely])
  have new: "(h', ver) \<in> set (w_heads (install w h' ver))" by (simp add: install_def)
  then show "(h', ver) \<in> set (w_heads w')" by (rule rely_member [OF rely])
  then show "carried ck w'"
    using checkpointing_step(2) [OF chk cand] by (force simp: carried_def)
qed

fun checkpoint_post ::
    "externals \<Rightarrow> head \<Rightarrow> checkpoint_ref \<Rightarrow> head_publication result \<Rightarrow> world \<Rightarrow> bool" where
  "checkpoint_post E base ck (Inr (HeadUpdated v)) w = (world_ok E w \<and> shown v w \<and> carried ck w)"
| "checkpoint_post E base ck (Inr (HeadContended v)) w = (world_ok E w \<and> shown v w \<and> never E (publishes ck) w)"
| "checkpoint_post E base ck (Inr (HeadChanged v g)) w = checkpoint_past E base ck v g w"
| "checkpoint_post E base ck (Inr HeadPending) w = checkpoint_open E base ck w"
| "checkpoint_post E base ck (Inl e) w = checkpoint_open E base ck w"

sublocale cbor \<subseteq> checkpoint_publication: publication E lg "\<lambda>h. checkpoint_head h through obj"
  "has_checkpoint_append_base base" "avoids (publishes ck)"
  "\<lambda>v w. \<exists>n. checkpointing E lg base through obj ck v n w" "checkpoint_post E base ck"
  for lg base through obj ck
proof (unfold_locales, goal_cases)
  case (1 v w)
  then show ?case by (auto simp: checkpointing_def)
next
  case (2 v w)
  then show ?case by (auto simp: checkpointing_def dest: at_index_member)
next
  case (3 v w)
  then show ?case by (auto simp: checkpointing_def)
next
  case (4 v w w')
  then show ?case using checkpointing_rely by blast
next
  case (5 v w h' w')
  then show ?case using checkpointing_unsettled by blast
next
  case (6 v w u)
  then show ?case using checkpointing_newer by blast
next
  case (7 v w h')
  then show ?case using checkpointing_step by blast
next
  case (8 v w h' ver v' w')
  then obtain n where "checkpointing E lg base through obj ck v n w" by blast
  from installed_checkpoint [OF this 8(2-5,8)] 8(6,7) show ?case by (simp add: shown_def)
next
  case (9 v w u w')
  then obtain n where n: "checkpointing E lg base through obj ck v n w" by blast
  with 9 have "v_head u \<noteq> v_head v" by (auto simp: checkpointing_def)
  from checkpointing_past [OF n 9(2,4) this] show ?case by simp
next
  case (10 v w u w')
  then obtain n where n: "checkpointing E lg base through obj ck v n w" by blast
  then have "world_ok E w" by (simp add: checkpointing_def)
  with checkpointing_contended [OF n 10(2,5,3,4)] observed_shown [OF _ 10(2,5)] rely_ok [OF 10(5)]
  show ?case by simp
next
  case (11 v w)
  then show ?case using checkpointing_open by auto
next
  case (12 v w e)
  then show ?case using checkpointing_open by auto
qed



section \<open>Resolving an uncertain checkpoint\<close>

fun checkpoint_resolution_post ::
    "externals \<Rightarrow> head \<Rightarrow> checkpoint_ref \<Rightarrow> checkpoint_resolution result \<Rightarrow> world \<Rightarrow> bool" where
  "checkpoint_resolution_post E base ck (Inr (CheckpointResolvedPublished v)) w =
    (world_ok E w \<and> shown v w \<and> carried ck w)"
| "checkpoint_resolution_post E base ck (Inr (CheckpointNotPublished v)) w =
    (world_ok E w \<and> shown v w \<and> never E (publishes ck) w)"
| "checkpoint_resolution_post E base ck (Inr (CheckpointExpired v)) w =
    (shown v w \<and> checkpoint_open E base ck w)"
| "checkpoint_resolution_post E base ck (Inr (CheckpointStillPending p)) w =
    (pk_checkpoint p = ck \<and> checkpoint_open E base ck w)"
| "checkpoint_resolution_post E base ck (Inl e) w = checkpoint_open E base ck w"

lemma checkpoint_past_shown: "checkpoint_past E base ck cur g w \<Longrightarrow> world_ok E w \<and> shown cur w"
  unfolding checkpoint_past_def shown_def
  by (metis current_in rely_member rely_ok world_ok_def)

lemma checkpoint_past_classified:
  assumes past: "checkpoint_past E base ck cur g w" and pending: "pk_checkpoint pending = ck"
    and classified: "classify_checkpoint pending cur g = Inr r"
  shows "checkpoint_resolution_post E base ck (Inr (checkpoint_resolution_of r)) w"
proof -
  obtain w0 n where ok: "world_ok E w0" and cur: "current w0 = (v_head cur, v_version cur)"
    and fl: "flights_below (publishes ck) n w0" and absent: "absent_upto ck n w0"
    and n: "Suc n < length (w_heads w0)" "g \<le> generation (fst (w_heads w0 ! n))"
    and rely: "rely E (avoids (publishes ck)) w0 w"
    using past by (auto simp: checkpoint_past_def)
  let ?m = "length (w_heads w0) - 1"
  have m: "fst (w_heads w0 ! ?m) = v_head cur" and ne: "w_heads w0 \<noteq> []"
    using ok cur by (simp_all add: current_def last_conv_nth world_ok_def)
  have "carried ck w" if "checkpoint (v_head cur) = Some ck"
  proof -
    have "(v_head cur, v_version cur) \<in> set (w_heads w0)" using cur current_in [OF ne] by simp
    then have "carried ck w0" using that by (force simp: carried_def)
    then show ?thesis using rely by (rule carried_rely)
  qed
  moreover have "never E (publishes ck) w"
    if "checkpoint (v_head cur) \<noteq> Some ck" "unat (generation (v_head cur)) = unat g + 1"
  proof -
    have "unat (generation (v_head cur)) = unat (generation (fst (w_heads w0 ! n))) + (?m - n)"
      using world_generation [OF ok, of n ?m] n(1) m by simp
    then have "?m = Suc n" using that(2) n by (simp add: word_le_nat_alt)
    then have "absent_upto ck ?m w0"
      using absent that(1) m by (simp add: absent_upto_def le_Suc_eq)
    then show ?thesis using sealed_checkpoint [OF ok fl n(1) absent_all rely] by simp
  qed
  ultimately show ?thesis
    using classified pending checkpoint_past_shown [OF past] checkpoint_past_open [OF past]
    by (auto simp: classify_checkpoint_def checkpoint_resolution_of_def and_then_Inr ok_or_Inr checked_simps
        split: if_splits)
qed

lemma open_past:
  assumes "checkpoint_open E base ck w" "observed lg u w" "rely E (avoids (publishes ck)) w w'"
    and "\<not> has_checkpoint_append_base base (v_head u)"
  shows "checkpoint_past E base ck u (generation base) w'"
proof -
  obtain n where ok: "world_ok E w" and n: "flights_below (publishes ck) n w" "absent_upto ck n w"
      "has_checkpoint_append_base base (fst (w_heads w ! n))" "generation base \<le> generation (fst (w_heads w ! n))"
    using assms(1) by (auto simp: checkpoint_open_def)
  have u: "w_heads w ! (length (w_heads w) - 1) = (v_head u, v_version u)"
    using observed_at_index [OF ok assms(2)] by (simp add: at_index_def)
  have "n \<noteq> length (w_heads w) - 1" using u n(3) assms(4) by auto
  then have "Suc n < length (w_heads w)" using flights_below_length [OF n(1)] by linarith
  with ok n assms(2,3) show ?thesis
    unfolding checkpoint_past_def observed_def by (intro exI [of _ w] exI [of _ n]) simp
qed

lemma open_checkpointing:
  assumes opn: "checkpoint_open E base ck w" and obs: "observed lg u w"
    and base: "has_checkpoint_append_base base (v_head u)"
    and ck: "checkpoint_ref_ok ck" "names_checkpoint ck through obj"
  shows "checkpointing E lg (v_head u) through obj ck u (length (w_heads w) - 1) w"
proof -
  obtain n where ok: "world_ok E w" and n: "flights_below (publishes ck) n w" "absent_upto ck n w"
      "has_checkpoint_append_base base (fst (w_heads w ! n))"
    using opn by (auto simp: checkpoint_open_def)
  note u = observed_at_index [OF ok obs] and len = flights_below_length [OF n(1)]
  have last: "length (w_heads w) - 1 < length (w_heads w)" "n \<le> length (w_heads w) - 1"
    using len by linarith+
  have "checkpoint (fst (w_heads w ! n)) = checkpoint (fst (w_heads w ! (length (w_heads w) - 1)))"
    using u n(3) base by (simp add: at_index_def append_base_iff)
  from absent_extend [OF ok n(2) last(2,1) this] flights_below_mono [OF n(1) last(2,1)]
  show ?thesis using ok u obs ck unfolding checkpointing_def observed_def by simp
qed

lemma open_append:
  assumes "has_checkpoint_append_base base b" "generation base \<le> generation b" "checkpoint_open E b ck w"
  shows "checkpoint_open E base ck w"
  using assms append_base_trans [OF assms(1)] order_trans [OF assms(2)]
  unfolding checkpoint_open_def by blast

lemma checkpoint_resolution_post_append:
  assumes "has_checkpoint_append_base base b" "generation base \<le> generation b"
    and "checkpoint_resolution_post E b ck r w"
  shows "checkpoint_resolution_post E base ck r w"
  using assms(3) open_append [OF assms(1,2)]
  by (cases "(E, b, ck, r, w)" rule: checkpoint_resolution_post.cases) simp_all

lemma checkpoint_view_Inr:
  assumes "checkpoint_publication_view source u = Inr r"
  shows "(r = Some u \<and> has_checkpoint_append_base (v_head source) (v_head u)
      \<and> generation (v_head source) \<le> generation (v_head u))
    \<or> (r = None \<and> \<not> has_checkpoint_append_base (v_head source) (v_head u))"
  using assms
  by (auto simp: checkpoint_publication_view_def compatible_publication_view_def is_same_head_def split: if_splits)

lemma carried_stable: "stable E A (\<lambda>w. checkpoint_open E base ck w \<and> world_ok E w \<and> shown v w \<and> carried ck w)"
  using checkpoint_open_rely rely_ok rely_member carried_rely unfolding shown_def by (intro stableI) blast

lemma wp_checkpoint_classified:
  assumes past: "checkpoint_past E base ck u g w" and pending: "pk_checkpoint pending = ck"
  shows "wp E (avoids (publishes ck)) (head_path lg) (checkpoint_resolution_post E base ck)
    (attempt (classify_checkpoint pending u g) (\<lambda>evidence.
      case evidence of
        EvidencePublished view \<Rightarrow>
          if verified then succeed (CheckpointResolvedPublished view)
          else
            await (verify_checkpoint E lg (pk_checkpoint pending)) (\<lambda>r.
            case r of
              Inr _ \<Rightarrow> succeed (CheckpointResolvedPublished view)
            | Inl (Store _) \<Rightarrow> succeed (CheckpointStillPending pending)
            | Inl RequestDenied \<Rightarrow> succeed (CheckpointStillPending pending)
            | Inl error \<Rightarrow> fail_with error)
      | _ \<Rightarrow> succeed (checkpoint_resolution_of evidence))) w"
proof (rule wp_attemptI, goal_cases)
  case (1 e)
  then show ?case using checkpoint_past_open [OF past] by simp
next
  case (2 evidence)
  note post = checkpoint_past_classified [OF past pending 2]
  show ?case
  proof (cases evidence)
    case (EvidencePublished view)
    have R: "checkpoint_open E base ck w \<and> world_ok E w \<and> shown view w \<and> carried ck w"
      using post checkpoint_past_open [OF past] by (simp add: EvidencePublished checkpoint_resolution_of_def)
    then have "wp E (avoids (publishes ck)) (head_path lg) (checkpoint_resolution_post E base ck)
        (await (verify_checkpoint E lg (pk_checkpoint pending)) (\<lambda>r.
          case r of
            Inr _ \<Rightarrow> succeed (CheckpointResolvedPublished view)
          | Inl (Store _) \<Rightarrow> succeed (CheckpointStillPending pending)
          | Inl RequestDenied \<Rightarrow> succeed (CheckpointStillPending pending)
          | Inl error \<Rightarrow> fail_with error)) w"
    proof (rule wp_await_stable [OF carried_stable], goal_cases)
      case (2 r w')
      then show ?case using pending by (cases r rule: sum.exhaust) (auto split: error.splits)
    qed simp
    then show ?thesis using R by (simp add: EvidencePublished)
  qed (use post in \<open>simp_all add: checkpoint_resolution_of_def\<close>)
qed

lemma checkpoint_published:
  assumes post: "checkpoint_post E base ck r w" and pending: "pk_checkpoint pending = ck"
  shows "wp E (avoids (publishes ck)) (head_path lg) (checkpoint_resolution_post E base ck)
    (case r of
      Inr (HeadUpdated view) \<Rightarrow> succeed (CheckpointResolvedPublished view)
    | Inr HeadPending \<Rightarrow> succeed (CheckpointStillPending pending)
    | Inl (Store _) \<Rightarrow> succeed (CheckpointStillPending pending)
    | Inl RequestDenied \<Rightarrow> succeed (CheckpointStillPending pending)
    | Inr (HeadContended cur) \<Rightarrow> succeed (CheckpointNotPublished cur)
    | Inl error \<Rightarrow> fail_with error
    | Inr (HeadChanged cur g) \<Rightarrow>
        attempt (classify_checkpoint pending cur g) (\<lambda>evidence.
        succeed (checkpoint_resolution_of evidence))) w"
proof (cases r)
  case (Inl e)
  then show ?thesis using post pending by (cases e) auto
next
  case (Inr p)
  show ?thesis
  proof (cases p)
    case (HeadChanged v g)
    then have past: "checkpoint_past E base ck v g w" using post Inr by simp
    from checkpoint_past_classified [OF past pending] checkpoint_past_open [OF past] show ?thesis
      using Inr HeadChanged by (simp add: wp_attempt split: sum.splits)
  qed (use post pending Inr in auto)
qed

context cbor
begin

lemma wp_publish_checkpoint:
  assumes "checkpointing E lg (v_head v) through obj ck v n w"
    and "\<And>r w'. checkpoint_post E (v_head v) ck r w' \<Longrightarrow> Q r w'"
  shows "wp E (avoids (publishes ck)) (head_path lg) Q
    (publish_checkpoint_head E lg v (\<lambda>h. checkpoint_head h through obj)) w"
  unfolding publish_checkpoint_head_def publish_head_compatible_def
  by (rule wp_mono [OF checkpoint_publication.wp_publish_from]) (use assms in blast)+

lemma wp_resolve_checkpoint_publish:
  assumes chk: "checkpointing E lg (v_head u) through (cp_object ck) ck u n w" and pending: "pk_checkpoint pending = ck"
  shows "wp E (avoids (publishes ck)) (head_path lg) (checkpoint_resolution_post E (v_head u) ck)
    (await (verify_tail E lg v) (\<lambda>r.
    attempt (publication_evidence r) (\<lambda>evidence.
    if evidence = None then succeed (CheckpointStillPending pending)
    else
    await (verify_checkpoint_publication E lg pending) (\<lambda>r.
    attempt (publication_evidence r) (\<lambda>evidence.
    if evidence = None then succeed (CheckpointStillPending pending)
    else
    await (publish_checkpoint_head E lg u (\<lambda>h. checkpoint_head h through (cp_object ck))) (\<lambda>published.
    case published of
      Inr (HeadUpdated view) \<Rightarrow> succeed (CheckpointResolvedPublished view)
    | Inr HeadPending \<Rightarrow> succeed (CheckpointStillPending (pending\<lparr>pk_staging_domain := d\<rparr>))
    | Inl (Store _) \<Rightarrow> succeed (CheckpointStillPending (pending\<lparr>pk_staging_domain := d\<rparr>))
    | Inl RequestDenied \<Rightarrow> succeed (CheckpointStillPending (pending\<lparr>pk_staging_domain := d\<rparr>))
    | Inr (HeadContended cur) \<Rightarrow> succeed (CheckpointNotPublished cur)
    | Inl error \<Rightarrow> fail_with error
    | Inr (HeadChanged cur g) \<Rightarrow>
        attempt (classify_checkpoint (pending\<lparr>pk_staging_domain := d\<rparr>) cur g) (\<lambda>evidence.
        succeed (checkpoint_resolution_of evidence)))))))) w"
proof (rule wp_evidence_stable [OF checkpointing_stable chk], goal_cases)
  case (4 w1)
  then show ?case
  proof (rule wp_evidence_stable [OF checkpointing_stable], goal_cases)
    case (4 w2)
    then show ?case
      unfolding wp_await by (rule wp_publish_checkpoint) (simp add: checkpoint_published pending)
  qed (use checkpointing_open pending in auto)
qed (use checkpointing_open pending in auto)

lemma wp_resolve_checkpoint:
  assumes opn: "checkpoint_open E (v_head (pk_view pending)) ck w"
    and pending: "pk_checkpoint pending = ck" and ck: "checkpoint_ref_ok ck"
  shows "wp E (avoids (publishes ck)) (head_path lg)
    (checkpoint_resolution_post E (v_head (pk_view pending)) ck) (resolve_checkpoint E lg pending) w"
  unfolding resolve_checkpoint_def
proof (rule wp_attemptI, goal_cases)
  case 2
  let ?base = "v_head (pk_view pending)" and ?through = "pk_through pending"
    and ?obj = "cp_object (pk_checkpoint pending)"
  have ok: "world_ok E w" using opn by (simp add: checkpoint_open_def)
  show ?case
  proof (rule wp_attemptI, goal_cases)
    case (2 original)
    note original = this
    show ?case
    proof (rule wp_attemptI, goal_cases)
      case (2 x)
      have names: "names_checkpoint ck ?through ?obj"
        using original 2 pending
        by (auto simp: guard_Inr checkpoint_head_Inr compacted_head_def names_checkpoint_def)
      show ?case
        unfolding wp_await [of _ _ _ _ "load E lg"]
      proof (rule wp_load [OF ok], goal_cases)
        case (2 e w1)
        from checkpoint_open_rely [OF opn 2] pending show ?case
          by (auto simp: wp_attempt publication_evidence_def split: sum.splits error.splits)
      next
        case (1 u w1 w2)
        note open1 = checkpoint_open_rely [OF opn 1(1)]
        note open2 = checkpoint_open_rely [OF open1 1(3)]
        have ev: "publication_evidence (Inr u :: view result) = Inr (Some u)"
          by (simp add: publication_evidence_def)
        show ?case
          unfolding ev attempt_simps option.case
        proof (rule wp_attemptI, goal_cases)
          case (2 r)
          from checkpoint_view_Inr [OF this] show ?case
          proof (elim disjE conjE)
            assume r: "r = None" and other: "\<not> has_checkpoint_append_base ?base (v_head u)"
            from wp_checkpoint_classified [OF open_past [OF open1 1(2,3) other] pending]
            show ?thesis unfolding r option.case .
          next
            assume r: "r = Some u" and base: "has_checkpoint_append_base ?base (v_head u)"
              and newer: "generation ?base \<le> generation (v_head u)"
            note chk = checkpointing_rely [OF open_checkpointing [OF open1 1(2) base ck names] 1(3)]
            have pending': "pk_checkpoint (pending\<lparr>pk_staging_domain := d\<rparr>) = ck"
              "pk_through (pending\<lparr>pk_staging_domain := d\<rparr>) = ?through" for d using pending by simp_all
            show ?thesis
              unfolding r option.case Let_def pending'
              by (rule wp_mono [OF wp_resolve_checkpoint_publish [OF chk [unfolded pending] pending]])
                (rule checkpoint_resolution_post_append [OF base newer])
          qed
        qed (use open2 in simp)
      qed
    qed (use opn in simp)
  qed (use opn in simp)
qed (use opn in simp)

end

end
