(* ===== verification/Maintain_Safety.thy ===== *)
theory Maintain_Safety
  imports Checkpoint_Safety
begin

text \<open>
  Maintenance against every behaviour of the store and of the other clients: retentions, the installation of
  a collection plan and its removal write only legal heads, a retention reported as applied is held
  by a head of the same collection epoch, a plan reported as installed is active, and a collection
  reported as complete left a head without a plan.
\<close>


section \<open>Refreshing a view\<close>

lemma wp_read_if_changed:
  assumes found: "\<And>stored w'. reads_current E A w stored w' \<Longrightarrow> Q (Inr (Modified stored)) w'"
    and other: "\<And>r w'. rely E A w w' \<Longrightarrow> r = Inr Unmodified \<or> r = Inr Missing \<or> (\<exists>e. r = Inl e) \<Longrightarrow> Q r w'"
  shows "wp E A (ss_scope s @ [''index.cbor'']) Q (read_if_changed E s HeadKey ver max_bytes) w"
proof (cases "e_tag ver")
  case None
  then show ?thesis using other [OF rely_refl] by (simp add: read_if_changed_def)
next
  case (Some tag)
  show ?thesis
    unfolding read_if_changed_def Some option.case retry_safe_read_def
  proof (rule wp_retry_from)
    fix w' assume w': "rely E A w w'"
    show "wp E A (ss_scope s @ [''index.cbor'']) (\<lambda>r w1. rely E A w w1 \<and> Q r w1)
       (Get (location E s HeadKey) (Some tag) (\<lambda>r. case r of
          Inr result \<Rightarrow> attempt (collect_object E result max_bytes) (\<lambda>x. succeed (Modified x))
        | Inl NotModified \<Rightarrow> succeed Unmodified | Inl NotFound \<Rightarrow> succeed Missing
        | Inl error \<Rightarrow> fail_with (Store error))) w'"
    proof (simp, intro allI impI)
      fix w1 r assume w1: "rely E A w' w1" and r: "head_response E w1 (Some tag) r"
      have reach: "rely E A w w1" using w' w1 by (rule rely_trans)
      show "wp E A (ss_scope s @ [''index.cbor'']) (\<lambda>r w1. rely E A w w1 \<and> Q r w1)
          (case r of
            Inr result \<Rightarrow> attempt (collect_object E result max_bytes) (\<lambda>x. succeed (Modified x))
          | Inl NotModified \<Rightarrow> succeed Unmodified | Inl NotFound \<Rightarrow> succeed Missing
          | Inl error \<Rightarrow> fail_with (Store error)) w1"
      proof (cases r)
        case (Inl e)
        then show ?thesis using reach other [OF reach] by (cases e) simp_all
      next
        case (Inr g)
        have "reads_current E A w stored w1" if "collect_object E g max_bytes = Inr stored" for stored
          using collect_object_Inr [OF that] r reach
          by (auto simp: reads_current_def head_response_def Inr)
        with Inr reach found other [OF reach] show ?thesis
          by (auto simp: wp_attempt split: sum.splits)
      qed
    qed
  qed (use other in auto)
qed

context cbor
begin

lemma wp_refresh:
  assumes ok: "world_ok E w"
    and loaded: "\<And>u w' w''. rely E A w w' \<Longrightarrow> observed lg u w' \<Longrightarrow> rely E A w' w'' \<Longrightarrow> Q (Inr (Some u)) w''"
    and same: "\<And>w'. rely E A w w' \<Longrightarrow> Q (Inr None) w'"
    and failed: "\<And>e w'. rely E A w w' \<Longrightarrow> Q (Inl e) w'"
  shows "wp E A (head_path lg) Q (refresh E lg v) w"
  unfolding refresh_def
proof (rule wp_attemptI, goal_cases)
  case (2 x)
  show ?case
    unfolding wp_await_try
  proof (rule wp_read_if_changed, goal_cases)
    case (1 stored w')
    have "wp E A (head_path lg) Q (await_try (view_from_stored E lg stored) (\<lambda>v. succeed (Some v))) w'"
      unfolding wp_await_try by (rule wp_view_from_stored [OF ok 1]) (use loaded failed in auto)
    then show ?case by simp
  qed (use same failed in auto)
qed (use failed in auto)

end


section \<open>Legal writes from an observed view\<close>

text \<open>What every operation that updates the head knows about the view it updates.\<close>

definition writable :: "externals \<Rightarrow> log \<Rightarrow> view \<Rightarrow> world \<Rightarrow> bool" where
  "writable E lg v w \<longleftrightarrow> world_ok E w \<and> shown v w \<and> options (v_head v) = lg_options lg"

lemma writable_rely: "writable E lg v w \<Longrightarrow> rely E A w w' \<Longrightarrow> writable E lg v w'"
  using rely_ok [of E A w w'] rely_member [of E A w w'] by (simp add: writable_def shown_def)

lemma writable_stable: "stable E A (writable E lg v)"
  using writable_rely by (rule stableI)

lemma writable_observed: "world_ok E w \<Longrightarrow> observed lg u w \<Longrightarrow> rely E A w w' \<Longrightarrow> writable E lg u w'"
  using observed_shown rely_ok by (simp add: writable_def observed_def)

lemma writable_unsettled:
  assumes "writable E lg v w" "head_step (v_head v) h'" "unsettled E w v h' w'"
  shows "writable E lg v w'"
  using assms unsettled_ok [OF _ _ assms(2,3)] set_mono_prefix [OF unsettled_heads [OF assms(3)]]
  by (auto simp: writable_def shown_def)

lemma writable_durable: "writable E lg v w \<Longrightarrow> durable E (v_head v)"
  using member_durable by (auto simp: writable_def shown_def)

lemma installed_writable:
  assumes v: "writable E lg v w" and step: "head_step (v_head v) h'" and h': "durable E h'"
    and cur: "current w = (v_head v, v_version v)" "ver \<notin> snd ` set (w_heads w)"
    and v': "v_head v' = h'" "v_version v' = ver" and rely: "rely E A (install w h' ver) w'"
  shows "writable E lg v' w'"
proof -
  have ok: "world_ok E (install w h' ver)"
    using v step h' cur by (intro world_ok_install) (auto simp: writable_def)
  have "(h', ver) \<in> set (w_heads w')"
    by (rule rely_member [OF rely]) (simp add: install_def)
  then show ?thesis
    using v v' rely_ok [OF rely ok] head_step_identity [OF step] by (simp add: writable_def shown_def)
qed

context cbor
begin

lemma wp_write:
  assumes v: "writable E lg v w" and step: "head_step (v_head v) h'" "head_fields_ok E h'"
    and written: "\<And>v' w'. writable E lg v w' \<Longrightarrow> writable E lg v' w' \<Longrightarrow> v_head v' = h' \<Longrightarrow> Q (Inr (Some v')) w'"
    and lost: "\<And>r w'. writable E lg v w' \<Longrightarrow> r = Inr None \<or> (\<exists>e. r = Inl e) \<Longrightarrow> Q r w'"
  shows "wp E A (head_path lg) Q (update_head E lg v h') w"
proof (rule wp_update_head [OF _ _ _ step], goal_cases)
  case (4 w1 ver v' w2)
  note v1 = writable_rely [OF v 4(1)]
  have "writable E lg v' w2" by (rule installed_writable [OF v1 step(1) 4(4,2,3,5,6,7)])
  moreover have "writable E lg v (install w1 h' ver)"
    by (rule writable_unsettled [OF v1 step(1)]) (use 4 in \<open>auto simp: unsettled_def\<close>)
  ultimately show ?case using written 4(5,7) writable_rely by blast
next
  case (5 w1 w2 r)
  show ?case
    using lost [OF writable_unsettled [OF writable_rely [OF v 5(1)] step(1) 5(2)] 5(3)] .
qed (use v in \<open>auto simp: writable_def shown_def\<close>)

lemma wp_reread:
  assumes v: "writable E lg v w"
    and loaded: "\<And>u w'. writable E lg v w' \<Longrightarrow> writable E lg u w' \<Longrightarrow> Q (Inr u) w'"
    and failed: "\<And>e w'. writable E lg v w' \<Longrightarrow> Q (Inl e) w'"
  shows "wp E A (head_path lg) Q (load E lg) w"
proof (rule wp_load, goal_cases)
  case 1
  then show ?case using v by (simp add: writable_def)
next
  case (2 u w1 w2)
  have "world_ok E w1" using writable_rely [OF v 2(1)] by (simp add: writable_def)
  from writable_observed [OF this 2(2,3)] writable_rely [OF writable_rely [OF v 2(1)] 2(3)] show ?case
    by (intro loaded)
next
  case (3 e w1)
  then show ?case using failed writable_rely [OF v] by blast
qed

end


section \<open>Retentions\<close>

definition retention_held :: "retention_change \<Rightarrow> head \<Rightarrow> head \<Rightarrow> bool" where
  "retention_held change source h \<longleftrightarrow> retention_classify change h = StateApplied
    \<and> (is_acquire change \<longrightarrow> collection_epoch h = collection_epoch source)"

fun retention_post ::
    "externals \<Rightarrow> log \<Rightarrow> retention_change \<Rightarrow> head \<Rightarrow> retention_status result \<Rightarrow> world \<Rightarrow> bool" where
  "retention_post E lg change source (Inr (RetentionApplied v)) w =
    (writable E lg v w \<and> retention_held change source (v_head v))"
| "retention_post E lg change source (Inr (RetentionActiveCollection v)) w =
    (writable E lg v w \<and> active_plan (v_head v) \<noteq> None)"
| "retention_post E lg change source (Inr (RetentionConflict v)) w = writable E lg v w"
| "retention_post E lg change source (Inr RetentionPending) w = world_ok E w"
| "retention_post E lg change source (Inl e) w = world_ok E w"

lemma retention_applied: "retention_head change h = Inr h' \<Longrightarrow> retention_classify change h' = StateApplied"
  by (cases change) (auto simp: retention_head_Inr)

lemma retention_epoch: "retention_head change h = Inr h' \<Longrightarrow> collection_epoch h' = collection_epoch h"
  by (auto simp: retention_head_Inr)

lemma retention_status_post:
  assumes "writable E lg u w" "is_acquire change \<Longrightarrow> collection_epoch (v_head u) = collection_epoch source"
  shows "retention_post E lg change source
    (Inr (status_of_retention (retention_classify change (v_head u)) u)) w"
  using assms
  by (cases change) (auto simp: status_of_retention_def retention_held_def)

lemma retention_fields: "retention_head change h = Inr h' \<Longrightarrow> head_fields_ok E h \<Longrightarrow> head_fields_ok E h'"
  by (auto simp: retention_head_Inr head_fields_ok_def)

context cbor
begin

lemma wp_change_retention_from:
  "writable E lg cur w \<Longrightarrow> retention_classify change (v_head cur) = StateConflict \<Longrightarrow>
    (is_acquire change \<Longrightarrow> collection_epoch (v_head cur) = collection_epoch (v_head v)) \<Longrightarrow>
    wp E A (head_path lg) (retention_post E lg change (v_head v))
      (change_retention_from E lg v change further cur) w"
proof (induction further arbitrary: cur w rule: less_induct)
  case (less further)
  let ?Q = "retention_post E lg change (v_head v)"
  have ok: "world_ok E w'" if "writable E lg u w'" for u w' using that by (simp add: writable_def)
  show ?case
    unfolding change_retention_from.simps [of _ _ _ _ further]
  proof (rule wp_attemptI, goal_cases)
    case 2
    show ?case
    proof (rule wp_attemptI, goal_cases)
      case (2 h')
      have fields: "head_fields_ok E h'"
        using retention_fields [OF 2] writable_durable [OF less.prems(1)] by (simp add: durable_def)
      show ?case
        unfolding wp_await [of _ _ _ _ "update_head E lg cur h'"]
      proof (rule wp_write [OF less.prems(1) step_retention [OF less.prems(2) 2] fields], goal_cases)
        case (1 v' w1)
        then show ?case
          using retention_applied [OF 2] retention_epoch [OF 2] less.prems(3)
          by (auto simp: retention_held_def)
      next
        case (2 r w1)
        note cur1 = this(1)
        have reload: "wp E A (head_path lg) ?Q (await (load E lg) (\<lambda>loaded.
            attempt (publication_evidence loaded) (\<lambda>evidence.
            case evidence of
              None \<Rightarrow> succeed RetentionPending
            | Some next_view \<Rightarrow>
                if is_same_head next_view cur then succeed RetentionPending
                else if is_acquire change
                    \<and> collection_epoch (v_head next_view) \<noteq> collection_epoch (v_head v)
                then succeed (RetentionConflict next_view)
                else
                  let state = retention_classify change (v_head next_view) in
                  case further of
                    0 \<Rightarrow> succeed (status_of_retention state next_view)
                  | Suc n \<Rightarrow>
                      if is_acquire change \<and> state = StateConflict then
                        if generation (v_head next_view) \<le> generation (v_head cur)
                        then fail_with (invalid ''head version changed without a monotonic head change'')
                        else change_retention_from E lg v change n next_view
                      else succeed (status_of_retention state next_view)))) w1"
          unfolding wp_await
        proof (rule wp_reread [OF cur1], goal_cases)
          case (1 u w2)
          then show ?case
            using less.IH [of _ u w2] retention_status_post [of E lg u w2 change "v_head v"] ok [OF 1(2)]
            by (auto simp: wp_attempt publication_evidence_def Let_def split: nat.splits)
        next
          case (2 e w2)
          then show ?case
            using ok by (auto simp: wp_attempt publication_evidence_def split: sum.splits error.splits)
        qed
        from 2(2) show ?case using reload ok [OF cur1] by (auto split: error.splits)
      qed
    qed (use ok [OF less.prems(1)] in simp)
  qed (use ok [OF less.prems(1)] in simp)
qed

lemma wp_change_retention:
  assumes ok: "world_ok E w" and v: "shown v w"
  shows "wp E A (head_path lg) (retention_post E lg change (v_head v)) (change_retention E lg v change) w"
  unfolding change_retention_def Let_def
proof (rule wp_attemptI, goal_cases)
  case 2
  then have v: "writable E lg v w"
    using ok v by (auto simp: writable_def validate_view_def and_then_Inr guard_Inr)
  show ?case
  proof (rule wp_ifI, goal_cases)
    case 2
    then show ?case by (intro wp_change_retention_from v) simp_all
  next
    case 1
    show ?case
      unfolding wp_await_try
    proof (rule wp_refresh [OF ok], goal_cases)
      case (1 u w1 w2)
      have "world_ok E w1" using rely_ok [OF 1(1) ok] .
      from writable_observed [OF this 1(2,3)] show ?case
        using retention_status_post [of E lg u w2 change "v_head v"] by auto
    next
      case (2 w1)
      from writable_rely [OF v 2] show ?case
        using retention_status_post [of E lg v w1 change "v_head v"] by simp
    next
      case (3 e w1)
      then show ?case using rely_ok [OF _ ok] by simp
    qed
  qed
qed (use ok in simp)

end


section \<open>Collections\<close>

fun start_post :: "externals \<Rightarrow> log \<Rightarrow> collection_start result \<Rightarrow> world \<Rightarrow> bool" where
  "start_post E lg (Inr (StartInstalled v r)) w = (writable E lg v w \<and> active_plan (v_head v) \<noteq> None)"
| "start_post E lg (Inr (StartActive v)) w = (writable E lg v w \<and> active_plan (v_head v) \<noteq> None)"
| "start_post E lg (Inr (StartRetained v)) w = (writable E lg v w \<and> retention_ids (v_head v) \<noteq> {||})"
| "start_post E lg (Inr (StartConflict v)) w = writable E lg v w"
| "start_post E lg (Inr (StartEmpty r)) w = world_ok E w"
| "start_post E lg (Inr StartPending) w = world_ok E w"
| "start_post E lg (Inl e) w = world_ok E w"

fun finish_post :: "externals \<Rightarrow> log \<Rightarrow> collection_finish result \<Rightarrow> world \<Rightarrow> bool" where
  "finish_post E lg (Inr (FinishComplete v r)) w = (writable E lg v w \<and> active_plan (v_head v) = None)"
| "finish_post E lg (Inr (FinishConflict v r)) w = writable E lg v w"
| "finish_post E lg (Inr (FinishPending r)) w = world_ok E w"
| "finish_post E lg (Inl e) w = world_ok E w"

lemma writable_ok: "writable E lg v w \<Longrightarrow> world_ok E w"
  by (simp add: writable_def)

lemma validated_writable: "world_ok E w \<Longrightarrow> shown v w \<Longrightarrow> validate_view lg v = Inr () \<Longrightarrow> writable E lg v w"
  by (auto simp: writable_def validate_view_def and_then_Inr guard_Inr)

lemma quiet_cleanup [simp]: "quiet (head_path lg) (cleanup_collection_plan E lg key)"
  by (rule does_cleanup) simp

lemma wp_cleanup:
  "writable E lg u w \<Longrightarrow> wp E A (head_path lg) (start_post E lg)
    (await_try (cleanup_collection_plan E lg key) (\<lambda>_. succeed (StartConflict u))) w"
  "writable E lg u w \<Longrightarrow> active_plan (v_head u) = None \<Longrightarrow> wp E A (head_path lg) (finish_post E lg)
    (await_try (cleanup_collection_plan E lg key) (\<lambda>_. succeed (FinishComplete u report))) w"
  by (erule wp_try_stable [OF writable_stable]; use writable_ok in simp)+

text \<open>The deletion loop stops early only with a pending outcome.\<close>

fun stops_pending :: "collection_finish + collection_report \<Rightarrow> bool" where
  "stops_pending (Inl (FinishPending r)) = True"
| "stops_pending (Inr r) = True"
| "stops_pending _ = False"

lemma delete_batches_stops: "yields stops_pending (delete_batches E lg batches report)"
  by (induction batches arbitrary: report)
    (auto intro!: safely_await_any simp: Let_def split: sum.splits error.splits)

context cbor
begin

lemma wp_install_plan:
  assumes v: "writable E lg v w" and idle: "active_plan (v_head v) = None" "retention_ids (v_head v) = {||}"
    and epoch: "checked_add (collection_epoch (v_head v)) 1 = Some epoch"
  shows "wp E A (head_path lg) (start_post E lg) (install_plan E lg v epoch plan report) w"
  unfolding install_plan_def Let_def
proof (rule wp_try_stable [OF writable_stable v], goal_cases)
  case (3 plan_ref w1)
  show ?case
  proof (rule wp_attemptI, goal_cases)
    case (2 h')
    have step: "head_step (v_head v) h'" by (rule step_install [OF idle epoch 2])
    have h': "active_plan h' = Some plan_ref" "head_fields_ok E h'"
      using 2 writable_durable [OF v] by (auto simp: step_defs durable_def head_fields_ok_def)
    show ?case
      unfolding wp_await [of _ _ _ _ "update_head E lg v h'"]
    proof (rule wp_write [OF 3 step h'(2)], goal_cases)
      case (2 r w2)
      have "wp E A (head_path lg) (start_post E lg) (await (load E lg) (\<lambda>loaded. case loaded of
          Inr cur \<Rightarrow>
            if active_plan (v_head cur) = Some plan_ref then succeed (StartInstalled cur report)
            else if is_same_head cur v then succeed StartPending
            else await_try (cleanup_collection_plan E lg (collection_plan_key (lg_incarnation lg) plan_ref))
              (\<lambda>_. succeed (StartConflict cur))
        | Inl (Store _) \<Rightarrow> succeed StartPending | Inl RequestDenied \<Rightarrow> succeed StartPending
        | Inl error \<Rightarrow> fail_with error)) w2"
        unfolding wp_await
        by (rule wp_reread [OF 2(1)]) (auto intro: wp_cleanup writable_ok split: error.splits)
      then show ?case using 2 by (auto intro: writable_ok split: error.splits)
    qed (use h' in simp)
  qed (use 3 writable_ok in simp)
qed (use writable_ok in \<open>simp_all add: does_create_collection_plan\<close>)

lemma wp_start_collection:
  assumes ok: "world_ok E w" and v: "shown v w"
  shows "wp E A (head_path lg) (start_post E lg) (start_collection_with_limit E lg v n) w"
  unfolding start_collection_with_limit_def Let_def
proof (rule wp_attemptI, use ok in simp, rule wp_attemptI, use ok in simp, goal_cases)
  case 1
  then have v: "writable E lg v w" using validated_writable [OF ok v] by simp
  show ?case
  proof (rule wp_ifI, use v in simp, rule wp_ifI, use v in simp, goal_cases)
    case 1
    show ?case
    proof (rule wp_try_stable [OF writable_stable v], goal_cases)
      case (3 live w1)
      show ?case
      proof (rule wp_attemptI, use 3 writable_ok in simp, rule wp_await_stable [OF writable_stable 3], goal_cases)
        case (2 scan_limit listed w2)
        have "case checked_add (collection_epoch (v_head v)) 1 of None \<Rightarrow> True | Some epoch \<Rightarrow>
            wp E A (head_path lg) (start_post E lg) (install_plan E lg v epoch plan report) w2" for plan report
          using wp_install_plan [OF 2(2)] \<open>\<not> active_plan (v_head v) \<noteq> None\<close> \<open>\<not> retention_ids (v_head v) \<noteq> {||}\<close>
          by (auto split: option.splits)
        then show ?case
          using writable_ok [OF 2(2)]
          by (auto simp: wp_attempt ok_or_def split: sum.splits option.splits if_splits)
      qed simp
    qed (use writable_ok in simp_all)
  qed
qed

lemma wp_clear_plan:
  "writable E lg cur w \<Longrightarrow> active_plan (v_head cur) = Some plan_ref \<Longrightarrow>
    wp E A (head_path lg) (finish_post E lg) (clear_plan_from E lg plan_ref plan_key report further cur) w"
proof (induction further arbitrary: cur w rule: less_induct)
  case (less further)
  show ?case
    unfolding clear_plan_from.simps [of _ _ _ _ _ further]
  proof (rule wp_attemptI, goal_cases)
    case (2 h')
    have step: "head_step (v_head cur) h'" by (rule step_clear [OF less.prems(2) 2])
    have h': "active_plan h' = None" "head_fields_ok E h'"
      using 2 writable_durable [OF less.prems(1)] by (auto simp: step_defs durable_def head_fields_ok_def)
    show ?case
      unfolding wp_await [of _ _ _ _ "update_head E lg cur h'"]
    proof (rule wp_write [OF less.prems(1) step h'(2)], goal_cases)
      case (2 r w1)
      have "wp E A (head_path lg) (finish_post E lg) (await (load E lg) (\<lambda>loaded.
          attempt (publication_evidence loaded) (\<lambda>evidence. case evidence of
            None \<Rightarrow> succeed (FinishPending report)
          | Some u \<Rightarrow>
              if is_same_head u cur then succeed (FinishPending report)
              else (case active_plan (v_head u) of
                  None \<Rightarrow> await_try (cleanup_collection_plan E lg plan_key) (\<lambda>_. succeed (FinishComplete u report))
                | Some active \<Rightarrow>
                    if active \<noteq> plan_ref then succeed (FinishConflict u report)
                    else if generation (v_head u) \<le> generation (v_head cur)
                    then fail_with (invalid ''head version changed without a monotonic head change'')
                    else (case further of
                        0 \<Rightarrow> succeed (FinishConflict u report)
                      | Suc n \<Rightarrow> clear_plan_from E lg plan_ref plan_key report n u))))) w1"
        unfolding wp_await
        by (rule wp_reread [OF 2(1)])
          (auto intro: wp_cleanup writable_ok less.IH simp: wp_attempt publication_evidence_def
            split: option.splits nat.splits sum.splits error.splits)
      then show ?case using 2 by (auto intro: writable_ok split: error.splits)
    qed (use h' in \<open>simp add: wp_cleanup\<close>)
  qed (use less.prems writable_ok in simp)
qed

lemma wp_delete_planned:
  assumes u: "writable E lg u w" "active_plan (v_head u) = Some plan_ref"
  shows "wp E A (head_path lg) (finish_post E lg) (await_try (delete_batches E lg batches report)
    (\<lambda>deleted. case deleted of Inl finish \<Rightarrow> succeed finish
      | Inr report \<Rightarrow> clear_collection_plan E lg u plan_ref plan_key report)) w"
  unfolding wp_await_try
proof (rule wp_ends)
  show "safely (\<lambda>e. effect_path e \<noteq> head_path lg) (ok_and stops_pending) (delete_batches E lg batches report)"
    by (rule does_ends [OF does_delete_batches delete_batches_stops]) simp
  fix r w' assume "rely E A w w'" "ok_and stops_pending r"
  moreover from this have "writable E lg u w'" using writable_rely [OF u(1)] by blast
  moreover from this have "world_ok E w'" by (rule writable_ok)
  ultimately show "case r of Inl e \<Rightarrow> finish_post E lg (Inl e) w'
    | Inr deleted \<Rightarrow> wp E A (head_path lg) (finish_post E lg) (case deleted of Inl finish \<Rightarrow> succeed finish
      | Inr report \<Rightarrow> clear_collection_plan E lg u plan_ref plan_key report) w'"
    using u(2) wp_clear_plan
    by (auto elim!: stops_pending.elims simp: clear_collection_plan_def split: sum.splits)
qed

lemma wp_resume_collection:
  assumes ok: "world_ok E w" and v: "shown v w"
  shows "wp E A (head_path lg) (finish_post E lg) (resume_collection E lg v) w"
  unfolding resume_collection_def Let_def
proof (rule wp_attemptI, use ok in simp, goal_cases)
  case (1 x)
  then have "writable E lg v w" using validated_writable [OF ok v] by simp
  then show ?case
    unfolding wp_await_try [of _ _ _ _ "load E lg"]
  proof (rule wp_reread, goal_cases)
    case (1 u w1)
    show ?case
    proof (cases "active_plan (v_head u)")
      case None
      then show ?thesis
        using 1 by (auto intro!: writable_ok wp_try_stable [OF writable_stable 1(2)] split: option.splits)
    next
      case (Some plan_ref)
      then show ?thesis
        using 1(2)
        by (auto intro!: wp_try_stable [OF writable_stable 1(2)] wp_attemptI writable_ok wp_delete_planned)
    qed
  qed (use writable_ok in simp)
qed

end


section \<open>Publishing a checkpoint\<close>

text \<open>
  The reference of a new checkpoint names a fresh object, so the publication is stated without the
  history of that reference: its head writes are legal, and the head of a published checkpoint
  carried a checkpoint through exactly the given commit.
\<close>

fun covers :: "commit_ref \<Rightarrow> head \<Rightarrow> bool" where
  "covers through h \<longleftrightarrow> (\<exists>obj. or_kind obj = Checkpoint \<and> checkpoint h = Some
    \<lparr>cp_through_sequence = cr_sequence through, cp_through_commit = cr_digest through, cp_object = obj\<rparr>)"

fun updated_post :: "externals \<Rightarrow> log \<Rightarrow> checkpoint_ref \<Rightarrow> head_publication result \<Rightarrow> world \<Rightarrow> bool" where
  "updated_post E lg ck (Inr (HeadUpdated v)) w = (writable E lg v w \<and> checkpoint (v_head v) = Some ck)"
| "updated_post E lg ck (Inr (HeadContended v)) w = writable E lg v w"
| "updated_post E lg ck (Inr (HeadChanged v g)) w = writable E lg v w"
| "updated_post E lg ck (Inr HeadPending) w = world_ok E w"
| "updated_post E lg ck (Inl e) w = world_ok E w"

fun checkpoint_status_post :: "externals \<Rightarrow> log \<Rightarrow> commit_ref \<Rightarrow> checkpoint_status result \<Rightarrow> world \<Rightarrow> bool" where
  "checkpoint_status_post E lg through (Inr (CheckpointPublished v)) w = (writable E lg v w \<and> covers through (v_head v))"
| "checkpoint_status_post E lg through (Inr (CheckpointConflict v)) w = writable E lg v w"
| "checkpoint_status_post E lg through (Inr (CheckpointPending p)) w = world_ok E w"
| "checkpoint_status_post E lg through (Inl e) w = world_ok E w"

definition checkpoint_ready :: "externals \<Rightarrow> log \<Rightarrow> commit_ref \<Rightarrow> object_ref \<Rightarrow> checkpoint_ref \<Rightarrow> view \<Rightarrow> world \<Rightarrow> bool" where
  "checkpoint_ready E lg through obj ck v w \<longleftrightarrow> writable E lg v w \<and> checkpoint_ref_ok ck \<and> names_checkpoint ck through obj"

lemma checkpoint_ready_step:
  assumes "checkpoint_ready E lg through obj ck v w" "checkpoint_head (v_head v) through obj = Inr h'"
  shows "head_step (v_head v) h'" "head_fields_ok E h'" "checkpoint h' = Some ck"
proof -
  show step: "head_step (v_head v) h'" by (rule step_checkpoint [OF assms(2)])
  show ck: "checkpoint h' = Some ck"
    using assms by (auto simp: checkpoint_ready_def names_checkpoint_def checkpoint_head_Inr compacted_head_def)
  then show "head_fields_ok E h'"
    using assms writable_durable [of E lg v w] head_step_identity [OF step]
    by (auto simp: checkpoint_ready_def durable_def head_fields_ok_def)
qed

sublocale cbor \<subseteq> checkpoint_writes: publication E lg "\<lambda>h. checkpoint_head h through obj" compatible A
  "checkpoint_ready E lg through obj ck" "updated_post E lg ck"
  for lg compatible A through obj ck
proof (unfold_locales, goal_cases)
  case (5 v w h' w')
  then show ?case
    using writable_unsettled [of E lg v w h' w'] checkpoint_ready_step(1) [of E lg through obj ck v w h']
    by (simp add: checkpoint_ready_def)
next
  case (7 v w h')
  then show ?case using checkpoint_ready_step by blast
next
  case (8 v w h' ver v' w')
  then show ?case
    using installed_writable [of E lg v w h' ver v' A w'] checkpoint_ready_step [of E lg through obj ck v w h']
    by (simp add: checkpoint_ready_def)
next
  case (4 v w w')
  then show ?case using writable_rely [of E lg v w A w'] by (simp add: checkpoint_ready_def)
next
  case (6 v w u)
  then show ?case
    using writable_observed [of E w lg u A w] by (simp add: checkpoint_ready_def writable_def)
next
  case (9 v w u w')
  then show ?case
    using writable_observed [of E w lg u A w'] writable_ok [of E lg v w] by (simp add: checkpoint_ready_def)
next
  case (10 v w u w')
  then show ?case
    using writable_observed [of E w lg u A w'] writable_ok [of E lg v w] by (simp add: checkpoint_ready_def)
qed (simp_all add: checkpoint_ready_def writable_def shown_def)

lemma subtree_objects_positive: "subtree_objects children = Inr n \<Longrightarrow> 0 < n"
proof -
  have "0 < k \<Longrightarrow> try_fold (\<lambda>total child. and_then (validate_count child) (\<lambda>_.
      ok_or (checked_add total (or_subtree_objects child)) (LimitExceeded ''subtree objects''))) k children = Inr n \<Longrightarrow> 0 < n"
    for k
  proof (induction children arbitrary: k)
    case (Cons c cs)
    then obtain k' where "checked_add k (or_subtree_objects c) = Some k'"
        "0 < k' \<Longrightarrow> 0 < n"
      by (auto simp: and_then_Inr ok_or_Inr)
    with Cons.prems(1) show ?case by (simp add: checked_simps word_less_nat_alt)
  qed simp
  from this [of 1] show "subtree_objects children = Inr n \<Longrightarrow> 0 < n" by (simp add: subtree_objects_def)
qed

lemma yields_create_fresh:
  "yields (\<lambda>obj. or_kind obj = kind \<and> or_subtree_objects obj = subtree) (create_fresh_object_with E lg kind bs subtree blocked)"
proof -
  have "(\<And>sid. Q (obj sid)) \<Longrightarrow> yields Q (create_fresh_from E lg blocked obj bs n)" for Q and obj :: "storage_id \<Rightarrow> object_ref" and n
    by (induction n) (auto intro: yields_try_any)
  then show ?thesis
    unfolding create_fresh_object_with_def by (intro safely_attemptI) simp
qed

lemma checkpoint_published_post:
  assumes "updated_post E lg ck (Inr published) w" "names_checkpoint ck through obj" "or_kind obj = Checkpoint"
    and "pk_checkpoint pending = ck"
  shows "wp E A (head_path lg) (checkpoint_status_post E lg through) (case published of
      HeadUpdated u \<Rightarrow>
        await (if b u then remember_tail lg u else Done ()) (\<lambda>_. succeed (CheckpointPublished u))
    | HeadChanged cur g \<Rightarrow>
        attempt (classify_checkpoint pending cur g) (\<lambda>evidence.
        succeed (case evidence of
            EvidencePublished view \<Rightarrow> CheckpointPublished view
          | EvidenceNotPublished view \<Rightarrow> CheckpointConflict view
          | EvidenceExpired _ \<Rightarrow> CheckpointPending pending))
    | HeadContended cur \<Rightarrow> succeed (CheckpointConflict cur)
    | HeadPending \<Rightarrow> succeed (CheckpointPending pending)) w"
proof (cases published)
  case (HeadUpdated u)
  then have "writable E lg u w" "covers through (v_head u)"
    using assms by (auto simp: names_checkpoint_def)
  then show ?thesis
    unfolding HeadUpdated head_publication.case by (intro wp_await_stable [OF writable_stable]) auto
next
  case (HeadChanged cur g)
  then show ?thesis
    using assms writable_ok
    by (auto simp: wp_attempt classify_checkpoint_def names_checkpoint_def and_then_Inr split: sum.splits if_splits)
qed (use assms writable_ok in auto)

context cbor
begin

lemma wp_publish_fresh:
  assumes v: "writable E lg v w" and obj: "or_kind obj = Checkpoint" "0 < or_subtree_objects obj"
    and pending: "pk_checkpoint pending =
      \<lparr>cp_through_sequence = cr_sequence through, cp_through_commit = cr_digest through, cp_object = obj\<rparr>" (is "_ = ?ck")
  shows "wp E A (head_path lg) (checkpoint_status_post E lg through)
    (await_try (publish_checkpoint_head E lg v (\<lambda>h. checkpoint_head h through obj)) (\<lambda>published.
      case published of
        HeadUpdated u \<Rightarrow> await (if b u then remember_tail lg u else Done ()) (\<lambda>_. succeed (CheckpointPublished u))
      | HeadChanged cur g \<Rightarrow>
          attempt (classify_checkpoint pending cur g) (\<lambda>evidence.
          succeed (case evidence of
              EvidencePublished view \<Rightarrow> CheckpointPublished view
            | EvidenceNotPublished view \<Rightarrow> CheckpointConflict view
            | EvidenceExpired _ \<Rightarrow> CheckpointPending pending))
      | HeadContended cur \<Rightarrow> succeed (CheckpointConflict cur)
      | HeadPending \<Rightarrow> succeed (CheckpointPending pending))) w"
proof -
  have names: "names_checkpoint ?ck through obj" by (simp add: names_checkpoint_def)
  have "checkpoint_ready E lg through obj ?ck v w"
    using v obj names by (simp add: checkpoint_ready_def checkpoint_ref_ok_def object_ref_ok_def validate_count_def)
  from checkpoint_writes.wp_publish_from [OF this] show ?thesis
    unfolding wp_await_try publish_checkpoint_head_def publish_head_compatible_def
    by (rule wp_mono) (use checkpoint_published_post [OF _ names obj(1) pending] in \<open>auto split: sum.splits\<close>)
qed

lemma wp_publish_checkpoint_status:
  assumes ok: "world_ok E w" and v: "shown v w"
  shows "wp E A (head_path lg) (checkpoint_status_post E lg through) (publish_checkpoint E lg v through snapshot objects) w"
  unfolding publish_checkpoint_def Let_def
proof (rule wp_attemptI, use ok in simp, goal_cases)
  case (1 u)
  then have v: "writable E lg v w"
    by (intro validated_writable [OF ok v]) (simp add: validate_staged_objects_def and_then_Inr)
  note stable = wp_try_stable [OF writable_stable]
  show ?case
  proof (rule wp_attemptI, use ok in simp, rule stable [OF v], goal_cases)
    case (3 subtree _ w1)
    from 3(1) have subtree: "0 < subtree"
      by (auto simp: publication_objects_def and_then_Inr dest: subtree_objects_positive)
    show ?case
    proof (rule wp_attemptI, use 3 writable_ok in simp, rule stable [OF 3(2)], goal_cases)
      case (3 _ blocked w2)
      let ?bs = "encode_checkpoint E \<lparr>ck_log_id = ss_log_id (lg_store lg), ck_incarnation = lg_incarnation lg,
        ck_through_sequence = cr_sequence through, ck_through_commit = cr_digest through,
        ck_snapshot = snapshot, ck_objects = map st_object objects\<rparr>"
      have create: "safely (\<lambda>e. effect_path e \<noteq> head_path lg)
          (ok_and (\<lambda>obj. or_kind obj = Checkpoint \<and> or_subtree_objects obj = subtree))
          (create_fresh_object_with E lg Checkpoint ?bs subtree blocked)"
        by (rule does_ends [OF does_create_fresh yields_create_fresh]) simp
      show ?case
        unfolding wp_await_try [of _ _ _ _ "create_fresh_object_with E lg Checkpoint ?bs subtree blocked"]
      proof (rule wp_ends [OF create], goal_cases)
        case (1 r w3)
        have v3: "writable E lg v w3" by (rule writable_rely [OF 3(2) 1(1)])
        show ?case
        proof (cases r)
          case (Inr obj)
          then show ?thesis
            unfolding Inr sum.case using 1(2) [unfolded Inr] subtree by (intro wp_publish_fresh [OF v3]) simp_all
        qed (use writable_ok [OF v3] in simp)
      qed
    qed (use writable_ok in simp_all)
  qed (use writable_ok in simp_all)
qed

end

end
