(* ===== verification/Recovery_Safety.thy ===== *)
theory Recovery_Safety
  imports Maintain_Safety
begin

text \<open>
  Recovery across processes: the recovery token of a pending commit identifies the candidate and the
  version it was prepared on, so that a process that holds only the token settles the commit as
  truthfully as the one that issued it.
\<close>


section \<open>From a pending commit to its recovery token\<close>

lemma wp_conj_ends:
  assumes "wp E A hp Q p w" "ends R p"
  shows "wp E A hp (\<lambda>r w'. Q r w' \<and> R r) p w"
  using assms
proof (induction p arbitrary: w)
  case (Put p bs mode k)
  then show ?case by (auto split: if_splits)
qed auto

definition pending_of :: "externals \<Rightarrow> log \<Rightarrow> prepared_commit \<Rightarrow> commit_status \<Rightarrow> bool" where
  "pending_of E lg p status \<longleftrightarrow> (\<forall>pd. status = Pending pd \<longrightarrow>
    validate_prepared E lg p = Inr () \<and> (\<exists>d. pd_prepared pd = Some (p\<lparr>pc_staging_domain := d\<rparr>)))"

lemma pending_of_cases [simp]:
  "pending_of E lg p (Committed v)" "pending_of E lg p (Conflict v)"
  "pending_of E lg p (Pending pd) \<longleftrightarrow>
    validate_prepared E lg p = Inr () \<and> (\<exists>d. pd_prepared pd = Some (p\<lparr>pc_staging_domain := d\<rparr>))"
  by (auto simp: pending_of_def)

lemma yields_commit_pending: "yields (pending_of E lg p) (commit E lg p)"
  unfolding commit_def Let_def
proof (intro safely_attemptI, goal_cases)
  case (1 x cb)
  then have "pending_of E lg p (Pending \<lparr>pd_prepared = Some (p\<lparr>pc_staging_domain := d\<rparr>), pd_commit_ref = c, pd_token = None\<rparr>)"
    for d c by auto
  then show ?case
    by (auto intro!: yields_try_any safely_await_any safely_attemptI simp del: pending_of_cases(3)
        split: prod.splits head_publication.splits resolution.splits)
qed

lemma encode_recovery_token_domain [simp]:
  "encode_recovery_token E (p\<lparr>pc_staging_domain := d\<rparr>) = encode_recovery_token E p"
  by (simp add: encode_recovery_token_def)

text \<open>The token of a validated candidate on a durable head is one that decoding accepts.\<close>

definition token_of :: "prepared_commit \<Rightarrow> digest \<Rightarrow> digest \<Rightarrow> digest \<Rightarrow> recovery_token" where
  "token_of p head_digest base_digest opts_digest =
    (let h = v_head (pc_view p) in
     \<lparr>rt_head_digest = head_digest, rt_publication_base_digest = base_digest,
      rt_version = v_version (pc_view p), rt_generation = generation h, rt_next_sequence = next_sequence h,
      rt_tip = tip h, rt_log_id = log_id h, rt_incarnation = incarnation h, rt_options_digest = opts_digest,
      rt_transaction_id = pc_transaction_id p, rt_operation = pc_operation p, rt_result = pc_result p,
      rt_objects = pc_objects p, rt_storage_id = pc_storage_id p\<rparr>)"

lemma encode_recovery_token_Inr:
  assumes "encode_recovery_token E p = Inr token"
  obtains a b d where "token = token_encode E (token_of p a b d)"
    "publication_base_digest E (v_head (pc_view p)) = Inr b"
  using assms by (auto simp: encode_recovery_token_def token_of_def Let_def and_then_Inr)

lemma subtree_objects_ok: "subtree_objects objects = Inr n \<Longrightarrow> list_all object_ref_ok objects"
proof -
  have "try_fold (\<lambda>total child. and_then (validate_count child) (\<lambda>_.
      ok_or (checked_add total (or_subtree_objects child)) (LimitExceeded ''subtree objects''))) k objects = Inr n
      \<Longrightarrow> list_all object_ref_ok objects" for k
    by (induction objects arbitrary: k) (auto simp: and_then_Inr object_ref_ok_def)
  then show "subtree_objects objects = Inr n \<Longrightarrow> list_all object_ref_ok objects"
    by (simp add: subtree_objects_def)
qed

lemma head_ok_tip: "head_ok m h \<Longrightarrow> tip h \<noteq> None \<longleftrightarrow> 0 < next_sequence h"
  by (auto simp: head_ok_def tip_def base_start_def last_opt_def word_less_nat_alt split: option.splits if_splits)

lemma token_of_ok:
  assumes "durable E (v_head (pc_view p))" "validate_prepared E lg p = Inr ()"
  shows "token_ok (token_of p a b d)"
proof -
  have "list_all object_ref_ok (pc_objects p)"
    using assms(2) subtree_objects_ok
    by (auto simp: validate_prepared_def validate_dependencies_def publication_objects_def and_then_Inr)
  then show ?thesis
    using assms(1) durable_ok [OF assms(1)] head_ok_tip [OF durable_ok [OF assms(1)]]
    by (simp add: token_ok_def token_of_def Let_def durable_def head_fields_ok_def head_ok_def)
qed

lemma recovered_commit_ref_token:
  assumes "recovered_commit_ref E lg' (token_of p a b d) = Inr c'" "encode_prepared E lg p = Inr (c, bs)"
    and "validate_prepared E lg p = Inr ()"
  shows "c' = c"
  using assms
  by (auto simp: recovered_commit_ref_def encode_prepared_def token_of_def validate_prepared_def validate_view_def
      Let_def and_then_Inr guard_Inr ok_or_Inr)

lemma recovering_recoverable:
  assumes rec: "recovering E (v_head v) c w" and v: "at_index v m w"
    and rt: "rt_version rt = v_version v" "publication_base_digest E (v_head v) = Inr (rt_publication_base_digest rt)"
  shows "recoverable E rt c w"
proof -
  obtain n where ok: "world_ok E w" and n: "flights_below (appends c) n w"
      "has_same_publication_base (v_head v) (fst (w_heads w ! n))"
    using rec by (auto simp: recovering_def)
  have "publication_base_digest E (fst (w_heads w ! max m n)) = Inr (rt_publication_base_digest rt)"
    using v rt(2) same_base_digest [OF n(2), of E] by (simp add: at_index_def max_def)
  moreover have "flights_below (appends c) (max m n) w"
    using v flights_below_length [OF n(1)] by (intro flights_below_mono [OF n(1)]) (simp_all add: at_index_def)
  ultimately show ?thesis
    unfolding recoverable_def using ok v rt
    by (intro conjI exI [of _ m] exI [of _ "max m n"]) (simp_all add: at_index_def)
qed

text \<open>What a commit and its recovery in another process settle together.\<close>

definition settle :: "externals \<Rightarrow> log \<Rightarrow> log \<Rightarrow> prepared_commit \<Rightarrow> resolution action" where
  "settle E lg lg' p =
    await_try (commit E lg p) (\<lambda>status.
    case status of
      Committed v \<Rightarrow> succeed (ResolvedCommitted v)
    | Conflict v \<Rightarrow> succeed (NotCommitted v)
    | Pending pending \<Rightarrow> attempt (pending_recovery_token E pending) (resume E lg'))"

context cbor
begin

lemma wp_resume_pending:
  assumes rec: "recovering E (v_head (pc_view p)) c w" and view: "at_index (pc_view p) n w"
    and c: "encode_prepared E lg p = Inr (c, bs)" and p: "validate_prepared E lg p = Inr ()"
    and token: "encode_recovery_token E p = Inr token" "fits token"
  shows "wp E (avoids (appends c)) (head_path lg') (resolve_post E (world_ok E) c) (resume E lg' token) w"
proof (cases "\<exists>rt c'. decode_recovery_token E token = Inr rt \<and> recovered_commit_ref E lg' rt = Inr c'")
  case False
  have "world_ok E w" using rec by (simp add: recovering_def)
  with False show ?thesis
    by (cases "decode_recovery_token E token") (auto simp: resume_def wp_attempt split: sum.splits)
next
  case True
  then obtain rt c' where rt: "decode_recovery_token E token = Inr rt" "recovered_commit_ref E lg' rt = Inr c'"
    by blast
  obtain a b d where t: "token = token_encode E (token_of p a b d)"
      "publication_base_digest E (v_head (pc_view p)) = Inr b"
    using token(1) by (rule encode_recovery_token_Inr)
  have "durable E (v_head (pc_view p))"
    using rec member_durable [OF _ at_index_member [OF view]] by (simp add: recovering_def)
  then have "decode_recovery_token E token = Inr (token_of p a b d)"
    using token(2) t(1) token_of_ok [OF _ p] by (simp add: decode_token_iff)
  with rt have rt': "rt = token_of p a b d" by simp
  have "c' = c" using recovered_commit_ref_token [OF _ c p] rt(2) rt' by blast
  moreover have "recoverable E rt c w"
    using rec view by (rule recovering_recoverable) (simp_all add: rt' token_of_def t(2) Let_def)
  ultimately show ?thesis
    using rt by (intro wp_mono [OF wp_resume]) (auto elim: resolve_post_mono simp: recoverable_def)
qed

lemma wp_settle:
  assumes ok: "world_ok E w" and view: "at_index (pc_view p) n w"
    and c: "encode_prepared E lg p = Inr (c, bs)" and open_updates: "flights_below (appends c) n w"
    and token: "\<And>token. encode_recovery_token E p = Inr token \<Longrightarrow> fits token"
    and same: "head_path lg' = head_path lg"
  shows "wp E (avoids (appends c)) (head_path lg) (resolve_post E (world_ok E) c) (settle E lg lg' p) w"
  unfolding settle_def wp_await_try
proof (rule wp_mono [OF wp_keeps [OF wp_conj_ends [OF wp_commit [OF ok view c open_updates] yields_commit_pending]
    prefix_order.refl]], goal_cases)
  case (1 r w')
  then have post: "commit_post E (v_head (pc_view p)) c r w'" and pending: "ok_and (pending_of E lg p) r"
    and grows: "prefix (w_heads w) (w_heads w')" by simp_all
  show ?case
  proof (cases r)
    case (Inl e)
    with post show ?thesis by (simp add: recovering_def)
  next
    case (Inr status)
    show ?thesis
    proof (cases status)
      case (Pending pd)
      obtain d where d: "pd_prepared pd = Some (p\<lparr>pc_staging_domain := d\<rparr>)"
        and p: "validate_prepared E lg p = Inr ()"
        using pending Inr Pending by auto
      have rec: "recovering E (v_head (pc_view p)) c w'" using post Inr Pending by simp
      have view': "at_index (pc_view p) n w'"
        using view prefix_nth [OF grows] prefix_length_le [OF grows] by (simp add: at_index_def)
      have "wp E (avoids (appends c)) (head_path lg) (resolve_post E (world_ok E) c)
          (attempt (encode_recovery_token E p) (resume E lg')) w'"
      proof (rule wp_attemptI, goal_cases)
        case (2 tok)
        from wp_resume_pending [OF rec view' c p 2 token [OF 2], of lg'] show ?case by (simp only: same)
      qed (use rec in \<open>simp add: recovering_def\<close>)
      then show ?thesis using Inr Pending d by (simp add: pending_recovery_token_def)
    qed (use post Inr in simp_all)
  qed
qed

end

end
