(* ===== verification/Samples.thy ===== *)
theory Samples
  imports Log_Core Format_Properties
begin

text \<open>Concrete handles and views, on which the properties are instantiated.\<close>

definition sample_version :: update_version where
  "sample_version = \<lparr>e_tag = Some ''1'', version = None\<rparr>"

definition sample_log :: log where
  "sample_log = \<lparr>lg_store = \<lparr>ss_scope = [''v1'', ''logs'', ''log''], ss_log_id = ''log'', ss_guards = []\<rparr>,
     lg_options = default_options, lg_incarnation = 7, lg_staging_domain = 1\<rparr>"

definition sample_view :: view where
  "sample_view = \<lparr>v_observed = 0, v_head = sample_head, v_version = sample_version\<rparr>"

end
