(* ===== verification/Protocol_Properties.thy ===== *)
theory Protocol_Properties
  imports Recovery_Safety Samples
begin

text \<open>
  The properties of the publication protocol. Each one holds from every well-formed world, for every
  answer of the store (errors, lost acknowledgements and delayed writes included) and every
  interleaving with the head updates of other clients; each \<open>wp\<close> statement also says that every
  head write the operation issues is legal.
\<close>


section \<open>A sample world\<close>

definition sample_world :: world where
  "sample_world = \<lparr>w_heads = [(sample_head, sample_version)], w_flight = []\<rparr>"

definition sample_prepared :: prepared_commit where
  "sample_prepared = \<lparr>pc_view = sample_view, pc_staging_domain = 1, pc_transaction_id = 5, pc_storage_id = 4,
     pc_operation = [1, 2], pc_result = [], pc_objects = []\<rparr>"

definition sample_commit_ref :: commit_ref where
  "sample_commit_ref = \<lparr>cr_sequence = 0, cr_transaction_id = 5, cr_storage_id = 4,
     cr_digest = Digest_of sample_codec (encode_commit sample_codec sample_commit),
     cr_len = of_nat (length (encode_commit sample_codec sample_commit))\<rparr>"

definition sample_checkpoint_ref :: checkpoint_ref where
  "sample_checkpoint_ref = \<lparr>cp_through_sequence = 0, cp_through_commit = 9,
     cp_object = \<lparr>or_kind = Checkpoint, or_storage_id = 1, or_digest = 2, or_len = 3, or_subtree_objects = 1\<rparr>\<rparr>"

definition sample_pending_checkpoint :: pending_checkpoint where
  "sample_pending_checkpoint = \<lparr>pk_view = sample_view, pk_staging_domain = 1, pk_through = sample_commit_ref,
     pk_checkpoint = sample_checkpoint_ref\<rparr>"

lemma sample_head_durable: "durable sample_codec sample_head"
  using sample_head_encodes default_options_fit
  by (simp add: durable_def head_fields_ok_def sample_head_def head_empty_def sample_log_id_ok sample_codec_def)

lemma sample_world_ok: "world_ok sample_codec sample_world"
  using sample_head_durable by (auto simp: world_ok_def sample_world_def sample_head_def)

lemma sample_position: "at_index sample_view 0 sample_world" "shown sample_view sample_world"
  by (simp_all add: at_index_def shown_def sample_world_def sample_view_def)

lemma sample_flights: "flights_below T 0 sample_world"
  by (simp add: flights_below_def sample_world_def)

lemma sample_encode_prepared:
  "encode_prepared sample_codec sample_log sample_prepared
    = Inr (sample_commit_ref, encode_commit sample_codec sample_commit)"
proof -
  let ?p = "put_commit_wire sample_codec (commit_to_wire sample_commit)"
  have "length ?p \<le> 9 + 16 * (9 + 300)"
    unfolding sample_codec_def put_commit_wire_def rfc8949_simps
    by (rule order_trans [OF length_rfc_struct_le [of _ 300]])
      (auto simp: commit_to_wire_def sample_commit_def length_le_simps)
  from length_rfc_envelope_le [OF this, of 18446744073709551615 "\<lambda>_. 0"]
  have "length (encode_commit sample_codec sample_commit) \<le> 9951"
    by (simp add: encode_commit_def sample_codec_def)
  then have "length (encode_commit sample_codec sample_commit) \<le> 1048576"
    "u64_try_from (length (encode_commit sample_codec sample_commit))
      = Some (of_nat (length (encode_commit sample_codec sample_commit)))"
    by (simp_all add: u64_try_from_def)
  then show ?thesis
    by (simp add: encode_prepared_def sample_log_def sample_prepared_def sample_view_def sample_head_def
        head_empty_def tip_def last_opt_def sample_commit_ref_def default_options_def sample_commit_def guard_def Let_def)
qed


section \<open>Commits\<close>

text \<open>
  C1. A commit reports the truth. Let \<open>p\<close> be prepared on a view of a version the head once had, and
  let no other client publish the reference \<open>c\<close> of its candidate (the reference carries a fresh storage
  id). Then, whatever the store answers and the other clients do, \<open>commit\<close> returns \<open>Committed\<close> only when
  \<open>c\<close> is in the published log, and \<open>Conflict\<close> only when \<open>c\<close> is not and never can be in it: no delayed
  write of any attempt can still publish it. A \<open>Pending\<close> outcome carries the evidence recovery relies on.
\<close>

theorem commit_reports_truth:
  assumes "cbor E" "world_ok E w" "at_index (pc_view p) n w"
    and "encode_prepared E lg p = Inr (c, bs)" "flights_below (appends c) n w"
  shows "wp E (avoids (appends c)) (head_path lg) (commit_post E (v_head (pc_view p)) c) (commit E lg p) w"
  using assms by (rule cbor.wp_commit)

theorem commit_reports_truth_witness:
  "wp sample_codec (avoids (appends sample_commit_ref)) (head_path sample_log)
    (commit_post sample_codec sample_head sample_commit_ref)
    (commit sample_codec sample_log sample_prepared) sample_world"
  using commit_reports_truth [OF sample_codec_cbor sample_world_ok _ sample_encode_prepared sample_flights]
    sample_position by (simp add: sample_prepared_def sample_view_def)

text \<open>
  C5. Resolving an uncertain commit reports the truth. In any world in which the open updates of the
  candidate name versions with its publication base (what \<open>commit\<close> leaves behind when it returns
  \<open>Pending\<close>), \<open>resolve\<close> returns \<open>Committed\<close> only when the commit is in the published log and \<open>NotCommitted\<close>
  only when it never can be; otherwise the evidence is kept for another attempt.
\<close>

theorem resolve_reports_truth:
  assumes "cbor E" "recovering E (v_head (pc_view p)) c w"
    and "pd_prepared pending = Some p" "pd_commit_ref pending = c"
  shows "wp E (avoids (appends c)) (head_path lg) (resolve_post E (recovering E (v_head (pc_view p)) c) c)
    (resolve E lg pending) w"
  using cbor.wp_resolve_prepared [OF assms] assms(3) by (simp add: resolve_def)

theorem resolve_reports_truth_witness:
  "wp sample_codec (avoids (appends sample_commit_ref)) (head_path sample_log)
    (resolve_post sample_codec (recovering sample_codec sample_head sample_commit_ref) sample_commit_ref)
    (resolve sample_codec sample_log
      \<lparr>pd_prepared = Some sample_prepared, pd_commit_ref = sample_commit_ref, pd_token = None\<rparr>) sample_world"
proof -
  have "recovering sample_codec sample_head sample_commit_ref sample_world"
    unfolding recovering_def using sample_world_ok sample_flights
    by (intro conjI exI [of _ 0]) (simp_all add: sample_world_def)
  then show ?thesis
    using resolve_reports_truth [OF sample_codec_cbor, of sample_prepared sample_commit_ref sample_world
        "\<lparr>pd_prepared = Some sample_prepared, pd_commit_ref = sample_commit_ref, pd_token = None\<rparr>" sample_log]
    by (simp add: sample_prepared_def sample_view_def)
qed

text \<open>
  C2. Commit and recovery compose across processes. A process commits on the handle \<open>lg\<close>; when the
  outcome is \<open>Pending\<close> it hands the encoded recovery token to a process that resumes on its own handle \<open>lg'\<close> of the
  same head object. Together they report \<open>Committed\<close> only when the candidate is in the published log and
  \<open>NotCommitted\<close> only when it never can be, even though updates of the first process may still be in
  flight while the second one runs.
\<close>

theorem recovery_settles_commit:
  assumes "cbor E" "world_ok E w" "at_index (pc_view p) n w"
    and "encode_prepared E lg p = Inr (c, bs)" "flights_below (appends c) n w"
    and "\<And>token. encode_recovery_token E p = Inr token \<Longrightarrow> fits token" "head_path lg' = head_path lg"
  shows "wp E (avoids (appends c)) (head_path lg) (resolve_post E (world_ok E) c) (settle E lg lg' p) w"
  using assms by (rule cbor.wp_settle)

lemma sample_token_encodes: "encode_recovery_token sample_codec sample_prepared = Inr token \<Longrightarrow> fits token"
proof -
  assume "encode_recovery_token sample_codec sample_prepared = Inr token"
  then obtain a b d where "token = token_encode sample_codec (token_of sample_prepared a b d)"
    by (rule encode_recovery_token_Inr)
  then show "fits token"
    unfolding token_encode_def sample_codec_def put_token_wire_def rfc8949_simps
    by (simp only:, intro small_struct_fits)
      (simp_all add: token_to_wire_def token_of_def sample_prepared_def sample_view_def sample_head_def
        head_empty_def sample_version_def tip_def last_opt_def Let_def length_le_simps)
qed

theorem recovery_settles_commit_witness:
  "wp sample_codec (avoids (appends sample_commit_ref)) (head_path sample_log)
    (resolve_post sample_codec (world_ok sample_codec) sample_commit_ref)
    (settle sample_codec sample_log (sample_log\<lparr>lg_staging_domain := 2\<rparr>) sample_prepared) sample_world"
  using recovery_settles_commit [OF sample_codec_cbor sample_world_ok _ sample_encode_prepared sample_flights
      sample_token_encodes, of "sample_log\<lparr>lg_staging_domain := 2\<rparr>"] sample_position
  by (simp add: sample_prepared_def)


section \<open>Checkpoints\<close>

text \<open>
  C7. Resolving an uncertain checkpoint reports the truth: in any world in which the open updates that
  publish its reference name versions that are appends of its source head, \<open>resolve_checkpoint\<close> returns
  \<open>Published\<close> only when some head of the history carried that very checkpoint, and \<open>NotPublished\<close> only
  when no head did and no open update can still publish it.
\<close>

theorem resolve_checkpoint_reports_truth:
  assumes "cbor E" "checkpoint_open E (v_head (pk_view pending)) ck w"
    and "pk_checkpoint pending = ck" "checkpoint_ref_ok ck"
  shows "wp E (avoids (publishes ck)) (head_path lg)
    (checkpoint_resolution_post E (v_head (pk_view pending)) ck) (resolve_checkpoint E lg pending) w"
  using assms by (rule cbor.wp_resolve_checkpoint)

theorem resolve_checkpoint_reports_truth_witness:
  "wp sample_codec (avoids (publishes sample_checkpoint_ref)) (head_path sample_log)
    (checkpoint_resolution_post sample_codec sample_head sample_checkpoint_ref)
    (resolve_checkpoint sample_codec sample_log sample_pending_checkpoint) sample_world"
proof -
  have "checkpoint_open sample_codec sample_head sample_checkpoint_ref sample_world"
    unfolding checkpoint_open_def using sample_world_ok sample_flights
    by (intro conjI exI [of _ 0])
      (simp_all add: absent_upto_def sample_world_def sample_head_def head_empty_def)
  moreover have "checkpoint_ref_ok sample_checkpoint_ref"
    by (simp add: checkpoint_ref_ok_def object_ref_ok_def validate_count_def sample_checkpoint_ref_def)
  ultimately show ?thesis
    using resolve_checkpoint_reports_truth [OF sample_codec_cbor, of sample_pending_checkpoint
        sample_checkpoint_ref sample_world sample_log]
    by (simp add: sample_pending_checkpoint_def sample_view_def)
qed

text \<open>
  C13. Publishing a checkpoint is safe whatever the other clients do: every head write is a legal
  compaction of a version that was current, and \<open>Published v\<close> is returned only when \<open>v\<close> is a version of
  the head whose checkpoint covers the log through exactly the requested commit.
\<close>

theorem publish_checkpoint_covers:
  assumes "cbor E" "world_ok E w" "shown v w"
  shows "wp E A (head_path lg) (checkpoint_status_post E lg through)
    (publish_checkpoint E lg v through snapshot objects) w"
  using assms by (rule cbor.wp_publish_checkpoint_status)

theorem publish_checkpoint_covers_witness:
  "wp sample_codec (\<lambda>_ _. True) (head_path sample_log)
    (checkpoint_status_post sample_codec sample_log sample_commit_ref)
    (publish_checkpoint sample_codec sample_log sample_view sample_commit_ref [1] []) sample_world"
  using sample_codec_cbor sample_world_ok sample_position(2) by (rule publish_checkpoint_covers)


section \<open>Retentions and collections\<close>

text \<open>
  C12. A retention change reports the truth: \<open>Applied v\<close> is returned only when \<open>v\<close> is a version of the head in
  which the change holds and, for an acquisition, in the collection epoch of the source view, so
  that no collection started between the view and the retention; \<open>ActiveCollection v\<close> only when \<open>v\<close> is a
  version with an active plan. Every head write on the way is legal.
\<close>

theorem retention_reports_truth:
  assumes "cbor E" "world_ok E w" "shown v w"
  shows "wp E A (head_path lg) (retention_post E lg change (v_head v)) (change_retention E lg v change) w"
  using assms by (rule cbor.wp_change_retention)

theorem retention_reports_truth_witness:
  "wp sample_codec (\<lambda>_ _. True) (head_path sample_log) (retention_post sample_codec sample_log (Acquire 3) sample_head)
    (change_retention sample_codec sample_log sample_view (Acquire 3)) sample_world"
  using retention_reports_truth [OF sample_codec_cbor sample_world_ok sample_position(2)]
  by (simp add: sample_view_def)

text \<open>
  C14. A collection is fenced by the head from its start to its end. Every head write of \<open>start_collection_with_limit\<close>
  installs a plan on a version without plan and without retentions, \<open>Installed v\<close> and \<open>Active v\<close> are
  returned only with a version \<open>v\<close> whose head names a plan, and \<open>Retained v\<close> only with one that
  holds retentions. Every head write of \<open>resume_collection\<close> clears the plan of a version that has one, and
  \<open>Complete v\<close> is returned only with a version \<open>v\<close> of the head without an active plan.
\<close>

theorem collection_fenced:
  assumes "cbor E" "world_ok E w" "shown v w"
  shows "wp E A (head_path lg) (start_post E lg) (start_collection_with_limit E lg v max_candidates) w
    \<and> wp E A (head_path lg) (finish_post E lg) (resume_collection E lg v) w"
  using cbor.wp_start_collection [OF assms] cbor.wp_resume_collection [OF assms] by blast

theorem collection_fenced_witness:
  "wp sample_codec (\<lambda>_ _. True) (head_path sample_log) (start_post sample_codec sample_log)
      (start_collection_with_limit sample_codec sample_log sample_view 10) sample_world
    \<and> wp sample_codec (\<lambda>_ _. True) (head_path sample_log) (finish_post sample_codec sample_log)
      (resume_collection sample_codec sample_log sample_view) sample_world"
  using sample_codec_cbor sample_world_ok sample_position(2) by (rule collection_fenced)


section \<open>Evidence\<close>

text \<open>
  Classification is sound: when the head of a view stands for the log \<open>L\<close>, \<open>classify_resolution\<close>
  answers \<open>Committed\<close> only for commits of \<open>L\<close>, \<open>NotCommitted\<close> only for references that are not in \<open>L\<close>, and
  says \<open>Expired\<close> exactly when the outcome window has moved past the sequence of the reference.
\<close>

lemma classification_sound:
  assumes "represents (v_head cur) L" "classify_resolution c cur = Inr r"
  shows "(r = ResolvedCommitted cur \<and> c \<in> set L) \<or> (r = NotCommitted cur \<and> c \<notin> set L)
    \<or> (r = Expired cur \<and> cr_sequence c < next_sequence (v_head cur)
        \<and> (\<forall>e\<in>set (tail (v_head cur) @ recent_outcomes (v_head cur)). cr_sequence e \<noteq> cr_sequence c))"
  using classify_cases [OF assms] assms(2)
  by (auto simp: classify_resolution_def Let_def list_ex_iff split: if_splits)

end
