(* ===== verification/Client_Effects.thy ===== *)
theory Client_Effects
  imports Effects
begin

text \<open>
  Every public operation of a log changes the store only in three ways: it creates an immutable
  object (never overwriting one), it conditionally updates the head, or it deletes immutable objects of
  its own log.
\<close>

fun client_effect :: "externals \<Rightarrow> log \<Rightarrow> effect \<Rightarrow> bool" where
  "client_effect E lg (Stores p bs mode) \<longleftrightarrow>
    (mode = Create \<and> (\<exists>key. p = immutable_location E (lg_store lg) key))
    \<or> (p = head_path lg \<and> (\<exists>v. mode = Update v))"
| "client_effect E lg (Removes p) \<longleftrightarrow> (\<exists>key. p = immutable_location E (lg_store lg) key)"

lemma client_keys [simp]:
  "\<exists>key'. location E s (object_key lg obj) = immutable_location E s key'"
  "\<exists>key'. location E s (commit_key lg c) = immutable_location E s key'"
  "\<exists>key'. immutable_location E s key = immutable_location E s key'"
  by (auto simp: object_key_def commit_key_def)

lemma client_update_head [simp]: "does (client_effect E lg) (update_head E lg v h)"
  by (rule does_update_head) simp

lemma client_publish_from [simp]: "does (client_effect E lg) (publish_from E lg candidate compatible further v)"
proof (induction further arbitrary: v rule: less_induct)
  case (less further)
  then show ?case
    by (subst publish_from.simps) (auto split: sum.splits option.splits error.splits nat.splits)
qed

lemma client_publish_head [simp]:
  "does (client_effect E lg) (publish_head E lg v candidate)"
  "does (client_effect E lg) (publish_checkpoint_head E lg v candidate)"
  by (simp_all add: publish_head_def publish_checkpoint_head_def publish_head_compatible_def)

lemma client_ensure [simp]: "does (client_effect E lg) (ensure_immutable E lg (commit_key lg c) bs)"
  by (rule does_ensure_immutable) simp

lemma client_create_fresh [simp]:
  "does (client_effect E lg) (create_fresh_object_with E lg kind bs subtree blocked)"
  by (rule does_create_fresh) simp

lemma client_create_plan [simp]: "does (client_effect E lg) (create_collection_plan E lg plan)"
  by (rule does_create_collection_plan) simp

lemma client_cleanup [simp]: "does (client_effect E lg) (cleanup_collection_plan E lg key)"
  by (rule does_cleanup) simp

lemma client_delete_batches [simp]: "does (client_effect E lg) (delete_batches E lg batches report)"
  by (rule does_delete_batches) simp

lemma client_commit: "does (client_effect E lg) (commit E lg prepared)"
  unfolding commit_def
  by (auto simp: Let_def split: prod.splits head_publication.splits resolution.splits)

lemma client_resolve_prepared [simp]: "does (client_effect E lg) (resolve_prepared E lg pending prepared)"
  unfolding resolve_prepared_def
  by (auto simp: Let_def split: prod.splits option.splits sum.splits error.splits head_publication.splits resolution.splits)

lemma client_resume [simp]: "does (client_effect E lg) (resume E lg token)"
  unfolding resume_def
  by (auto simp: Let_def split: prod.splits option.splits resolution.splits)

lemma client_resolve: "does (client_effect E lg) (resolve E lg pending)"
  by (auto simp: resolve_def split: option.splits)

lemma client_publish_checkpoint: "does (client_effect E lg) (publish_checkpoint E lg v through snapshot objects)"
  unfolding publish_checkpoint_def
  by (auto simp: Let_def split: head_publication.splits)

lemma client_resolve_checkpoint: "does (client_effect E lg) (resolve_checkpoint E lg pending)"
  unfolding resolve_checkpoint_def
  by (auto simp: Let_def split: option.splits sum.splits error.splits head_publication.splits checkpoint_evidence.splits)

lemma client_put_object [simp]: "does (client_effect E lg) (put_object E lg v bs)"
  by (simp add: put_object_def)

lemma client_put_node [simp]: "does (client_effect E lg) (put_node E lg v payload children)"
  by (simp add: put_node_def Let_def)

lemma client_change_retention_from [simp]:
  "does (client_effect E lg) (change_retention_from E lg v change further cur)"
proof (induction further arbitrary: cur rule: less_induct)
  case (less further)
  then show ?case
    by (subst change_retention_from.simps)
      (auto simp: Let_def split: sum.splits option.splits error.splits nat.splits)
qed

lemma client_change_retention: "does (client_effect E lg) (change_retention E lg v change)"
  by (auto simp: change_retention_def Let_def split: option.splits)

lemma client_start_collection: "does (client_effect E lg) (start_collection_with_limit E lg v n)"
  unfolding start_collection_with_limit_def install_plan_def
  by (auto simp: Let_def split: prod.splits sum.splits option.splits error.splits)

lemma client_clear_plan [simp]:
  "does (client_effect E lg) (clear_plan_from E lg plan_ref plan_key report further cur)"
proof (induction further arbitrary: cur rule: less_induct)
  case (less further)
  then show ?case
    by (subst clear_plan_from.simps) (auto split: sum.splits option.splits error.splits nat.splits)
qed

lemma client_resume_collection: "does (client_effect E lg) (resume_collection E lg v)"
  unfolding resume_collection_def clear_collection_plan_def
  by (auto simp: Let_def split: option.splits sum.splits)

lemma client_write_loop [simp]: "does (client_effect E (bw_log w)) (write_loop E w data)"
proof (induction E w data rule: write_loop.induct)
  case (1 E w data)
  then show ?case
    by (subst write_loop.simps) (auto simp: Let_def split: sum.splits)
qed

lemma client_writer: "does (client_effect E (bw_log w)) (writer_write E w data)"
    "does (client_effect E (bw_log w)) (writer_finish E w)"
proof -
  show "does (client_effect E (bw_log w)) (writer_write E w data)"
    unfolding writer_write_def Let_def
    using client_write_loop [of E "w\<lparr>bw_failed := True\<rparr>" data]
    by (auto intro!: does_await split: option.splits prod.splits)
  show "does (client_effect E (bw_log w)) (writer_finish E w)"
    unfolding writer_finish_def by (auto split: list.splits)
qed

end
