(* ===== verification/Read_Safety.thy ===== *)
theory Read_Safety
  imports Outcomes
begin

text \<open>
  Verified reads return only authenticated data, whatever the store answers: objects match the
  length and digest of their reference, commits and checkpoints match the reference that names them, the
  tail is the parent chain the head lists, and the graph walk returns a table that is closed under the
  children of every node it holds.
\<close>


section \<open>Objects\<close>

definition authentic :: "externals \<Rightarrow> object_ref \<Rightarrow> bytes \<Rightarrow> bool" where
  "authentic E obj bs \<longleftrightarrow> length bs = unat (or_len obj) \<and> Digest_of E bs = or_digest obj"

lemma verify_object_Inr: "verify_object E obj bs = Inr () \<Longrightarrow> authentic E obj bs"
  by (auto simp: verify_object_def authentic_def and_then_Inr ok_or_Inr checked_simps split: if_splits)

lemma yields_read_optional: "yields (\<lambda>x. \<forall>bs. x = Some bs \<longrightarrow> authentic E obj bs) (read_immutable_optional E lg obj)"
  unfolding read_immutable_optional_def
  by (intro safely_attemptI yields_try_any) (auto intro!: safely_attemptI dest: verify_object_Inr split: option.splits)

lemma yields_read_immutable: "yields (authentic E obj) (read_immutable E lg obj)"
  unfolding read_immutable_def
  by (rule yields_try [OF yields_read_optional]) (auto intro!: safely_attemptI simp: ok_or_Inr)

lemma yields_read_for_view: "yields (authentic E obj) (read_immutable_for_view E lg v obj)"
  unfolding read_immutable_for_view_def
  by (rule yields_try [OF yields_read_optional]) (auto intro!: yields_try_any split: option.splits)

lemma yields_read_object: "yields (authentic E obj) (read_object E lg v obj)"
  unfolding read_object_def by (intro safely_attemptI yields_read_for_view)

definition node_contents :: "externals \<Rightarrow> log \<Rightarrow> object_ref \<Rightarrow> node \<Rightarrow> bool" where
  "node_contents E lg obj n \<longleftrightarrow> (\<exists>bs. authentic E obj bs \<and> decode_node_reference E lg obj bs = Inr n)"

lemma yields_read_node: "yields (node_contents E lg obj) (read_node E lg v obj)"
  unfolding read_node_def
  by (intro safely_attemptI yields_try [OF yields_read_for_view]) (auto simp: node_contents_def)

lemma yields_graph_children:
  "yields (\<lambda>kids. or_kind obj = Node \<longrightarrow> (\<exists>n. node_contents E lg obj n \<and> kids = nd_children n))
    (read_graph_children E lg obj)"
proof (cases "or_kind obj")
  case Node
  then show ?thesis
    unfolding read_graph_children_def Node object_kind.case node_contents_def
    by (intro yields_try [OF yields_read_immutable] safely_attemptI) (simp, blast)
qed (auto simp: read_graph_children_def intro!: yields_try_any)


section \<open>Commits and the tail\<close>

definition commit_contents :: "externals \<Rightarrow> log \<Rightarrow> commit_ref \<Rightarrow> commit_record \<Rightarrow> bool" where
  "commit_contents E lg reference record \<longleftrightarrow> (\<exists>bs c. length bs = unat (cr_len reference)
    \<and> Digest_of E bs = cr_digest reference \<and> decode_commit E bs = Inr c
    \<and> cm_log_id c = ss_log_id (lg_store lg) \<and> cm_incarnation c = lg_incarnation lg
    \<and> cm_transaction_id c = cr_transaction_id reference
    \<and> record = \<lparr>rc_reference = reference, rc_expected_tip = cm_expected_tip c,
        rc_operation = cm_operation c, rc_result = cm_result c, rc_objects = cm_objects c\<rparr>)"

lemma check_commit_Inr: "check_commit E lg reference bs = Inr record \<Longrightarrow> commit_contents E lg reference record"
  unfolding commit_contents_def
  by (rule exI [of _ bs]) (auto simp: check_commit_def and_then_Inr ok_or_Inr guard_Inr checked_simps)

lemma yields_read_commit_optional:
  "yields (\<lambda>x. \<forall>record. x = Some record \<longrightarrow> commit_contents E lg reference record) (read_commit_optional E lg reference)"
  unfolding read_commit_optional_def
  by (intro safely_attemptI safely_await_any)
    (auto intro!: safely_attemptI dest: check_commit_Inr split: option.splits)

lemma yields_read_commit: "yields (commit_contents E lg reference) (read_commit E lg reference)"
  unfolding read_commit_def
  by (rule yields_try [OF yields_read_commit_optional]) (auto intro!: safely_attemptI simp: ok_or_Inr)

text \<open>\<open>chained\<close>: the records are the contents of the references and each names its parent.\<close>

fun chained :: "externals \<Rightarrow> log \<Rightarrow> digest option \<Rightarrow> commit_ref list \<Rightarrow> commit_record list \<Rightarrow> bool" where
  "chained E lg parent [] records = (records = [])"
| "chained E lg parent (reference # references) records =
    (\<exists>record rest. records = record # rest \<and> commit_contents E lg reference record
      \<and> rc_expected_tip record = parent \<and> chained E lg (Some (cr_digest reference)) references rest)"

lemma commit_contents_reference: "commit_contents E lg reference record \<Longrightarrow> rc_reference record = reference"
  by (auto simp: commit_contents_def)

fun fold_records :: "('s \<Rightarrow> commit_record \<Rightarrow> 's result) \<Rightarrow> 's \<Rightarrow> commit_record list \<Rightarrow> 's result" where
  "fold_records f s [] = Inr s"
| "fold_records f s (record # records) = and_then (f s record) (\<lambda>s. fold_records f s records)"

lemma yields_fold_tail:
  "yields (\<lambda>s'. \<exists>records. chained E lg parent references records \<and> fold_records f s records = Inr s')
    (fold_tail E lg v f parent s references)"
proof (induction references arbitrary: parent s)
  case (Cons reference references)
  show ?case
    unfolding fold_tail.simps
  proof (rule yields_try [OF yields_read_commit_optional], goal_cases)
    case (1 found)
    show ?case
    proof (cases found)
      case None
      then show ?thesis by (simp add: yields_try_any)
    next
      case (Some x)
      with 1 have x: "commit_contents E lg reference x" by simp
      show ?thesis
        unfolding Some option.case
      proof (intro safely_attemptI, goal_cases)
        case (1 u s')
        have "\<exists>records. chained E lg parent (reference # references) records \<and> fold_records f s records = Inr s''"
          if "chained E lg (Some (cr_digest (rc_reference x))) references rest" "fold_records f s' rest = Inr s''"
          for rest s''
          using that 1 x commit_contents_reference [OF x]
          by (intro exI [of _ "x # rest"]) (simp add: guard_Inr)
        then show ?case
          by (intro yields_mono [OF Cons.IH [of "Some (cr_digest (rc_reference x))" s']]) blast
      qed
    qed
  qed
qed simp

lemma yields_tail_records:
  "yields (\<lambda>s'. \<exists>records. chained E lg (map_option cp_through_commit (checkpoint (v_head v))) (tail (v_head v)) records
      \<and> fold_records f s records = Inr s') (tail_records E lg v f s)"
  unfolding tail_records_def by (intro safely_attemptI yields_fold_tail)

lemma fold_records_collect: "fold_records (\<lambda>rs r. Inr (rs @ [r])) s records = Inr s' \<longleftrightarrow> s' = s @ records"
  by (induction records arbitrary: s) auto

lemma yields_read_tail:
  "yields (chained E lg (map_option cp_through_commit (checkpoint (v_head v))) (tail (v_head v))) (read_tail E lg v)"
  unfolding read_tail_def
  by (rule yields_try [OF yields_tail_records]) (auto intro!: safely_await_any simp: fold_records_collect)


section \<open>Checkpoints and plans\<close>

definition checkpoint_contents :: "externals \<Rightarrow> log \<Rightarrow> checkpoint_ref \<Rightarrow> checkpoint_object \<Rightarrow> bool" where
  "checkpoint_contents E lg reference c \<longleftrightarrow> (\<exists>bs. authentic E (cp_object reference) bs \<and> decode_checkpoint E bs = Inr c)
    \<and> ck_log_id c = ss_log_id (lg_store lg) \<and> ck_incarnation c = lg_incarnation lg
    \<and> ck_through_sequence c = cp_through_sequence reference \<and> ck_through_commit c = cp_through_commit reference"

lemma yields_load_checkpoint: "yields (checkpoint_contents E lg reference) (load_checkpoint E lg reference)"
  unfolding load_checkpoint_def
  by (rule yields_try [OF yields_read_immutable])
    (auto intro!: safely_attemptI simp: checkpoint_contents_def decode_checkpoint_reference_def and_then_Inr
      split: if_splits)

definition plan_contents :: "externals \<Rightarrow> log \<Rightarrow> head \<Rightarrow> plan_ref \<Rightarrow> collection_plan \<Rightarrow> bool" where
  "plan_contents E lg h reference plan \<longleftrightarrow> (\<exists>bs. length bs = unat (pl_len reference)
    \<and> Digest_of E bs = pl_digest reference \<and> decode_collection_plan E bs (lg_options lg) = Inr plan)
    \<and> cl_log_id plan = ss_log_id (lg_store lg) \<and> cl_collection_epoch plan = collection_epoch h"

lemma yields_read_plan: "yields (plan_contents E lg h reference) (read_collection_plan E lg h reference)"
  unfolding read_collection_plan_def Let_def
proof (intro safely_attemptI yields_try_any, goal_cases)
  case (1 len u found)
  then show ?case
    by (cases found)
      (auto intro!: yields_try_any safely_attemptI
        simp: guard_Inr ok_or_Inr checked_simps plan_contents_def usize_try_from_def split: if_splits)
qed

end
