(* ===== verification/Graph_Safety.thy ===== *)
theory Graph_Safety
  imports Read_Safety
begin

text \<open>
  The bounded graph walk: it ends within its table, holds at most 32 reads within the byte budget,
  and returns a table that contains its roots and is closed under the children of every node in it. Marking
  therefore finds everything that the head reaches, and a collection plan names none of it.
\<close>


section \<open>Closed tables\<close>

definition meta :: "object_ref \<Rightarrow> u64 \<times> u64" where
  "meta obj = (or_len obj, or_subtree_objects obj)"

definition entered :: "log \<Rightarrow> visited \<Rightarrow> object_ref \<Rightarrow> bool" where
  "entered lg t obj \<longleftrightarrow> map_of t (object_immutable_key lg obj) = Some (meta obj)"

text \<open>\<open>closed E lg t open\<close>: every entered node outside \<open>open\<close> has authenticated children, all entered.\<close>

definition closed :: "externals \<Rightarrow> log \<Rightarrow> visited \<Rightarrow> object_ref set \<Rightarrow> bool" where
  "closed E lg t todo \<longleftrightarrow> (\<forall>obj. or_kind obj = Node \<longrightarrow> entered lg t obj \<longrightarrow> obj \<notin> todo \<longrightarrow>
    (\<exists>n. node_contents E lg obj n \<and> (\<forall>kid\<in>set (nd_children n). entered lg t kid)))"

lemma key_inject:
  "object_immutable_key lg a = object_immutable_key lg b \<Longrightarrow> meta a = meta b \<Longrightarrow> a = b"
  by (cases "or_kind a"; cases "or_kind b")
    (auto simp: object_immutable_key_def meta_def intro!: object_ref.equality)

lemma closed_mono: "closed E lg t todo \<Longrightarrow> (\<And>obj. obj \<in> todo \<Longrightarrow> or_kind obj = Node \<Longrightarrow> obj \<in> todo') \<Longrightarrow> closed E lg t todo'"
  unfolding closed_def by blast

lemma enqueue_object_Inr:
  assumes "enqueue_object E lg blocked obj (t, pending) = Inr (t', pending')"
  shows "map_of t \<subseteq>\<^sub>m map_of t'" "entered lg t' obj" "set pending \<subseteq> set pending'"
    and "entered lg t' a \<Longrightarrow> entered lg t a \<or> a \<in> set pending'"
proof -
  let ?key = "object_immutable_key lg obj"
  have cases: "(t' = t \<and> pending' = pending \<and> entered lg t obj)
    \<or> (map_of t ?key = None \<and> t' = (?key, meta obj) # t \<and> pending' = pending @ [obj])"
    using assms
    by (auto simp: enqueue_object_def entered_def meta_def and_then_Inr guard_Inr Let_def split: option.splits)
  then show "map_of t \<subseteq>\<^sub>m map_of t'" "entered lg t' obj" "set pending \<subseteq> set pending'"
    by (auto simp: map_le_def entered_def)
  show "entered lg t a \<or> a \<in> set pending'" if "entered lg t' a"
    using cases that key_inject [of lg a obj] by (auto simp: entered_def split: if_splits)
qed

lemma map_le_Some: "m \<subseteq>\<^sub>m m' \<Longrightarrow> m k = Some x \<Longrightarrow> m' k = Some x"
  by (simp add: map_le_def) (metis domI)

lemma entered_mono: "entered lg t a \<Longrightarrow> map_of t \<subseteq>\<^sub>m map_of t' \<Longrightarrow> entered lg t' a"
  unfolding entered_def by (rule map_le_Some)

lemma enqueue_all_Inr:
  assumes "enqueue_all E lg blocked objects (t, pending) = Inr (t', pending')"
  shows "map_of t \<subseteq>\<^sub>m map_of t' \<and> (\<forall>obj\<in>set objects. entered lg t' obj) \<and> set pending \<subseteq> set pending'
    \<and> (\<forall>a. entered lg t' a \<longrightarrow> entered lg t a \<or> a \<in> set pending')"
  using assms
proof (induction objects arbitrary: t pending)
  case (Cons obj objects)
  obtain t1 p1 where first: "enqueue_object E lg blocked obj (t, pending) = Inr (t1, p1)"
    and rest: "enqueue_all E lg blocked objects (t1, p1) = Inr (t', pending')"
    using Cons.prems by (auto simp: enqueue_all_def and_then_Inr)
  note one = enqueue_object_Inr [OF first] and more = Cons.IH [OF rest]
  show ?case
  proof (intro conjI allI impI)
    show "map_of t \<subseteq>\<^sub>m map_of t'" using one(1) more map_le_trans by blast
    show "\<forall>obj\<in>set (obj # objects). entered lg t' obj" using one(2) more entered_mono by auto
    show "set pending \<subseteq> set pending'" using one(3) more by blast
    show "entered lg t a \<or> a \<in> set pending'" if "entered lg t' a" for a
      using one(4) [of a] more that by blast
  qed
qed (simp add: enqueue_all_def)

lemma fill_Cons_Inr:
  assumes "fill E lg mode (a # pending) reads active = Inr (pending', reads', active')"
  shows "(pending' = a # pending \<and> reads' = reads \<and> active' = active \<and> reads \<noteq> [])
    \<or> (mode = Reachability \<and> or_kind a = Blob \<and> fill E lg mode pending reads active = Inr (pending', reads', active'))
    \<or> (\<exists>bs. length reads < MAX_CONCURRENT_READS \<and> bs = unat (or_len a)
        \<and> (reads \<noteq> [] \<longrightarrow> bs \<le> max_object_bytes (lg_options lg) - active)
        \<and> fill E lg mode pending (reads @ [(bs, a)]) (active + bs) = Inr (pending', reads', active'))"
  using assms
  by (auto simp: and_then_Inr ok_or_Inr usize_try_from_def usize_checked_add_def MAX_CONCURRENT_READS_def not_less
      split: if_splits)

lemma fill_keeps:
  assumes "fill E lg mode pending reads active = Inr (pending', reads', active')"
    and "obj \<in> set pending \<union> snd ` set reads" "or_kind obj \<noteq> Blob \<or> mode = VerifyBlobs"
  shows "obj \<in> set pending' \<union> snd ` set reads'"
  using assms(1,2)
proof (induction pending arbitrary: reads active)
  case (Cons a pending)
  from fill_Cons_Inr [OF Cons.prems(1)] show ?case
  proof (elim disjE exE conjE)
    assume "fill E lg mode pending reads active = Inr (pending', reads', active')" "mode = Reachability" "or_kind a = Blob"
    then show ?thesis using Cons.IH Cons.prems(2) assms(3) by auto
  next
    fix bs assume "fill E lg mode pending (reads @ [(bs, a)]) (active + bs) = Inr (pending', reads', active')"
    from Cons.IH [OF this] Cons.prems(2) show ?thesis by auto
  qed (use Cons.prems(2) in simp)
qed simp

lemma closed_enqueue:
  assumes closed: "closed E lg t todo" and enq: "enqueue_all E lg blocked objects (t, pending) = Inr (t', pending')"
    and todo: "\<And>obj. obj \<in> todo \<Longrightarrow> or_kind obj = Node \<Longrightarrow> obj \<in> set pending' \<union> rest \<or>
      (\<exists>n. node_contents E lg obj n \<and> set (nd_children n) \<subseteq> set objects)"
  shows "closed E lg t' (set pending' \<union> rest)"
  unfolding closed_def
proof (intro allI impI)
  note e = enqueue_all_Inr [OF enq]
  fix obj assume obj: "or_kind obj = Node" "entered lg t' obj" "obj \<notin> set pending' \<union> rest"
  show "\<exists>n. node_contents E lg obj n \<and> (\<forall>kid\<in>set (nd_children n). entered lg t' kid)"
  proof (cases "obj \<in> todo")
    case True
    with todo [OF this obj(1)] obj(3) e show ?thesis by blast
  next
    case False
    have "entered lg t obj" using e obj(2,3) by blast
    with closed False obj(1) obtain n where "node_contents E lg obj n" "\<forall>kid\<in>set (nd_children n). entered lg t kid"
      unfolding closed_def by blast
    then show ?thesis using e entered_mono by blast
  qed
qed


section \<open>The walk\<close>

lemma remove_nth_set: "i < length xs \<Longrightarrow> set xs = insert (xs ! i) (set (remove_nth i xs))"
  unfolding remove_nth_def using id_take_nth_drop [of i xs] by (metis Un_insert_right list.simps(15) set_append)

lemma fill_empty: "fill E lg mode pending reads active = Inr (pending', [], active') \<Longrightarrow> pending' = []"
proof (induction pending arbitrary: reads active)
  case (Cons a pending)
  from fill_Cons_Inr [OF Cons.prems] Cons.IH show ?case by auto
qed simp

lemma walk_closed:
  "closed E lg t (set pending \<union> snd ` set reads) \<Longrightarrow>
    yields (\<lambda>t'. map_of t \<subseteq>\<^sub>m map_of t' \<and> closed E lg t' {})
      (walk_graph E lg blocked mode t pending reads active)"
proof (induction E lg blocked mode t pending reads active rule: walk_graph.induct)
  case (1 E lg blocked mode t pending reads active)
  show ?case
    unfolding walk_graph.simps [of _ _ _ _ t]
  proof (rule safely_attemptI, goal_cases)
    case (1 filled)
    obtain pending' reads' active' where filled: "filled = (pending', reads', active')"
      by (cases filled)
    note fill = 1 [unfolded filled]
    have todo: "obj \<in> set pending' \<union> snd ` set reads'" if "obj \<in> set pending \<union> snd ` set reads" "or_kind obj = Node" for obj
      using fill_keeps [OF fill that(1)] that(2) by simp
    have closed: "closed E lg t (set pending' \<union> snd ` set reads')"
      using "1.prems" todo by (rule closed_mono)
    show ?case
      unfolding filled prod.case
    proof (rule safely_ifI, goal_cases)
      case 1
      then show ?case using closed fill_empty [of E lg mode pending reads active pending' active'] fill by simp
    next
      case 2
      show ?case
        unfolding safely.simps
      proof (rule allI)
        fix i
        let ?i = "i mod length reads'"
        obtain bs obj where nth: "reads' ! ?i = (bs, obj)" by (cases "reads' ! ?i")
        have i: "?i < length reads'" using 2 by simp
        have reads: "snd ` set reads' = insert obj (snd ` set (remove_nth ?i reads'))"
          using remove_nth_set [OF i] nth by auto
        show "yields (\<lambda>t'. map_of t \<subseteq>\<^sub>m map_of t' \<and> closed E lg t' {})
          (let i = ?i; (bs, obj) = reads' ! i in
            await_try (read_graph_children E lg obj) (\<lambda>children.
            attempt (enqueue_all E lg blocked children (t, pending')) (\<lambda>(t, pending).
            walk_graph E lg blocked mode t pending (remove_nth i reads') (active' - bs))))"
          unfolding Let_def nth prod.case
        proof (rule yields_try [OF yields_graph_children], rule safely_attemptI, goal_cases)
          case (1 children entry)
          obtain t' pending'' where entry: "entry = (t', pending'')" by (cases entry)
          note enq = 1(2) [unfolded entry]
          have "closed E lg t' (set pending'' \<union> snd ` set (remove_nth ?i reads'))"
            using closed enq
          proof (rule closed_enqueue)
            fix a assume "a \<in> set pending' \<union> snd ` set reads'" "or_kind a = Node"
            moreover have "set pending' \<subseteq> set pending''" using enqueue_all_Inr [OF enq] by simp
            ultimately show "a \<in> set pending'' \<union> snd ` set (remove_nth ?i reads')
                \<or> (\<exists>n. node_contents E lg a n \<and> set (nd_children n) \<subseteq> set children)"
              using reads 1(1) by auto
          qed
          from "1.IH" [OF fill refl refl 2 refl refl nth [symmetric] enq refl this]
          show ?case
            unfolding entry prod.case
            by (rule yields_mono) (use enqueue_all_Inr [OF enq] in \<open>auto intro: map_le_trans\<close>)
        qed
      qed
    qed
  qed
qed

lemma mark_graph_closed:
  assumes "\<And>obj. or_kind obj = Node \<Longrightarrow> \<not> entered lg t obj"
  shows "yields (\<lambda>t'. map_of t \<subseteq>\<^sub>m map_of t' \<and> (\<forall>obj\<in>set roots. entered lg t' obj) \<and> closed E lg t' {})
    (mark_object_graph E lg roots t blocked mode)"
  unfolding mark_object_graph_def
proof (rule safely_attemptI, goal_cases)
  case (1 entry)
  obtain t1 pending where entry: "entry = (t1, pending)" by (cases entry)
  note enq = enqueue_all_Inr [OF 1 [unfolded entry]]
  have "closed E lg t1 (set pending \<union> snd ` set [])"
    using assms enq unfolding closed_def by auto
  from walk_closed [OF this, of blocked mode 0] show ?case
    unfolding entry prod.case
    by (rule yields_mono) (use enq entered_mono in \<open>auto intro: map_le_trans\<close>)
qed


section \<open>The read budget\<close>

text \<open>The outstanding reads: at most 32, within the byte budget, accounted for exactly.\<close>

definition in_budget :: "log \<Rightarrow> graph_read list \<Rightarrow> usize \<Rightarrow> bool" where
  "in_budget lg reads active \<longleftrightarrow> length reads \<le> MAX_CONCURRENT_READS \<and> active = sum_list (map fst reads)
    \<and> active \<le> max_object_bytes (lg_options lg)"

definition sized :: "log \<Rightarrow> object_ref list \<Rightarrow> bool" where
  "sized lg objs \<longleftrightarrow> (\<forall>obj\<in>set objs. unat (or_len obj) \<le> max_object_bytes (lg_options lg))"

lemma fill_budget:
  assumes "in_budget lg reads active" "sized lg pending"
    and "fill E lg mode pending reads active = Inr (pending', reads', active')"
  shows "in_budget lg reads' active' \<and> sized lg pending'"
  using assms
proof (induction pending arbitrary: reads active)
  case (Cons a pending)
  from fill_Cons_Inr [OF Cons.prems(3)] show ?case
  proof (elim disjE exE conjE)
    fix bs assume *: "fill E lg mode pending (reads @ [(bs, a)]) (active + bs) = Inr (pending', reads', active')"
      "length reads < MAX_CONCURRENT_READS" "bs = unat (or_len a)"
      "reads \<noteq> [] \<longrightarrow> bs \<le> max_object_bytes (lg_options lg) - active"
    have "in_budget lg (reads @ [(bs, a)]) (active + bs)"
      using * Cons.prems(1,2) by (cases "reads = []") (auto simp: in_budget_def sized_def)
    from Cons.IH [OF this _ *(1)] Cons.prems(2) show ?thesis by (simp add: sized_def)
  qed (use Cons in \<open>auto simp: sized_def\<close>)
qed simp

lemma enqueue_object_sized:
  "enqueue_object E lg blocked obj (t, pending) = Inr (t', pending') \<Longrightarrow> sized lg pending \<Longrightarrow> sized lg pending'"
  by (auto simp: enqueue_object_def and_then_Inr guard_Inr ok_or_Inr checked_simps Let_def sized_def not_less
      split: option.splits)

lemma enqueue_all_sized:
  "enqueue_all E lg blocked objects (t, pending) = Inr (t', pending') \<Longrightarrow> sized lg pending \<Longrightarrow> sized lg pending'"
proof (induction objects arbitrary: t pending)
  case (Cons obj objects)
  then obtain t1 p1 where "enqueue_object E lg blocked obj (t, pending) = Inr (t1, p1)"
    "enqueue_all E lg blocked objects (t1, p1) = Inr (t', pending')"
    by (auto simp: enqueue_all_def and_then_Inr)
  with Cons.IH Cons.prems(2) enqueue_object_sized show ?case by blast
qed (simp add: enqueue_all_def)

lemma in_budget_complete:
  assumes "in_budget lg reads active" "i < length reads" "reads ! i = (bs, obj)"
  shows "bs \<le> active" "in_budget lg (remove_nth i reads) (active - bs)"
proof -
  have split: "reads = take i reads @ (bs, obj) # drop (Suc i) reads"
    using id_take_nth_drop [OF assms(2)] assms(3) by simp
  have total: "sum_list (map fst reads) = sum_list (map fst (remove_nth i reads)) + bs"
    unfolding remove_nth_def by (subst split) simp
  then show "bs \<le> active" using assms(1) by (simp add: in_budget_def)
  show "in_budget lg (remove_nth i reads) (active - bs)"
    using assms(1,2) total by (auto simp: in_budget_def length_remove_nth)
qed


section \<open>Live objects\<close>

text \<open>
  \<open>live_table E lg v t\<close>: the table holds the commits and the checkpoint that the head names, the objects
  that their authenticated contents name, and the children of every node in it.
\<close>

definition live_table :: "externals \<Rightarrow> log \<Rightarrow> view \<Rightarrow> visited \<Rightarrow> bool" where
  "live_table E lg v t \<longleftrightarrow> closed E lg t {}
    \<and> (\<exists>records. chained E lg (map_option cp_through_commit (checkpoint (v_head v))) (tail (v_head v)) records
        \<and> (\<forall>r\<in>set records. commit_immutable_key lg (rc_reference r) \<in> fst ` set t
            \<and> (\<forall>obj\<in>set (rc_objects r). entered lg t obj)))
    \<and> (\<forall>base. checkpoint (v_head v) = Some base \<longrightarrow> object_immutable_key lg (cp_object base) \<in> fst ` set t
        \<and> (\<exists>c. checkpoint_contents E lg base c \<and> (\<forall>obj\<in>set (ck_objects c). entered lg t obj)))"

lemma chained_references: "chained E lg parent references records \<Longrightarrow> map rc_reference records = references"
proof (induction references arbitrary: parent records)
  case (Cons reference references)
  then show ?case using commit_contents_reference by fastforce
qed simp

lemma insert_live_Inr:
  assumes "insert_live lg t key len subtree = Inr t'"
  shows "map_of t \<subseteq>\<^sub>m map_of t'" "map_of t' key = Some (len, subtree)"
    and "k \<noteq> key \<Longrightarrow> map_of t' k = map_of t k"
  using assms by (auto simp: insert_live_def and_then_Inr guard_Inr map_le_def split: option.splits)

lemma extend_roots_Inr: "extend_roots lg roots objects = Inr roots' \<Longrightarrow> roots' = roots @ objects"
  by (auto simp: extend_roots_def and_then_Inr)

definition no_nodes :: "log \<Rightarrow> visited \<Rightarrow> bool" where
  "no_nodes lg t \<longleftrightarrow> (\<forall>obj. or_kind obj = Node \<longrightarrow> map_of t (object_immutable_key lg obj) = None)"

lemma mark_commits:
  "fold_records (mark_commit lg) (t, roots) records = Inr (t', roots') \<Longrightarrow> no_nodes lg t \<Longrightarrow>
    map_of t \<subseteq>\<^sub>m map_of t' \<and> no_nodes lg t' \<and> set roots' = set roots \<union> \<Union> (set ` rc_objects ` set records)
    \<and> (\<forall>r\<in>set records. map_of t' (commit_immutable_key lg (rc_reference r)) \<noteq> None)"
proof (induction records arbitrary: t roots)
  case (Cons r records)
  obtain t1 roots1 where one: "insert_live lg t (commit_immutable_key lg (rc_reference r)) (cr_len (rc_reference r)) 0 = Inr t1"
      "roots1 = roots @ rc_objects r"
    and rest: "fold_records (mark_commit lg) (t1, roots1) records = Inr (t', roots')"
    using Cons.prems(1) by (auto simp: mark_commit_def and_then_Inr dest: extend_roots_Inr)
  note ins = insert_live_Inr [OF one(1)]
  have "object_immutable_key lg obj \<noteq> commit_immutable_key lg (rc_reference r)" for obj
    by (auto simp: object_immutable_key_def commit_immutable_key_def split: object_kind.splits)
  then have "no_nodes lg t1" using ins(3) Cons.prems(2) by (simp add: no_nodes_def)
  note more = Cons.IH [OF rest this]
  then have "map_of t' (commit_immutable_key lg (rc_reference r)) = Some (cr_len (rc_reference r), 0)"
    using map_le_Some [of "map_of t1" "map_of t'", OF _ ins(2)] by simp
  moreover have "map_of t \<subseteq>\<^sub>m map_of t'" using map_le_trans [OF ins(1)] more by simp
  ultimately show ?case using more by (auto simp: one(2))
qed (auto simp: map_le_def)

lemma commit_keys_distinct:
  "or_kind obj = Node \<Longrightarrow> or_kind base = Checkpoint \<Longrightarrow> object_immutable_key lg obj \<noteq> object_immutable_key lg base"
  by (simp add: object_immutable_key_def)

definition base_marked ::
    "externals \<Rightarrow> log \<Rightarrow> view \<Rightarrow> visited \<Rightarrow> object_ref list \<Rightarrow> visited \<times> object_ref list \<Rightarrow> bool" where
  "base_marked E lg v t roots = (\<lambda>(t', roots'). map_of t \<subseteq>\<^sub>m map_of t' \<and> no_nodes lg t' \<and> set roots \<subseteq> set roots'
    \<and> (\<forall>base. checkpoint (v_head v) = Some base \<longrightarrow> map_of t' (object_immutable_key lg (cp_object base)) \<noteq> None
      \<and> (\<exists>c. checkpoint_contents E lg base c \<and> set (ck_objects c) \<subseteq> set roots')))"

lemma yields_mark_base:
  assumes kind: "\<And>base. checkpoint (v_head v) = Some base \<Longrightarrow> or_kind (cp_object base) = Checkpoint"
    and nodes: "no_nodes lg t"
  shows "yields (base_marked E lg v t roots) (case checkpoint (v_head v) of None \<Rightarrow> succeed (t, roots)
      | Some reference \<Rightarrow>
          attempt (insert_live lg t (object_immutable_key lg (cp_object reference))
            (or_len (cp_object reference)) (or_subtree_objects (cp_object reference))) (\<lambda>live.
          await_try (load_checkpoint E lg reference) (\<lambda>c.
          attempt (extend_roots lg roots (ck_objects c)) (\<lambda>roots.
          succeed (live, roots)))))"
proof (cases "checkpoint (v_head v)")
  case None
  then show ?thesis using nodes by (simp add: base_marked_def)
next
  case (Some reference)
  show ?thesis
    unfolding Some option.case
  proof (rule safely_attemptI, rule yields_try [OF yields_load_checkpoint], rule safely_attemptI, goal_cases)
    case (1 t1 c roots1)
    note ins = insert_live_Inr [OF 1(1)]
    have "no_nodes lg t1"
      using ins(3) nodes commit_keys_distinct [OF _ kind [OF Some]] by (simp add: no_nodes_def)
    with 1 ins extend_roots_Inr [OF 1(3)] Some show ?case by (auto simp: base_marked_def)
  qed
qed

lemma mark_live_table:
  assumes kind: "\<And>base. checkpoint (v_head v) = Some base \<Longrightarrow> or_kind (cp_object base) = Checkpoint"
  shows "yields (live_table E lg v) (mark_live E lg v)"
  unfolding mark_live_def
proof (rule yields_try [OF yields_tail_records], goal_cases)
  case (1 marked)
  obtain t roots where marked: "marked = (t, roots)" by (cases marked)
  obtain records where chain: "chained E lg (map_option cp_through_commit (checkpoint (v_head v))) (tail (v_head v)) records"
      and fold: "fold_records (mark_commit lg) ([], []) records = Inr (t, roots)"
    using 1 marked by auto
  have commits: "no_nodes lg t" "set roots = \<Union> (set ` rc_objects ` set records)"
      "\<And>r. r \<in> set records \<Longrightarrow> map_of t (commit_immutable_key lg (rc_reference r)) \<noteq> None"
    using mark_commits [OF fold] by (auto simp: no_nodes_def)
  have base: "yields (base_marked E lg v t roots) (case checkpoint (v_head v) of None \<Rightarrow> succeed (t, roots)
      | Some reference \<Rightarrow>
          attempt (insert_live lg t (object_immutable_key lg (cp_object reference))
            (or_len (cp_object reference)) (or_subtree_objects (cp_object reference))) (\<lambda>live.
          await_try (load_checkpoint E lg reference) (\<lambda>c.
          attempt (extend_roots lg roots (ck_objects c)) (\<lambda>roots.
          succeed (live, roots)))))"
    by (rule yields_mark_base [OF kind commits(1)])
  show ?case
    unfolding marked prod.case
  proof (rule safely_await_any, rule yields_try [OF base], goal_cases)
    case (1 u marked')
    obtain t' roots' where m: "marked' = (t', roots')" by (cases marked')
    have nodes: "\<not> entered lg t' obj" if "or_kind obj = Node" for obj
      using 1 m that by (simp add: base_marked_def no_nodes_def entered_def)
    show ?case
      unfolding m prod.case
    proof (rule yields_mono [OF mark_graph_closed [OF nodes]], goal_cases)
      case (2 t2)
      have grows: "map_of t' \<subseteq>\<^sub>m map_of t2" and roots2: "\<forall>obj\<in>set roots'. entered lg t2 obj" and closed: "closed E lg t2 {}"
        using 2 by simp_all
      have R: "map_of t \<subseteq>\<^sub>m map_of t'" "set roots \<subseteq> set roots'"
        using 1 m by (simp_all add: base_marked_def)
      have in_table: "k \<in> fst ` set t2" if "map_of t' k \<noteq> None" for k
      proof -
        from that obtain x where "map_of t' k = Some x" by blast
        with grows have "map_of t2 k = Some x" by (rule map_le_Some)
        from map_of_SomeD [OF this] show ?thesis by force
      qed
      have "commit_immutable_key lg (rc_reference r) \<in> fst ` set t2" "\<forall>obj\<in>set (rc_objects r). entered lg t2 obj"
        if "r \<in> set records" for r
      proof -
        from commits(3) [OF that] obtain x where "map_of t (commit_immutable_key lg (rc_reference r)) = Some x" by blast
        with R(1) have "map_of t' (commit_immutable_key lg (rc_reference r)) = Some x" by (rule map_le_Some)
        then show "commit_immutable_key lg (rc_reference r) \<in> fst ` set t2" by (intro in_table) simp
        show "\<forall>obj\<in>set (rc_objects r). entered lg t2 obj" using roots2 R(2) commits(2) that by blast
      qed
      moreover have "object_immutable_key lg (cp_object base) \<in> fst ` set t2
          \<and> (\<exists>c. checkpoint_contents E lg base c \<and> (\<forall>obj\<in>set (ck_objects c). entered lg t2 obj))"
        if "checkpoint (v_head v) = Some base" for base
        using 1 m that in_table roots2 unfolding base_marked_def by fastforce
      ultimately show ?case unfolding live_table_def using chain closed by blast
    qed
  qed
qed

end
