(* ===== verification/Collection_Safety.thy ===== *)
theory Collection_Safety
  imports Client_Effects Graph_Safety
begin

text \<open>
  Garbage collection: the scan keeps its candidates sorted, outside the live table and within the
  limit; the plan that a collection stores therefore names nothing that the head reaches; and finishing a
  collection deletes only objects of the plan that the head names by digest, and the plan itself.
\<close>


section \<open>The scan\<close>

abbreviation candidate_keys :: "collection_candidate list \<Rightarrow> immutable_key list" where
  "candidate_keys cs \<equiv> map cc_key cs"

lemma insert_candidate_Inr:
  assumes "insert_candidate key bs cs = Inr cs'" "sorted_wrt (<) (candidate_keys cs)"
  shows "sorted_wrt (<) (candidate_keys cs')"
    and "set (candidate_keys cs') = insert key (set (candidate_keys cs))" "length cs' \<le> Suc (length cs)"
proof -
  have "sorted_wrt (<) (candidate_keys cs') \<and> set (candidate_keys cs') = insert key (set (candidate_keys cs))
      \<and> length cs' \<le> Suc (length cs)"
    using assms
  proof (induction key bs cs arbitrary: cs' rule: insert_candidate.induct)
    case (2 key bs c cs)
    consider "key < cc_key c" | "key = cc_key c" | "cc_key c < key" by (rule linorder_cases)
    then show ?case
    proof cases
      case 1
      then show ?thesis using 2 less_trans [OF 1] by auto
    next
      case 2
      then show ?thesis using "2.prems" by (auto split: if_splits)
    next
      case 3
      then obtain ds where ds: "insert_candidate key bs cs = Inr ds" "cs' = c # ds"
        using "2.prems"(1) by (auto simp: and_then_Inr split: if_splits)
      from "2.IH" [OF _ _ ds(1)] "2.prems"(2) 3 ds(2) show ?thesis by auto
    qed
  qed auto
  then show "sorted_wrt (<) (candidate_keys cs')" "set (candidate_keys cs') = insert key (set (candidate_keys cs))"
    "length cs' \<le> Suc (length cs)" by simp_all
qed

definition listed_keys :: "listed_object result list \<Rightarrow> immutable_key set" where
  "listed_keys items = {key. \<exists>item. Inr item \<in> set items \<and> lo_immutable_key item = Some key}"

text \<open>The candidates after a scan: sorted, not live, listed, within the limit.\<close>

definition dead :: "visited \<Rightarrow> nat \<Rightarrow> immutable_key set \<Rightarrow> collection_candidate list \<Rightarrow> bool" where
  "dead live n listed cs \<longleftrightarrow> sorted_wrt (<) (candidate_keys cs) \<and> length cs \<le> n
    \<and> set (candidate_keys cs) \<inter> fst ` set live = {} \<and> set (candidate_keys cs) \<subseteq> listed"

lemma scan_candidates_Inr:
  assumes "scan_candidates live max_candidates n items cs = Inr (cs', complete)"
    and "dead live max_candidates listed cs" "length cs < max_candidates" "listed_keys items \<subseteq> listed"
  shows "dead live max_candidates listed cs' \<and>
    (complete \<longrightarrow> listed_keys items - fst ` set live \<subseteq> set (candidate_keys cs'))
    \<and> set (candidate_keys cs) \<subseteq> set (candidate_keys cs')"
  using assms
proof (induction live max_candidates n items cs rule: scan_candidates.induct)
  case (3 live max_candidates n item items cs)
  from "3.prems"(1) obtain x where x: "item = Inr x" by (auto simp: and_then_Inr)
  have listed: "listed_keys (item # items) = (case lo_immutable_key x of None \<Rightarrow> {} | Some key \<Rightarrow> {key}) \<union> listed_keys items"
    by (auto simp: listed_keys_def x split: option.splits)
  then have items: "listed_keys items \<subseteq> listed" using "3.prems"(4) by blast
  show ?case
  proof (cases "lo_immutable_key x")
    case None
    with 3 x listed items show ?thesis by (simp add: and_then_Inr)
  next
    case (Some key)
    show ?thesis
    proof (cases "map_of live key = None")
      case False
      then have "key \<in> fst ` set live" by (simp add: map_of_eq_None_iff)
      with 3 x Some False listed items show ?thesis by (auto simp: and_then_Inr)
    next
      case True
      then obtain ds where ds: "insert_candidate key (lo_size x) cs = Inr ds"
        and rest: "if length ds = max_candidates then Inr (ds, False) = Inr (cs', complete)
          else scan_candidates live max_candidates n items ds = Inr (cs', complete)"
        using "3.prems"(1) x Some by (auto simp: and_then_Inr split: if_splits)
      note ins = insert_candidate_Inr [OF ds] 
      have ds_dead: "dead live max_candidates listed ds"
        using ins "3.prems"(2-4) True listed Some by (auto simp: dead_def map_of_eq_None_iff)
      show ?thesis
      proof (cases "length ds = max_candidates")
        case True
        with rest ds_dead ins "3.prems"(2) show ?thesis by (auto simp: dead_def)
      next
        case False
        then have "length ds < max_candidates" using ds_dead by (simp add: dead_def)
        with rest "3.IH"(3) [OF Some _ False _ ds_dead _ items] True False ins "3.prems"(2) listed Some show ?thesis
          by (auto simp: dead_def)
      qed
    qed
  qed
qed (auto simp: listed_keys_def)



section \<open>The plan of a collection\<close>

text \<open>
  The writes of a collection start: the conditional head update, and plans whose candidates are outside
  a live table of the head.
\<close>

fun spares_live :: "externals \<Rightarrow> log \<Rightarrow> view \<Rightarrow> effect \<Rightarrow> bool" where
  "spares_live E lg v (Stores p bs mode) \<longleftrightarrow> p = head_path lg \<or>
    (\<exists>plan t. encode_collection_plan E plan (lg_options lg) = Inr bs \<and> live_table E lg v t
      \<and> set (candidate_keys (cl_candidates plan)) \<inter> fst ` set t = {})"
| "spares_live E lg v (Removes p) \<longleftrightarrow> True"

lemma install_spares:
  assumes "live_table E lg v t" "set (candidate_keys (cl_candidates plan)) \<inter> fst ` set t = {}"
  shows "does (spares_live E lg v) (install_plan E lg v epoch plan report)"
proof -
  have "does (spares_live E lg v) (create_collection_plan E lg plan)"
    using assms by (intro does_create_collection_plan) auto
  moreover have "does (spares_live E lg v) (update_head E lg v h)" for h
    by (rule does_update_head) simp
  moreover have "does (spares_live E lg v) (cleanup_collection_plan E lg key)" for key
    by (rule does_cleanup) simp
  ultimately show ?thesis
    unfolding install_plan_def by (auto simp: Let_def split: sum.splits option.splits error.splits)
qed

lemma scan_spares:
  assumes t: "live_table E lg v t" and max: "0 < max_candidates"
  shows "does (spares_live E lg v)
    (attempt (scan_candidates t max_candidates limit listed []) (\<lambda>(candidates, complete).
    attempt (guard (\<not> (candidates = [] \<and> \<not> complete))
      (LimitExceeded ''collection scan objects'')) (\<lambda>_.
    if candidates = [] then succeed (StartEmpty (CollectionReport_new 0 0 0))
    else
    attempt (ok_or (checked_add (collection_epoch (v_head v)) 1)
      (LimitExceeded ''collection epoch'')) (\<lambda>epoch.
    let plan = \<lparr>cl_log_id = ss_log_id (lg_store lg), cl_collection_epoch = epoch,
                cl_candidates = candidates\<rparr> in
    attempt (candidate_bytes plan) (\<lambda>plan_bytes.
    install_plan E lg v epoch plan (CollectionReport_new (length candidates) plan_bytes 0))))))"
proof (rule does_attempt, clarify)
  fix cs complete assume scan: "scan_candidates t max_candidates limit listed [] = Inr (cs, complete)"
  have "dead t max_candidates UNIV cs"
    using scan_candidates_Inr [OF scan, of UNIV] max by (simp add: dead_def)
  then have "set (candidate_keys cs) \<inter> fst ` set t = {}" by (simp add: dead_def)
  then show "does (spares_live E lg v)
     (attempt (guard (\<not> (cs = [] \<and> \<not> complete)) (LimitExceeded ''collection scan objects'')) (\<lambda>_.
      if cs = [] then succeed (StartEmpty (CollectionReport_new 0 0 0))
      else attempt (ok_or (checked_add (collection_epoch (v_head v)) 1) (LimitExceeded ''collection epoch'')) (\<lambda>epoch.
        let plan = \<lparr>cl_log_id = ss_log_id (lg_store lg), cl_collection_epoch = epoch, cl_candidates = cs\<rparr> in
        attempt (candidate_bytes plan) (\<lambda>plan_bytes.
        install_plan E lg v epoch plan (CollectionReport_new (length cs) plan_bytes 0)))))"
    unfolding Let_def by (intro does_attempt safely_ifI install_spares [OF t]) simp_all
qed

lemma start_spares:
  assumes kind: "\<And>base. checkpoint (v_head v) = Some base \<Longrightarrow> or_kind (cp_object base) = Checkpoint"
  shows "does (spares_live E lg v) (start_collection_with_limit E lg v max_candidates)"
proof -
  have live: "safely (spares_live E lg v) (ok_and (live_table E lg v)) (mark_live E lg v)"
    by (rule does_ends [OF does_mark_live mark_live_table]) (rule kind)
  have walk: "does (spares_live E lg v) (await_try (mark_live E lg v) (\<lambda>live.
    attempt (ok_or (Option.bind (usize_checked_add (usize_MAX E) (length live) max_candidates)
        (\<lambda>limit. usize_checked_add (usize_MAX E) limit 1))
      (LimitExceeded ''collection scan objects'')) (\<lambda>scan_limit.
    await (list_scoped E (lg_store lg)) (\<lambda>listed. f live scan_limit listed))))"
    if "\<And>live limit listed. live_table E lg v live \<Longrightarrow> does (spares_live E lg v) (f live limit listed)" for f
    by (rule does_try_ends [OF live]) (intro does_attempt does_await does_list_scoped that)
  show ?thesis
    unfolding start_collection_with_limit_def
  proof (rule does_attempt, rule does_attempt, goal_cases)
    case 1
    then have "0 < max_candidates" by (simp add: guard_Inr)
    then show ?case by (intro safely_ifI walk scan_spares) simp_all
  qed
qed


section \<open>Finishing a collection\<close>

lemma concat_chunks: "concat (chunks n xs) = xs"
proof (induction n xs rule: chunks.induct)
  case (1 n xs)
  then show ?case by (subst chunks.simps) simp
qed

lemma chunks_length: "chunk \<in> set (chunks n xs) \<Longrightarrow> 0 < length chunk \<and> length chunk \<le> max n 1"
proof (induction n xs rule: chunks.induct)
  case (1 n xs)
  then show ?case using chunks.simps [of n xs] by (auto split: if_splits)
qed

text \<open>
  What finishing a collection for the view \<open>v\<close> may change: the head, the plan object that the head of \<open>v\<close>
  names, and the candidates of a plan with the digest and epoch of that reference.
\<close>

fun planned :: "externals \<Rightarrow> log \<Rightarrow> view \<Rightarrow> effect \<Rightarrow> bool" where
  "planned E lg v (Stores p bs mode) \<longleftrightarrow> p = head_path lg"
| "planned E lg v (Removes p) \<longleftrightarrow> (\<exists>ref. active_plan (v_head v) = Some ref \<and>
    ((\<exists>inc. p = immutable_location E (lg_store lg) (collection_plan_key inc ref))
     \<or> (\<exists>h plan c. plan_contents E lg h ref plan \<and> c \<in> set (cl_candidates plan)
          \<and> p = immutable_location E (lg_store lg) (cc_key c))))"

lemma planned_head [simp]: "does (planned E lg v) (update_head E lg u h)"
  by (rule does_update_head) simp

lemma planned_cleanup:
  "active_plan (v_head v) = Some ref \<Longrightarrow> does (planned E lg v) (cleanup_collection_plan E lg (collection_plan_key inc ref))"
  by (rule does_cleanup) auto

lemma planned_clear:
  assumes "active_plan (v_head v) = Some ref" "plan_key = collection_plan_key inc ref"
  shows "does (planned E lg v) (clear_plan_from E lg plan_ref plan_key report further cur)"
proof (induction further arbitrary: cur rule: less_induct)
  case (less further)
  have "does (planned E lg v) (cleanup_collection_plan E lg plan_key)"
    unfolding assms(2) using assms(1) by (rule planned_cleanup)
  with less show ?case
    by (subst clear_plan_from.simps) (auto split: sum.splits option.splits error.splits nat.splits)
qed

lemma planned_deletes:
  assumes "active_plan (v_head v) = Some ref" "plan_contents E lg h ref plan"
  shows "does (planned E lg v) (delete_batches E lg (chunks n (cl_candidates plan)) report)"
  by (rule does_delete_batches) (use assms in \<open>auto simp: concat_chunks simp del: set_concat\<close>)

lemma resume_planned: "does (planned E lg v) (resume_collection E lg v)"
  unfolding resume_collection_def Let_def
proof (intro does_attempt does_await_try does_load, goal_cases)
  case (1 u cur)
  show ?case
  proof (cases "active_plan (v_head cur)")
    case None
    then show ?thesis
      by (auto intro!: does_await_try planned_cleanup split: option.splits)
  next
    case (Some ref)
    have plan: "safely (planned E lg v) (ok_and (plan_contents E lg (v_head cur) ref)) (read_collection_plan E lg (v_head cur) ref)"
      by (rule does_ends [OF does_read_collection_plan yields_read_plan])
    show ?thesis
      unfolding Some option.case
    proof (intro safely_ifI does_try_ends [OF plan] does_attempt does_await_try, goal_cases)
      case (2 plan plan_bytes)
      then show ?case using planned_deletes [of v ref] by auto
    next
      case (3 plan plan_bytes deleted)
      then show ?case
        by (auto simp: clear_collection_plan_def intro: planned_clear split: sum.splits)
    qed simp
  qed
qed


section \<open>The fence of an active plan\<close>

text \<open>The search on the sorted candidates of a plan decides membership.\<close>

lemma search_candidate_iff:
  assumes "sorted_wrt (<) (candidate_keys cs)" "hi \<le> length cs"
  shows "search_candidate cs key lo hi \<longleftrightarrow> (\<exists>i. lo \<le> i \<and> i < hi \<and> cc_key (cs ! i) = key)"
  using assms
proof (induction cs key lo hi rule: search_candidate.induct)
  case (1 cs key lo hi)
  show ?case
  proof (cases "hi \<le> lo")
    case True
    then show ?thesis by (subst search_candidate.simps) auto
  next
    case False
    define mid where "mid = lo + (hi - lo) div 2"
    have mid: "lo \<le> mid" "mid < hi" using False by (auto simp: mid_def)
    have less: "cc_key (cs ! i) < cc_key (cs ! j)" if "i < j" "j < hi" for i j
      using sorted_wrt_nth_less [OF "1.prems"(1) that(1)] that "1.prems"(2) by simp
    note step = search_candidate.simps [of cs key lo hi, folded mid_def]
    consider "cc_key (cs ! mid) = key" | "cc_key (cs ! mid) < key" | "key < cc_key (cs ! mid)" by fastforce
    then show ?thesis
    proof cases
      case 1
      with False mid show ?thesis by (auto simp: step Let_def)
    next
      case 2
      have "mid < i" if "i < hi" "cc_key (cs ! i) = key" for i
        using less [of i mid] 2 that mid by (metis less_asym linorder_neqE_nat)
      with mid(1) have "(\<exists>i. Suc mid \<le> i \<and> i < hi \<and> cc_key (cs ! i) = key) \<longleftrightarrow> (\<exists>i. lo \<le> i \<and> i < hi \<and> cc_key (cs ! i) = key)"
        by (metis Suc_le_eq less_imp_le order_trans)
      then show ?thesis
        using "1.IH"(1) [OF False mid_def refl less_imp_neq [OF 2] 2 "1.prems"] False 2 less_imp_neq [OF 2]
        by (simp add: step Let_def)
    next
      case 3
      have "i < mid" if "i < hi" "cc_key (cs ! i) = key" for i
        using less [of mid i] 3 that mid by (metis less_asym linorder_neqE_nat)
      with mid(2) have "(\<exists>i. lo \<le> i \<and> i < mid \<and> cc_key (cs ! i) = key) \<longleftrightarrow> (\<exists>i. lo \<le> i \<and> i < hi \<and> cc_key (cs ! i) = key)"
        by (metis less_trans)
      then show ?thesis
        using "1.IH"(2) [OF False mid_def refl less_imp_neq [OF 3, symmetric] less_not_sym [OF 3] "1.prems"(1)]
          mid(2) "1.prems"(2) False less_not_sym [OF 3] less_imp_neq [OF 3]
        by (simp add: step Let_def)
    qed
  qed
qed

lemma is_collection_candidate_iff:
  assumes "sorted_wrt (<) (candidate_keys cs)"
  shows "is_collection_candidate cs key \<longleftrightarrow> key \<in> set (candidate_keys cs)"
  unfolding is_collection_candidate_def search_candidate_iff [OF assms order_refl]
  by (auto simp: in_set_conv_nth) (metis nth_mem rev_image_eqI)

definition unblocked :: "collection_candidate list option \<Rightarrow> visited \<Rightarrow> bool" where
  "unblocked blocked t \<longleftrightarrow> (\<forall>key\<in>fst ` set t. \<not> is_blocked blocked key)"

lemma enqueue_unblocked:
  "enqueue_all E lg blocked objects (t, pending) = Inr (t', pending') \<Longrightarrow> unblocked blocked t \<Longrightarrow> unblocked blocked t'"
proof (induction objects arbitrary: t pending)
  case (Cons obj objects)
  then obtain t1 p1 where step: "enqueue_object E lg blocked obj (t, pending) = Inr (t1, p1)"
    "enqueue_all E lg blocked objects (t1, p1) = Inr (t', pending')"
    by (auto simp: enqueue_all_def and_then_Inr)
  have "unblocked blocked t1"
    using step(1) Cons.prems(2)
    by (auto simp: enqueue_object_def and_then_Inr guard_Inr Let_def unblocked_def split: option.splits)
  with Cons.IH step(2) show ?case by blast
qed (simp add: enqueue_all_def)

lemma walk_unblocked:
  "unblocked blocked t \<Longrightarrow> yields (unblocked blocked) (walk_graph E lg blocked mode t pending reads active)"
proof (induction E lg blocked mode t pending reads active rule: walk_graph.induct)
  case (1 E lg blocked mode t pending reads active)
  show ?case
    unfolding walk_graph.simps [of _ _ _ _ t]
  proof (rule safely_attemptI, goal_cases)
    case (1 filled)
    obtain pending' reads' active' where filled: "filled = (pending', reads', active')" by (cases filled)
    note fill = 1 [unfolded filled]
    have "yields (unblocked blocked) (await_try (read_graph_children E lg obj) (\<lambda>children.
        attempt (enqueue_all E lg blocked children (t, pending')) (\<lambda>(t, pending).
        walk_graph E lg blocked mode t pending (remove_nth (i mod length reads') reads') (active' - bs))))"
      if "reads' \<noteq> []" "reads' ! (i mod length reads') = (bs, obj)" for i bs obj
    proof (rule yields_try_any, rule safely_attemptI, goal_cases)
      case (1 children entry)
      obtain t' pending'' where entry: "entry = (t', pending'')" by (cases entry)
      note enq = 1 [unfolded entry]
      from "1.IH" [OF fill refl refl that(1) refl refl that(2) [symmetric] enq refl
          enqueue_unblocked [OF enq "1.prems"]]
      show ?case unfolding entry prod.case .
    qed
    with "1.prems" show ?case unfolding filled by (auto simp: Let_def split: prod.splits)
  qed
qed

lemma mark_graph_unblocked:
  "unblocked blocked t \<Longrightarrow> yields (unblocked blocked) (mark_object_graph E lg roots t blocked mode)"
  unfolding mark_object_graph_def
  by (rule safely_attemptI) (auto intro: walk_unblocked enqueue_unblocked split: prod.splits)

text \<open>What a verified set of dependencies is: durable, closed, and outside the active plan.\<close>

definition fenced :: "externals \<Rightarrow> log \<Rightarrow> object_ref list \<Rightarrow> collection_candidate list option \<Rightarrow> bool" where
  "fenced E lg objects blocked \<longleftrightarrow> (\<exists>t. (\<forall>obj\<in>set objects. entered lg t obj) \<and> closed E lg t {} \<and> unblocked blocked t)"

lemma yields_dependencies: "yields (fenced E lg objects) (verify_publication_dependencies E lg v objects)"
  unfolding verify_publication_dependencies_def
proof (rule yields_try_any, goal_cases)
  case (1 blocked)
  have "yields (\<lambda>t. ((\<forall>obj\<in>set objects. entered lg t obj) \<and> closed E lg t {}) \<and> unblocked blocked t)
      (mark_object_graph E lg objects [] blocked VerifyBlobs)"
    by (intro yields_conj mark_graph_unblocked yields_mono [OF mark_graph_closed])
      (auto simp: entered_def unblocked_def)
  then show ?case by (rule yields_try) (auto simp: fenced_def)
qed

end
