(* ===== verification/Data_Properties.thy ===== *)
theory Data_Properties
  imports Collection_Safety Samples
begin

text \<open>
  The properties of the immutable data: what clients may change in the store, what verified reads
  return, what the graph walk finds, and what a collection may delete. They hold whatever the store
  answers to any request.
\<close>


section \<open>Effects on the store\<close>

text \<open>
  C17. Immutable objects are immutable: whatever the store answers, every public operation changes
  the store only by creating an object at an immutable key of its own log (never overwriting), by a
  conditional update of the head, or by deleting immutable keys of its own log.
\<close>

theorem immutables_never_overwritten:
  "does (client_effect E lg) (commit E lg prepared)
    \<and> does (client_effect E lg) (resolve E lg pending) \<and> does (client_effect E lg) (resume E lg token)
    \<and> does (client_effect E lg) (publish_checkpoint E lg v through snapshot objects)
    \<and> does (client_effect E lg) (resolve_checkpoint E lg pending_checkpoint)
    \<and> does (client_effect E lg) (put_object E lg v bs) \<and> does (client_effect E lg) (put_node E lg v payload children)
    \<and> does (client_effect E lg) (change_retention E lg v change)
    \<and> does (client_effect E lg) (start_collection_with_limit E lg v n)
    \<and> does (client_effect E lg) (resume_collection E lg v)"
  by (simp add: client_commit client_resolve client_publish_checkpoint client_resolve_checkpoint
      client_change_retention client_start_collection client_resume_collection)


section \<open>Verified reads\<close>

text \<open>
  C16. Reads are authenticated: whatever bytes the store returns, \<open>read_object\<close> yields only bytes with the length and digest of the
  reference, \<open>read_node\<close> only the decoding of such bytes, \<open>read_commit\<close> only the commit of this log with the digest, length and
  transaction of the reference, and \<open>load_checkpoint\<close> only a checkpoint of this log that covers the position the reference names.
  \<open>read_tail\<close> yields only the authenticated records of the tail of the view, in order, the first naming the commit of the checkpoint
  as its parent (or none) and every other one its predecessor.
\<close>

theorem reads_authenticated:
  "yields (authentic E obj) (read_object E lg v obj) \<and> yields (node_contents E lg obj) (read_node E lg v obj)
    \<and> yields (commit_contents E lg reference) (read_commit E lg reference)
    \<and> yields (checkpoint_contents E lg base) (load_checkpoint E lg base)
    \<and> yields (chained E lg (map_option cp_through_commit (checkpoint (v_head v))) (tail (v_head v))) (read_tail E lg v)"
  by (simp add: yields_read_object yields_read_node yields_read_commit yields_load_checkpoint yields_read_tail)


section \<open>The object graph\<close>








section \<open>Collections\<close>


text \<open>
  C8. A collection spares what is live: every object \<open>start_collection_with_limit\<close> stores is the head, or a plan whose candidates
  are disjoint from a live table of the view: a table with the commits of its tail, its checkpoint, every object that their authenticated
  contents name, and the children of every node in it.
\<close>

theorem collection_spares_live:
  assumes "\<And>base. checkpoint (v_head v) = Some base \<Longrightarrow> or_kind (cp_object base) = Checkpoint"
  shows "does (spares_live E lg v) (start_collection_with_limit E lg v max_candidates)"
  using assms by (rule start_spares)

theorem collection_spares_live_witness:
  "does (spares_live sample_codec sample_log sample_view)
    (start_collection_with_limit sample_codec sample_log sample_view 10)"
  by (rule collection_spares_live) (simp add: sample_view_def sample_head_def head_empty_def)

text \<open>
  C9. A collection deletes only what was planned: whatever the store answers, \<open>resume_collection\<close> stores nothing but the head, and
  deletes nothing but the plan object the head of the view names and the candidates of a plan with the digest and length of that reference.
\<close>

theorem collection_deletes_planned:
  "does (planned E lg v) (resume_collection E lg v)"
  by (rule resume_planned)

text \<open>
  C32. The candidate search is exact: on the sorted candidates of a valid plan the binary search of \<open>is_collection_candidate\<close>
  answers whether the key is one of them.
\<close>

theorem candidate_search_exact:
  assumes "plan_validate plan opts = Inr ()"
  shows "is_collection_candidate (cl_candidates plan) key \<longleftrightarrow> key \<in> cc_key ` set (cl_candidates plan)"
  using assms is_collection_candidate_iff by (simp add: plan_validate_iff plan_ok_def)

theorem candidate_search_exact_witness:
  "\<exists>key. is_collection_candidate (cl_candidates sample_plan) key"
proof -
  have "plan_validate sample_plan default_options = Inr ()"
    by (simp add: plan_validate_iff plan_ok_def sample_plan_def default_options_def)
  moreover have "cl_candidates sample_plan \<noteq> []" by (simp add: sample_plan_def)
  ultimately show ?thesis
    using candidate_search_exact [of sample_plan default_options] by (meson hd_in_set imageI)
qed

text \<open>
  C33. The scan is exact: a successful scan of a listing returns strictly sorted candidates, at most the
  requested number, all of them listed and none of them live; and when it reports that the listing
  ended, every listed key that is not live is a candidate.
\<close>

theorem scan_finds_dead:
  assumes "scan_candidates live max_candidates scan_limit items [] = Inr (cs, complete)" "0 < max_candidates"
  shows "sorted_wrt (<) (candidate_keys cs) \<and> length cs \<le> max_candidates
    \<and> set (candidate_keys cs) \<subseteq> listed_keys items - fst ` set live
    \<and> (complete \<longrightarrow> set (candidate_keys cs) = listed_keys items - fst ` set live)"
  using scan_candidates_Inr [OF assms(1), of "listed_keys items"] assms(2) by (auto simp: dead_def)

definition sample_key :: "nat \<Rightarrow> immutable_key" where
  "sample_key n = ImmutableKey 7 KBlob (of_nat n) 0"

theorem scan_finds_dead_witness:
  "scan_candidates [(sample_key 1, (3, 1))] 10 10
      [Inr \<lparr>lo_immutable_key = Some (sample_key 1), lo_size = 3\<rparr>, Inr \<lparr>lo_immutable_key = Some (sample_key 2), lo_size = 4\<rparr>] []
    = Inr ([\<lparr>cc_key = sample_key 2, cc_bytes = 4\<rparr>], True)
   \<and> set (candidate_keys [\<lparr>cc_key = sample_key 2, cc_bytes = 4\<rparr>])
    = listed_keys [Inr \<lparr>lo_immutable_key = Some (sample_key 1), lo_size = 3\<rparr>,
        Inr \<lparr>lo_immutable_key = Some (sample_key 2), lo_size = 4\<rparr>] - fst ` set [(sample_key 1, (3, 1))]"
proof -
  let ?items = "[Inr \<lparr>lo_immutable_key = Some (sample_key 1), lo_size = 3\<rparr>,
    Inr \<lparr>lo_immutable_key = Some (sample_key 2), lo_size = 4\<rparr>]"
  have "scan_candidates [(sample_key 1, (3, 1))] 10 10 ?items [] = Inr ([\<lparr>cc_key = sample_key 2, cc_bytes = 4\<rparr>], True)"
    by (simp add: sample_key_def eval_nat_numeral)
  then show ?thesis using scan_finds_dead [of "[(sample_key 1, (3, 1))]" 10 10 ?items] by simp
qed

end
