(* ===== verification/Admission.thy ===== *)
theory Admission
  imports Effects
begin

text \<open>
  Request guards. Every request that a log sends to the store is admitted first: since the previous
  request, every guard of the store was asked, in attachment order, for exactly this request (a
  write for its length, a batched delete for its number of keys), and every one allowed it.
\<close>


section \<open>Admitted requests\<close>

text \<open>\<open>asked\<close> lists the approvals since the last request, refusal or start.\<close>

type_synonym approvals = "(addr \<times> request) list"

abbreviation approved :: "addr list \<Rightarrow> request \<Rightarrow> approvals" where
  "approved gs req \<equiv> map (\<lambda>g. (g, req)) gs"

primrec admitted :: "addr list \<Rightarrow> approvals \<Rightarrow> ('a \<Rightarrow> approvals \<Rightarrow> bool) \<Rightarrow> 'a prog \<Rightarrow> bool" where
  "admitted gs asked Q (Done x) = Q x asked"
| "admitted gs asked Q (Get p tag k) = ((\<exists>n. asked = approved gs (Read n)) \<and> (\<forall>r. admitted gs [] Q (k r)))"
| "admitted gs asked Q (Put p bs mode k) =
    (asked = approved gs (Write (length bs)) \<and> (\<forall>r. admitted gs [] Q (k r)))"
| "admitted gs asked Q (ListPrefix p k) = (asked = approved gs ListObjects \<and> (\<forall>r. admitted gs [] Q (k r)))"
| "admitted gs asked Q (DeleteStream ps k) =
    (asked = approved gs (DeleteObjects (length ps)) \<and> (\<forall>r. admitted gs [] Q (k r)))"
| "admitted gs asked Q (Delete p k) = False"
| "admitted gs asked Q (Ask g req k) = (admitted gs (asked @ [(g, req)]) Q (k True) \<and> admitted gs [] Q (k False))"
| "admitted gs asked Q (NewUuid k) = (\<forall>r. admitted gs asked Q (k r))"
| "admitted gs asked Q (Alloc k) = (\<forall>r. admitted gs asked Q (k r))"
| "admitted gs asked Q (TailProof a k) = (\<forall>r. admitted gs asked Q (k r))"
| "admitted gs asked Q (SetTailProof a d k) = admitted gs asked Q k"
| "admitted gs asked Q (PlanCell a k) = (\<forall>r. admitted gs asked Q (k r))"
| "admitted gs asked Q (InitPlanCell a c k) = (\<forall>r. admitted gs asked Q (k r))"
| "admitted gs asked Q (Next n k) = (\<forall>r. admitted gs asked Q (k r))"

abbreviation tidy :: "addr list \<Rightarrow> 'a prog \<Rightarrow> bool" where
  "tidy gs \<equiv> admitted gs [] (\<lambda>_ asked. asked = [])"

lemma admitted_await: "admitted gs asked Q (await p f) \<longleftrightarrow> admitted gs asked (\<lambda>x a. admitted gs a Q (f x)) p"
  by (induction p arbitrary: asked) simp_all

lemma admitted_mono:
  "admitted gs asked Q p \<Longrightarrow> (\<And>x a. Q x a \<Longrightarrow> Q' x a) \<Longrightarrow> admitted gs asked Q' p"
  by (induction p arbitrary: asked) auto

lemma tidy_return [simp]: "tidy gs (succeed x)" "tidy gs (fail_with e)"
  by (simp_all add: succeed_def fail_with_def)

lemma tidy_await [simp]: "tidy gs p \<Longrightarrow> (\<And>x. tidy gs (f x)) \<Longrightarrow> tidy gs (await p f)"
  unfolding admitted_await by (erule admitted_mono) simp

lemma tidy_await_try [simp]: "tidy gs p \<Longrightarrow> (\<And>x. tidy gs (f x)) \<Longrightarrow> tidy gs (await_try p f)"
  unfolding await_try_def by (intro tidy_await) (auto split: sum.splits)

lemma tidy_attempt [simp]: "(\<And>x. r = Inr x \<Longrightarrow> tidy gs (f x)) \<Longrightarrow> tidy gs (attempt r f)"
  by (cases r) simp_all


section \<open>Store operations\<close>

lemma ask_guards_admitted:
  "Q (Inr ()) (asked @ approved hs req) \<Longrightarrow> Q (Inl RequestDenied) [] \<Longrightarrow> admitted gs asked Q (ask_guards hs req)"
  by (induction hs arbitrary: asked) (auto simp: succeed_def fail_with_def)

lemma tidy_admit:
  assumes "admitted (ss_guards s) (approved (ss_guards s) req) (\<lambda>_ asked. asked = []) k"
  shows "tidy (ss_guards s) (await_try (admit s req) (\<lambda>_. k))"
  unfolding await_try_def admitted_await admit_def
  by (rule ask_guards_admitted) (use assms in \<open>simp_all\<close>)

lemma tidy_retry_from:
  assumes "admitted (ss_guards s) (approved (ss_guards s) (Read max_bytes)) (\<lambda>_ asked. asked = []) p"
  shows "tidy (ss_guards s) (retry_safe_read_from n s max_bytes p)"
proof (induction n)
  case (Suc n)
  show ?case
    unfolding retry_safe_read_from.simps
    by (rule tidy_admit) (unfold admitted_await, rule admitted_mono [OF assms], use Suc in simp)
qed (use assms in \<open>simp add: tidy_admit\<close>)

lemma tidy_read_with [simp]: "tidy (ss_guards s) (read_with E s key max_bytes collect)"
  unfolding read_with_def retry_safe_read_def
  by (intro tidy_retry_from) (auto split: sum.splits store_error.splits)

lemma tidy_read [simp]:
  "tidy (ss_guards s) (read E s key max_bytes)" "tidy (ss_guards s) (read_integrity E s key max_bytes)"
  by (simp_all add: read_def read_integrity_def)

lemma tidy_read_if_changed [simp]: "tidy (ss_guards s) (read_if_changed E s key observed max_bytes)"
  unfolding read_if_changed_def retry_safe_read_def
  by (auto intro!: tidy_retry_from split: sum.splits store_error.splits option.splits)

lemma tidy_create [simp]: "tidy (ss_guards s) (create E s key bs)"
  unfolding create_def by (rule tidy_admit) (auto split: sum.splits store_error.splits)

lemma tidy_update [simp]: "tidy (ss_guards s) (update E s key bs v)"
  unfolding update_def by (rule tidy_admit) (auto split: sum.splits store_error.splits)

lemma tidy_list_scoped [simp]: "tidy (ss_guards s) (list_scoped E s)"
  unfolding list_scoped_def admitted_await admit_def by (rule ask_guards_admitted) simp_all

lemma tidy_delete_batch [simp]: "tidy (ss_guards s) (delete_immutable_batch E s keys)"
proof -
  have "tidy (ss_guards s) (await_try (admit s (DeleteObjects (length keys))) (\<lambda>_.
      DeleteStream (map (immutable_location E s) keys) (\<lambda>results.
        case first_delete_error results of Some error \<Rightarrow> fail_with (Store error) | None \<Rightarrow> succeed ())))"
    by (rule tidy_admit) (auto split: option.splits)
  then show ?thesis by (simp add: delete_immutable_batch_def)
qed


section \<open>Log operations\<close>

lemma tidy_new_view [simp]: "tidy (ss_guards (lg_store lg)) (new_view h v)"
  by (simp add: new_view_def)

lemma tidy_view_from_stored [simp]: "tidy (ss_guards (lg_store lg)) (view_from_stored E lg stored)"
  by (simp add: view_from_stored_def)

lemma tidy_load [simp]: "tidy (ss_guards (lg_store lg)) (load E lg)"
  by (simp add: load_def)

lemma tidy_refresh [simp]: "tidy (ss_guards (lg_store lg)) (refresh E lg v)"
  unfolding refresh_def by (auto split: conditional_read.splits)

lemma tidy_read_immutable_optional [simp]: "tidy (ss_guards (lg_store lg)) (read_immutable_optional E lg obj)"
  unfolding read_immutable_optional_def by (auto split: option.splits)

lemma tidy_read_immutable [simp]: "tidy (ss_guards (lg_store lg)) (read_immutable E lg obj)"
  by (simp add: read_immutable_def)

lemma tidy_missing_read_error [simp]: "tidy (ss_guards (lg_store lg)) (missing_read_error E lg v)"
  by (simp add: missing_read_error_def)

lemma tidy_verify_object_durable [simp]: "tidy (ss_guards (lg_store lg)) (verify_object_durable E lg obj)"
  unfolding verify_object_durable_def by (auto split: prod.splits)

lemma tidy_read_commit_optional [simp]: "tidy (ss_guards (lg_store lg)) (read_commit_optional E lg reference)"
  unfolding read_commit_optional_def by (auto split: option.splits)

lemma tidy_read_commit [simp]: "tidy (ss_guards (lg_store lg)) (read_commit E lg reference)"
  by (simp add: read_commit_def)

lemma tidy_fold_tail [simp]: "tidy (ss_guards (lg_store lg)) (fold_tail E lg v f parent s references)"
  by (induction references arbitrary: parent s) (auto split: option.splits)

lemma tidy_tail_records [simp]: "tidy (ss_guards (lg_store lg)) (tail_records E lg v f s)"
  by (simp add: tail_records_def)

lemma tidy_tail_proof [simp]: "tidy (ss_guards (lg_store lg)) (remember_tail lg v)" "tidy (ss_guards (lg_store lg)) (tail_is_verified lg v)"
  by (simp_all add: remember_tail_def tail_is_verified_def)

lemma tidy_verify_tail [simp]: "tidy (ss_guards (lg_store lg)) (verify_tail E lg v)"
  by (simp add: verify_tail_def)

lemma tidy_load_checkpoint [simp]: "tidy (ss_guards (lg_store lg)) (load_checkpoint E lg reference)"
  by (simp add: load_checkpoint_def)

lemma tidy_read_collection_plan [simp]: "tidy (ss_guards (lg_store lg)) (read_collection_plan E lg h reference)"
  unfolding read_collection_plan_def by (auto simp: Let_def split: option.splits)

lemma tidy_active_candidates [simp]: "tidy (ss_guards (lg_store lg)) (active_collection_candidates E lg v)"
  unfolding active_collection_candidates_def by (auto split: option.splits)

lemma tidy_read_graph_children [simp]: "tidy (ss_guards (lg_store lg)) (read_graph_children E lg obj)"
  unfolding read_graph_children_def by (auto split: object_kind.splits)

lemma tidy_walk_graph [simp]: "tidy (ss_guards (lg_store lg)) (walk_graph E lg blocked mode visited pending reads active)"
proof (induction E lg blocked mode visited pending reads active rule: walk_graph.induct)
  case (1 E lg blocked mode visited pending reads active)
  then show ?case
    by (subst walk_graph.simps) (auto simp: Let_def split: prod.splits)
qed

lemma tidy_mark_object_graph [simp]: "tidy (ss_guards (lg_store lg)) (mark_object_graph E lg roots visited blocked mode)"
  unfolding mark_object_graph_def by (auto split: prod.splits)

lemma tidy_verify_publication [simp]:
  "tidy (ss_guards (lg_store lg)) (verify_publication_dependencies E lg v objects)"
  "tidy (ss_guards (lg_store lg)) (verify_publication E lg v key objects staging)"
  "tidy (ss_guards (lg_store lg)) (verify_object_graph E lg objects)"
  "tidy (ss_guards (lg_store lg)) (verify_published_commit E lg reference)"
  by (simp_all add: verify_publication_dependencies_def verify_publication_def verify_object_graph_def
    verify_published_commit_def)

lemma tidy_mark_live [simp]: "tidy (ss_guards (lg_store lg)) (mark_live E lg v)"
  unfolding mark_live_def by (auto split: prod.splits option.splits)

lemma tidy_ensure_immutable [simp]: "tidy (ss_guards (lg_store lg)) (ensure_immutable E lg key bs)"
  unfolding ensure_immutable_def by (auto simp: Let_def split: sum.splits bool.splits option.splits)

lemma tidy_create_fresh_from [simp]: "tidy (ss_guards (lg_store lg)) (create_fresh_from E lg blocked obj bs n)"
  by (induction n) auto

lemma tidy_create_fresh [simp]:
  "tidy (ss_guards (lg_store lg)) (create_fresh_object_with E lg kind bs subtree blocked)"
  by (simp add: create_fresh_object_with_def)

lemma tidy_create_plan_from [simp]: "tidy (ss_guards (lg_store lg)) (create_plan_from E lg reference bs n)"
  by (induction n) auto

lemma tidy_create_collection_plan [simp]: "tidy (ss_guards (lg_store lg)) (create_collection_plan E lg plan)"
  by (simp add: create_collection_plan_def)

lemma tidy_cleanup [simp]: "tidy (ss_guards (lg_store lg)) (cleanup_collection_plan E lg key)"
  by (simp add: cleanup_collection_plan_def)

lemma tidy_delete_batches [simp]: "tidy (ss_guards (lg_store lg)) (delete_batches E lg batches report)"
  by (induction batches arbitrary: report) (auto simp: Let_def split: sum.splits error.splits)

lemma tidy_update_head [simp]: "tidy (ss_guards (lg_store lg)) (update_head E lg v h)"
  unfolding update_head_def by (auto split: option.splits)

lemma tidy_verify_checkpoint [simp]:
  "tidy (ss_guards (lg_store lg)) (verify_checkpoint E lg reference)"
  "tidy (ss_guards (lg_store lg)) (verify_checkpoint_publication E lg pending)"
  by (simp_all add: verify_checkpoint_def verify_checkpoint_publication_def Let_def)


section \<open>Public operations\<close>

lemma tidy_publish_from [simp]: "tidy (ss_guards (lg_store lg)) (publish_from E lg candidate compatible further v)"
proof (induction further arbitrary: v rule: less_induct)
  case (less further)
  then show ?case
    by (subst publish_from.simps) (auto split: sum.splits option.splits error.splits nat.splits)
qed

lemma tidy_publish_head [simp]:
  "tidy (ss_guards (lg_store lg)) (publish_head E lg v candidate)"
  "tidy (ss_guards (lg_store lg)) (publish_checkpoint_head E lg v candidate)"
  by (simp_all add: publish_head_def publish_checkpoint_head_def publish_head_compatible_def)

lemma tidy_commit: "tidy (ss_guards (lg_store lg)) (commit E lg prepared)"
  unfolding commit_def
  by (auto simp: Let_def split: prod.splits head_publication.splits resolution.splits)

lemma tidy_resolve_prepared [simp]: "tidy (ss_guards (lg_store lg)) (resolve_prepared E lg pending prepared)"
  unfolding resolve_prepared_def
  by (auto simp: Let_def split: prod.splits option.splits sum.splits error.splits head_publication.splits resolution.splits)

lemma tidy_resume [simp]: "tidy (ss_guards (lg_store lg)) (resume E lg token)"
  unfolding resume_def
  by (auto simp: Let_def split: prod.splits option.splits resolution.splits)

lemma tidy_resolve: "tidy (ss_guards (lg_store lg)) (resolve E lg pending)"
  by (auto simp: resolve_def split: option.splits)

lemma tidy_publish_checkpoint: "tidy (ss_guards (lg_store lg)) (publish_checkpoint E lg v through snapshot objects)"
  unfolding publish_checkpoint_def
  by (auto simp: Let_def split: head_publication.splits)

lemma tidy_resolve_checkpoint: "tidy (ss_guards (lg_store lg)) (resolve_checkpoint E lg pending)"
  unfolding resolve_checkpoint_def
  by (auto simp: Let_def split: option.splits sum.splits error.splits head_publication.splits checkpoint_evidence.splits)

lemma tidy_put_object [simp]: "tidy (ss_guards (lg_store lg)) (put_object E lg v bs)"
  by (simp add: put_object_def)

lemma tidy_put_node [simp]: "tidy (ss_guards (lg_store lg)) (put_node E lg v payload children)"
  by (simp add: put_node_def Let_def)

lemma tidy_change_retention_from [simp]:
  "tidy (ss_guards (lg_store lg)) (change_retention_from E lg v change further cur)"
proof (induction further arbitrary: cur rule: less_induct)
  case (less further)
  then show ?case
    by (subst change_retention_from.simps)
      (auto simp: Let_def split: sum.splits option.splits error.splits nat.splits)
qed

lemma tidy_change_retention: "tidy (ss_guards (lg_store lg)) (change_retention E lg v change)"
  by (auto simp: change_retention_def Let_def split: option.splits)

lemma tidy_start_collection: "tidy (ss_guards (lg_store lg)) (start_collection_with_limit E lg v n)"
  unfolding start_collection_with_limit_def install_plan_def
  by (auto simp: Let_def split: prod.splits sum.splits option.splits error.splits)

lemma tidy_clear_plan [simp]:
  "tidy (ss_guards (lg_store lg)) (clear_plan_from E lg plan_ref plan_key report further cur)"
proof (induction further arbitrary: cur rule: less_induct)
  case (less further)
  then show ?case
    by (subst clear_plan_from.simps) (auto split: sum.splits option.splits error.splits nat.splits)
qed

lemma tidy_resume_collection: "tidy (ss_guards (lg_store lg)) (resume_collection E lg v)"
  unfolding resume_collection_def clear_collection_plan_def
  by (auto simp: Let_def split: option.splits sum.splits)

lemma tidy_write_loop [simp]: "tidy (ss_guards (lg_store (bw_log w))) (write_loop E w data)"
proof (induction E w data rule: write_loop.induct)
  case (1 E w data)
  then show ?case
    by (subst write_loop.simps) (auto simp: Let_def split: sum.splits)
qed

lemma tidy_writer: "tidy (ss_guards (lg_store (bw_log w))) (writer_write E w data)"
    "tidy (ss_guards (lg_store (bw_log w))) (writer_finish E w)"
proof -
  show "tidy (ss_guards (lg_store (bw_log w))) (writer_write E w data)"
    unfolding writer_write_def Let_def
    using tidy_write_loop [of "w\<lparr>bw_failed := True\<rparr>" E data]
    by (auto intro!: tidy_await split: option.splits prod.splits)
  show "tidy (ss_guards (lg_store (bw_log w))) (writer_finish E w)"
    unfolding writer_finish_def by (auto split: list.splits)
qed

end
