(* ===== verification/Request_Bounds.thy ===== *)
theory Request_Bounds
  imports Effects
begin

text \<open>
  How many requests an operation may issue. A read is tried at most three times, and a publication,
  a retention change and the clearing of a plan update the head at most sixteen times, with one
  reload between two attempts. The weights \<open>a\<close> of a read and \<open>b\<close> of a write keep both counts in one bound.
\<close>

lemma within_last: "within g u n p \<Longrightarrow> (\<And>x. within g u 0 (f x)) \<Longrightarrow> within g u n (await p f)"
  using within_then [of g u n p 0 f] by simp

lemma within_try_last: "within g u n p \<Longrightarrow> (\<And>x. within g u 0 (f x)) \<Longrightarrow> within g u n (await_try p f)"
  using within_try [of g u n p 0 f] by simp

lemma within_ask_guards [simp]: "within g u n (ask_guards gs req)"
  by (induction gs) auto

lemma within_admit [simp]: "within g u n (admit s req)"
  by (simp add: admit_def)

lemma within_retry_from:
  assumes "\<And>m. within g u (m + k) p"
  shows "within g u (Suc n * k + m) (retry_safe_read_from n s max_bytes p)"
proof (induction n arbitrary: m)
  case 0
  have "within g u (0 + (m + k)) (await_try (admit s (Read max_bytes)) (\<lambda>_. p))"
    by (rule within_try) (use assms in simp_all)
  then show ?case by (simp add: add.commute)
next
  case (Suc n)
  let ?again = "\<lambda>r. if r = Inl (Store Generic) then retry_safe_read_from n s max_bytes p else Done r"
  have "within g u (k + (Suc n * k + m)) (await p ?again)"
    by (rule within_then) (use assms [of 0] Suc in auto)
  then have "within g u (0 + (k + (Suc n * k + m))) (await_try (admit s (Read max_bytes)) (\<lambda>_. await p ?again))"
    by (intro within_try) simp_all
  then show ?case by (simp add: add.assoc)
qed

lemma within_read:
  "within (\<lambda>_. a) u (3 * a + m) (read E s key max_bytes)"
  "within (\<lambda>_. a) u (3 * a + m) (read_integrity E s key max_bytes)"
  "within (\<lambda>_. a) u (3 * a + m) (read_if_changed E s key observed max_bytes)"
proof -
  have get: "within (\<lambda>_. a) u (m + a) (Get p tag (\<lambda>r. case r of
      Inr result \<Rightarrow> attempt (collect result max_bytes) (\<lambda>x. succeed (f x))
    | Inl NotFound \<Rightarrow> succeed c | Inl error \<Rightarrow> fail_with (Store error)))" for p tag collect f c m
    by (auto intro: within_attempt split: sum.splits store_error.splits)
  show "within (\<lambda>_. a) u (3 * a + m) (read E s key max_bytes)"
      "within (\<lambda>_. a) u (3 * a + m) (read_integrity E s key max_bytes)"
    using within_retry_from [OF get, of 2 m]
    by (simp_all add: read_def read_integrity_def read_with_def retry_safe_read_def SAFE_READ_ATTEMPTS_def)
  have changed: "within (\<lambda>_. a) u (m + a) (Get p tag (\<lambda>r. case r of
      Inr result \<Rightarrow> attempt (collect_object E result max_bytes) (\<lambda>x. succeed (Modified x))
    | Inl NotModified \<Rightarrow> succeed Unmodified
    | Inl NotFound \<Rightarrow> succeed Missing | Inl error \<Rightarrow> fail_with (Store error)))" for p tag m
    by (auto intro: within_attempt split: sum.splits store_error.splits)
  show "within (\<lambda>_. a) u (3 * a + m) (read_if_changed E s key observed max_bytes)"
    using within_retry_from [OF changed, of 2 m s max_bytes]
    by (auto simp: read_if_changed_def retry_safe_read_def SAFE_READ_ATTEMPTS_def split: option.splits)
qed

lemma within_new_view [simp]: "within g u n (new_view h v)"
  by (simp add: new_view_def)

lemma within_view_from_stored [simp]: "within g u 0 (view_from_stored E lg stored)"
  unfolding view_from_stored_def by (intro within_attempt within_last) simp_all

lemma within_load: "within (\<lambda>_. a) u (3 * a) (load E lg)"
  unfolding load_def using within_read(1) [of a u 0] by (intro within_try_last within_attempt) simp_all

lemma within_refresh: "within (\<lambda>_. a) u (3 * a) (refresh E lg v)"
  unfolding refresh_def using within_read(3) [of a u 0]
  by (intro within_attempt within_try_last) (auto intro: within_try_last split: conditional_read.splits)

lemma within_update_head: "within g (\<lambda>_. b) b (update_head E lg v h)"
proof -
  have "within g (\<lambda>_. b) (0 + b) (update E s key bs ver)" for s key bs ver
    unfolding update_def by (rule within_try) (auto split: sum.splits store_error.splits)
  then show ?thesis
    unfolding update_head_def
    by (intro within_attempt within_try_last) (auto intro!: within_last split: option.splits)
qed


section \<open>Bounded publication\<close>

text \<open>One attempt: an update and, when it was refused, a reload.\<close>

lemma within_attempt_head:
  assumes "\<And>loaded. within (\<lambda>_. a) (\<lambda>_. b) m (reload loaded)" "\<And>x. within (\<lambda>_. a) (\<lambda>_. b) m (failed x)"
    and "\<And>v. within (\<lambda>_. a) (\<lambda>_. b) m (written v)"
  shows "within (\<lambda>_. a) (\<lambda>_. b) (b + 3 * a + m) (await (update_head E lg v h) (\<lambda>updated. case updated of
      Inr (Some next_view) \<Rightarrow> written next_view
    | Inr None \<Rightarrow> await (load E lg) reload
    | Inl e \<Rightarrow> failed e))"
proof -
  have "within (\<lambda>_. a) (\<lambda>_. b) (3 * a + m) (failed x)" "within (\<lambda>_. a) (\<lambda>_. b) (3 * a + m) (written u)" for x u
    by (rule within_mono [OF assms(2)] within_mono [OF assms(3)], simp)+
  then have "within (\<lambda>_. a) (\<lambda>_. b) (3 * a + m) (case updated of
      Inr (Some next_view) \<Rightarrow> written next_view | Inr None \<Rightarrow> await (load E lg) reload | Inl e \<Rightarrow> failed e)" for updated
    using within_then [OF within_load [of a], of _ m reload] assms(1)
    by (auto split: sum.splits option.splits)
  from within_then [OF within_update_head this] show ?thesis by (simp add: add.assoc)
qed

lemma within_publish_from:
  "within (\<lambda>_. a) (\<lambda>_. b) (Suc further * (b + 3 * a)) (publish_from E lg candidate compatible further v)"
proof (induction further arbitrary: v rule: less_induct)
  case (less further)
  have again: "within (\<lambda>_. a) (\<lambda>_. b) (further * (b + 3 * a)) (case further of
      0 \<Rightarrow> succeed (HeadContended u) | Suc n \<Rightarrow> publish_from E lg candidate compatible n u)" for u
    using less by (cases further) simp_all
  show ?case
    unfolding publish_from.simps [of _ _ _ _ further] mult_Suc
    by (intro within_attempt within_attempt_head) (auto intro!: within_attempt again split: option.splits error.splits)
qed

lemma within_change_retention_from:
  "within (\<lambda>_. a) (\<lambda>_. b) (Suc further * (b + 3 * a)) (change_retention_from E lg v change further cur)"
proof (induction further arbitrary: cur rule: less_induct)
  case (less further)
  then show ?case
    unfolding change_retention_from.simps [of _ _ _ _ further] mult_Suc
    by (intro within_attempt within_attempt_head)
      (auto intro!: within_attempt simp: Let_def split: option.splits error.splits nat.splits)
qed

lemma within_publish_head:
  "within (\<lambda>_. a) (\<lambda>_. b) (16 * (b + 3 * a)) (publish_head E lg v candidate)"
  "within (\<lambda>_. a) (\<lambda>_. b) (16 * (b + 3 * a)) (publish_checkpoint_head E lg v candidate)"
  using within_publish_from [of a b 15]
  by (simp_all add: publish_head_def publish_checkpoint_head_def publish_head_compatible_def
      MAX_HEAD_PUBLICATION_ATTEMPTS_def)

lemma within_change_retention:
  "within (\<lambda>_. a) (\<lambda>_. b) (16 * (b + 3 * a)) (change_retention E lg v change)"
proof -
  have "within (\<lambda>_. a) (\<lambda>_. b) (16 * (b + 3 * a)) (refresh E lg v)"
    by (rule within_mono [OF within_refresh]) simp
  then show ?thesis
    unfolding change_retention_def Let_def
    using within_change_retention_from [of a b 15]
    by (intro within_attempt) (auto intro!: within_try_last simp: MAX_HEAD_PUBLICATION_ATTEMPTS_def split: option.splits)
qed

end
