(* ===== verification/Store_Properties.thy ===== *)
theory Store_Properties
  imports Admission Request_Bounds Samples
begin

text \<open>
  The properties of the scoped store and of the requests a log issues: admission, bounds on the number of requests
  and on the bytes read, and the correspondence between keys and locations.
\<close>


section \<open>Requests\<close>

text \<open>
  C18. Every request is admitted: whatever the store and the guards answer, an operation of a log sends a request to
  the store only when, since its previous request, every request guard of the handle was asked, in attachment
  order, for exactly this request (a write with its length, a delete with its number of keys) and every one
  allowed it. In particular a refused request is never sent, and each retry is admitted again.
\<close>

theorem requests_admitted:
  "tidy (ss_guards (lg_store lg)) (commit E lg prepared)
    \<and> tidy (ss_guards (lg_store lg)) (resolve E lg pending) \<and> tidy (ss_guards (lg_store lg)) (resume E lg token)
    \<and> tidy (ss_guards (lg_store lg)) (publish_checkpoint E lg v through snapshot objects)
    \<and> tidy (ss_guards (lg_store lg)) (resolve_checkpoint E lg pending_checkpoint)
    \<and> tidy (ss_guards (lg_store lg)) (put_object E lg v bs) \<and> tidy (ss_guards (lg_store lg)) (put_node E lg v payload children)
    \<and> tidy (ss_guards (lg_store lg)) (change_retention E lg v change)
    \<and> tidy (ss_guards (lg_store lg)) (start_collection_with_limit E lg v n)
    \<and> tidy (ss_guards (lg_store lg)) (resume_collection E lg v)
    \<and> tidy (ss_guards (lg_store lg)) (load E lg) \<and> tidy (ss_guards (lg_store lg)) (refresh E lg v)"
  by (simp add: tidy_commit tidy_resolve tidy_publish_checkpoint tidy_resolve_checkpoint
      tidy_change_retention tidy_start_collection tidy_resume_collection)

text \<open>
  C19. Publication ends: whatever the store answers, a read of the head is requested at most three times, and a head publication (of a
  commit or of a checkpoint) and a retention change each issue at most sixteen head writes and at most
  48 reads. With \<open>a\<close> the weight of a read and \<open>b\<close> that of a write, no run exceeds the total weight.
\<close>

theorem publication_requests_bounded:
  "within (\<lambda>_. a) (\<lambda>_. b) (3 * a) (load E lg)
    \<and> within (\<lambda>_. a) (\<lambda>_. b) (16 * (b + 3 * a)) (publish_head E lg v candidate)
    \<and> within (\<lambda>_. a) (\<lambda>_. b) (16 * (b + 3 * a)) (publish_checkpoint_head E lg v candidate)
    \<and> within (\<lambda>_. a) (\<lambda>_. b) (16 * (b + 3 * a)) (change_retention E lg v change)"
  by (intro conjI within_load within_publish_head within_change_retention)


section \<open>Bounded reads\<close>

lemma collect_chunks_iff:
  assumes "length bs \<le> max_bytes" "length bs \<le> usize_MAX E"
  shows "collect_chunks E max_bytes bs cs = Inr out \<longleftrightarrow>
    (\<exists>parts. cs = map Inr parts \<and> out = bs @ concat parts \<and> length out \<le> max_bytes \<and> length out \<le> usize_MAX E)"
  using assms
proof (induction E max_bytes bs cs rule: collect_chunks.induct)
  case (2 E max_bytes bs chunk cs)
  show ?case
  proof (cases chunk)
    case (Inl e)
    then show ?thesis by (auto simp: Cons_eq_map_conv)
  next
    case (Inr part)
    show ?thesis
    proof (cases "length bs + length part \<le> min max_bytes (usize_MAX E)")
      case True
      with "2.IH" [of "length bs + length part" part] show ?thesis
        by (auto simp: Inr usize_checked_add_def Cons_eq_map_conv)
    next
      case False
      then show ?thesis by (auto simp: Inr usize_checked_add_def and_then_Inr Cons_eq_map_conv ok_or_Inr)
    qed
  qed
qed auto

text \<open>
  C39. A read never buffers more than its limit: \<open>collect_object\<close> succeeds exactly when the announced size fits
  the limit and the address space, no chunk failed, and the chunks together are within the limit; it then returns their
  concatenation with the version of the response. Every other response is an error, whatever size was announced.
\<close>

theorem collect_object_bounded:
  "collect_object E r max_bytes = Inr stored \<longleftrightarrow>
    max_bytes < 2 ^ 64 \<and> unat (gr_size r) \<le> max_bytes \<and> unat (gr_size r) \<le> usize_MAX E
    \<and> (\<exists>parts. gr_chunks r = map Inr parts \<and> length (concat parts) \<le> max_bytes \<and> length (concat parts) \<le> usize_MAX E
        \<and> stored = \<lparr>so_bytes = concat parts, so_version = gr_version r\<rparr>)"
  by (auto simp: collect_object_def and_then_Inr ok_or_Inr checked_simps collect_chunks_iff word_less_nat_alt not_less
      usize_try_from_def u64_try_from_def unat_of_nat take_bit_eq_mod split: if_splits)


section \<open>Keys and locations\<close>

text \<open>What the code relies on of the text forms of UUIDs and of hexadecimal digests.\<close>

locale text_forms =
  fixes E :: externals
  assumes uuid_round: "uuid_parse_str E (uuid_simple E u) = Some u"
    and hex_round: "hex_decode E (hex_encode E bs) = Some bs"
begin

lemma digest_round: "digest_from_str E (digest_to_string E d) = Inr d"
  by (simp add: digest_from_str_def digest_to_string_def hex_round digest_as_bytes_def DIGEST_LEN_def)

lemma parse_simple_iff: "parse_simple_uuid E s = Some u \<longleftrightarrow> s = uuid_simple E u"
  by (auto simp: parse_simple_uuid_def uuid_round split: option.splits)

lemma from_segment_iff: "from_segment s = Some k \<longleftrightarrow> s = segment k"
  by (cases k) (auto simp: from_segment_def)

lemma classify_iff:
  "classify_immutable E (ss_scope s) loc = Some key \<longleftrightarrow> loc = immutable_location E s key"
proof
  assume "classify_immutable E (ss_scope s) loc = Some key"
  then obtain a b c d where parts: "strip_prefix (ss_scope s) loc = Some [''data'', a, b, c, d]"
    and fields: "parse_simple_uuid E a = Some (k_incarnation key)" "from_segment b = Some (k_kind key)"
      "parse_simple_uuid E c = Some (k_storage_id key)" "d = digest_to_string E (k_digest key)"
    by (auto simp: classify_immutable_def split: option.splits list.splits sum.splits if_splits)
  from parts have "loc = ss_scope s @ [''data'', a, b, c, d]" by (simp add: strip_prefix_Some)
  with fields show "loc = immutable_location E s key"
    by (simp add: immutable_location_def parse_simple_iff from_segment_iff)
next
  assume loc: "loc = immutable_location E s key"
  have "parse_simple_uuid E (uuid_simple E u) = Some u" "from_segment (segment k) = Some k" for u k
    by (simp_all add: parse_simple_iff from_segment_iff)
  then show "classify_immutable E (ss_scope s) loc = Some key"
    by (cases key) (simp add: loc classify_immutable_def immutable_location_def digest_round)
qed

end

lemma hex_value_digit [simp]: "n < 16 \<Longrightarrow> hex_value (hex_digit n) = Some n"
  by (auto simp: hex_value_def hex_digit_def Let_def)

lemma hex_decode_encode: "rfc_hex_decode (rfc_hex_encode bs) = Some bs"
proof (induction bs)
  case (Cons b bs)
  have "unat b div 16 < 16" "unat b mod 16 < 16" "unat b div 16 * 16 + unat b mod 16 = unat b"
    using unat_less_2p [of b] by simp_all
  with Cons show ?case by (simp add: rfc_hex_encode_def)
qed (simp add: rfc_hex_encode_def)

interpretation rfc_text: text_forms "rfc8949 m hash" for m hash
  by unfold_locales
    (simp_all add: rfc8949_def hex_decode_encode rfc_uuid_parse_def uuid_as_bytes_def UUID_LEN_def)

text \<open>
  C38. Locations identify keys: when text forms of UUIDs and hexadecimal strings parse back, a listed location is classified as
  \<open>key\<close> exactly when it is the location of \<open>key\<close> in this scope. Distinct keys have distinct locations, and no
  foreign, malformed or non-canonical location is taken for an immutable object, so a collection can never
  plan the deletion of one.
\<close>

theorem location_classified:
  assumes "text_forms E"
  shows "classify_immutable E (ss_scope s) loc = Some key \<longleftrightarrow> loc = immutable_location E s key"
  using assms by (rule text_forms.classify_iff)

theorem location_classified_witness:
  "classify_immutable sample_codec [''v1'', ''logs'', ''log'']
      (immutable_location sample_codec (lg_store sample_log) (ImmutableKey 7 KBlob 1 2))
    = Some (ImmutableKey 7 KBlob 1 2)"
proof -
  have "text_forms sample_codec" unfolding sample_codec_def by (rule rfc_text.text_forms_axioms)
  from location_classified [OF this, of "lg_store sample_log"] show ?thesis by (simp add: sample_log_def)
qed

end
