(* ===== verification/Fault_State.thy ===== *)
theory Fault_State
  imports Scoped_Store
begin

text \<open>
  The state of the fault-injecting store of \<^verbatim>\<open>src/src/sim.rs\<close>: one-shot failures and
  rejections scheduled by operation and occurrence, one scheduled pause, and the counters and events of
  the requests.
\<close>


section \<open>Data\<close>

datatype operation =
    OpPut | OpMultipartCreate | OpMultipartPart | OpMultipartComplete | OpMultipartAbort
  | OpGet | OpGetRanges | OpDelete | OpList | OpListWithDelimiter | OpCopy | OpRename

datatype failure_phase = PhaseBefore | PhaseAfter

datatype put_rejection = RejectPrecondition | RejectAlreadyExists

record failure =
  fl_operation :: operation
  fl_occurrence :: u64
  fl_phase :: failure_phase

datatype request_outcome = OutcomeSucceeded | OutcomeBackendError | OutcomeInjectedBefore | OutcomeInjectedAfter

record request_event =
  ev_sequence :: u64
  ev_operation :: operation
  ev_occurrence :: u64
  ev_path :: path
  ev_uploaded_bytes :: u64
  ev_downloaded_bytes :: u64
  ev_outcome :: request_outcome

record operation_metrics =
  mt_requests :: u64
  mt_succeeded :: u64
  mt_visible_mutations :: u64
  mt_backend_errors :: u64
  mt_injected_before :: u64
  mt_injected_after :: u64
  mt_uploaded_bytes :: u64
  mt_downloaded_bytes :: u64

definition operation_metrics_default :: operation_metrics where
  "operation_metrics_default = \<lparr>mt_requests = 0, mt_succeeded = 0, mt_visible_mutations = 0, mt_backend_errors = 0,
     mt_injected_before = 0, mt_injected_after = 0, mt_uploaded_bytes = 0, mt_downloaded_bytes = 0\<rparr>"

record metrics =
  me_operations :: "operation \<rightharpoonup> operation_metrics"
  me_events :: "request_event list"

text \<open>The channels of a pause are named by an address.\<close>

record scheduled_pause =
  sp_operation :: operation
  sp_occurrence :: u64
  sp_phase :: failure_phase
  sp_channel :: addr

record fault_state =
  ft_next_sequence :: u64
  ft_metrics :: metrics
  ft_failures :: "failure list"
  ft_rejected_puts :: "(u64 \<times> failure_phase \<times> put_rejection) list"
  ft_pause :: "scheduled_pause option"
  ft_record_events :: bool

definition fault_state_default :: fault_state where
  "fault_state_default = \<lparr>ft_next_sequence = 0, ft_metrics = \<lparr>me_operations = Map.empty, me_events = []\<rparr>,
     ft_failures = [], ft_rejected_puts = [], ft_pause = None, ft_record_events = True\<rparr>"

record request_ticket =
  tk_sequence :: u64
  tk_operation :: operation
  tk_occurrence :: u64
  tk_uploaded_bytes :: u64

record injected_failure =
  if_operation :: operation
  if_occurrence :: u64
  if_phase :: failure_phase
  if_path :: path

datatype fault_error = Backend store_error | Injected injected_failure | Rejected put_rejection injected_failure

text \<open>The error kind the caller sees.\<close>

fun error_kind :: "fault_error \<Rightarrow> store_error" where
  "error_kind (Backend e) = e"
| "error_kind (Injected f) = Generic"
| "error_kind (Rejected RejectPrecondition f) = Precondition"
| "error_kind (Rejected RejectAlreadyExists f) = AlreadyExists"

fun is_injected :: "fault_error \<Rightarrow> bool" where
  "is_injected (Backend e) = False"
| "is_injected _ = True"

definition saturating_add :: "u64 \<Rightarrow> u64 \<Rightarrow> u64" where
  "saturating_add a b = (case checked_add a b of Some c \<Rightarrow> c | None \<Rightarrow> - 1)"

definition saturating_sub :: "u64 \<Rightarrow> u64 \<Rightarrow> u64" where
  "saturating_sub a b = (if b \<le> a then a - b else 0)"

definition usize_to_u64 :: "usize \<Rightarrow> u64" where
  "usize_to_u64 value = (case u64_try_from value of Some v \<Rightarrow> v | None \<Rightarrow> - 1)"

definition is_mutation :: "operation \<Rightarrow> bool" where
  "is_mutation op \<longleftrightarrow> op \<in> {OpPut, OpMultipartComplete, OpDelete, OpCopy, OpRename}"


section \<open>Metrics\<close>

definition metrics_operation :: "metrics \<Rightarrow> operation \<Rightarrow> operation_metrics" where
  "metrics_operation m op = (case me_operations m op of Some x \<Rightarrow> x | None \<Rightarrow> operation_metrics_default)"

definition all_operations :: "operation list" where
  "all_operations = [OpPut, OpMultipartCreate, OpMultipartPart, OpMultipartComplete, OpMultipartAbort,
     OpGet, OpGetRanges, OpDelete, OpList, OpListWithDelimiter, OpCopy, OpRename]"

definition metrics_values :: "metrics \<Rightarrow> operation_metrics list" where
  "metrics_values m = List.map_filter (me_operations m) all_operations"

text \<open>The sums wrap as they do without overflow checks.\<close>

definition total_requests :: "metrics \<Rightarrow> u64" where
  "total_requests m = sum_list (map mt_requests (metrics_values m))"

definition metrics_uploaded_bytes :: "metrics \<Rightarrow> u64" where
  "metrics_uploaded_bytes m = sum_list (map mt_uploaded_bytes (metrics_values m))"

definition metrics_downloaded_bytes :: "metrics \<Rightarrow> u64" where
  "metrics_downloaded_bytes m = sum_list (map mt_downloaded_bytes (metrics_values m))"

definition update_metrics :: "operation \<Rightarrow> (operation_metrics \<Rightarrow> operation_metrics) \<Rightarrow> fault_state \<Rightarrow> fault_state" where
  "update_metrics op f st =
    st\<lparr>ft_metrics := ft_metrics st\<lparr>me_operations :=
      (me_operations (ft_metrics st))(op \<mapsto> f (metrics_operation (ft_metrics st) op))\<rparr>\<rparr>"

text \<open>
  The sort by sequence is unstable in the source; events have distinct sequences until the counter
  saturates.
\<close>

definition fault_metrics :: "fault_state \<Rightarrow> metrics" where
  "fault_metrics st = ft_metrics st\<lparr>me_events := sort_key ev_sequence (me_events (ft_metrics st))\<rparr>"


section \<open>Scheduling\<close>

definition schedule :: "failure \<Rightarrow> fault_state \<Rightarrow> fault_state" where
  "schedule f st =
    (let st = (if fl_operation f = OpPut
               then st\<lparr>ft_rejected_puts := filter (\<lambda>(occurrence, _, _). occurrence \<noteq> fl_occurrence f) (ft_rejected_puts st)\<rparr>
               else st) in
     st\<lparr>ft_failures := filter (\<lambda>s. fl_operation s \<noteq> fl_operation f \<or> fl_occurrence s \<noteq> fl_occurrence f) (ft_failures st)
          @ [f]\<rparr>)"

definition fail_next :: "operation \<Rightarrow> failure_phase \<Rightarrow> fault_state \<Rightarrow> fault_state" where
  "fail_next op phase st =
    (let occurrence = saturating_add (mt_requests (metrics_operation (ft_metrics st) op)) 1;
         st = (if op = OpPut
               then st\<lparr>ft_rejected_puts := filter (\<lambda>(scheduled, _, _). scheduled \<noteq> occurrence) (ft_rejected_puts st)\<rparr>
               else st) in
     st\<lparr>ft_failures := filter (\<lambda>s. fl_operation s \<noteq> op \<or> fl_occurrence s \<noteq> occurrence) (ft_failures st)
          @ [\<lparr>fl_operation = op, fl_occurrence = occurrence, fl_phase = phase\<rparr>]\<rparr>)"

definition reject_put_at :: "u64 \<Rightarrow> failure_phase \<Rightarrow> put_rejection \<Rightarrow> fault_state \<Rightarrow> fault_state" where
  "reject_put_at occurrence phase rejection st =
    st\<lparr>ft_failures := filter (\<lambda>f. fl_operation f \<noteq> OpPut \<or> fl_occurrence f \<noteq> occurrence) (ft_failures st),
       ft_rejected_puts := filter (\<lambda>(scheduled, _, _). scheduled \<noteq> occurrence) (ft_rejected_puts st)
         @ [(occurrence, phase, rejection)]\<rparr>"

definition reject_put_before :: "u64 \<Rightarrow> put_rejection \<Rightarrow> fault_state \<Rightarrow> fault_state" where
  "reject_put_before occurrence rejection = reject_put_at occurrence PhaseBefore rejection"

definition reject_put_after :: "u64 \<Rightarrow> put_rejection \<Rightarrow> fault_state \<Rightarrow> fault_state" where
  "reject_put_after occurrence rejection = reject_put_at occurrence PhaseAfter rejection"

text \<open>\<open>None\<close> is the panic on a second scheduled pause.\<close>

definition schedule_pause ::
    "operation \<Rightarrow> u64 \<Rightarrow> failure_phase \<Rightarrow> addr \<Rightarrow> fault_state \<Rightarrow> fault_state option" where
  "schedule_pause op occurrence phase channel st =
    (if ft_pause st \<noteq> None then None
     else Some (st\<lparr>ft_pause := Some \<lparr>sp_operation = op, sp_occurrence = occurrence, sp_phase = phase,
       sp_channel = channel\<rparr>\<rparr>))"

definition pause_next :: "operation \<Rightarrow> failure_phase \<Rightarrow> addr \<Rightarrow> fault_state \<Rightarrow> fault_state option" where
  "pause_next op phase channel st =
    schedule_pause op (saturating_add (mt_requests (metrics_operation (ft_metrics st) op)) 1) phase channel st"

definition pause_at :: "operation \<Rightarrow> u64 \<Rightarrow> failure_phase \<Rightarrow> addr \<Rightarrow> fault_state \<Rightarrow> fault_state option" where
  "pause_at op occurrence phase channel st = schedule_pause op occurrence phase channel st"

definition pause_next_put :: "failure_phase \<Rightarrow> addr \<Rightarrow> fault_state \<Rightarrow> fault_state option" where
  "pause_next_put = pause_next OpPut"

definition pause_put_at :: "u64 \<Rightarrow> failure_phase \<Rightarrow> addr \<Rightarrow> fault_state \<Rightarrow> fault_state option" where
  "pause_put_at = pause_at OpPut"

definition pause_next_get :: "failure_phase \<Rightarrow> addr \<Rightarrow> fault_state \<Rightarrow> fault_state option" where
  "pause_next_get = pause_next OpGet"

definition pause_get_at :: "u64 \<Rightarrow> failure_phase \<Rightarrow> addr \<Rightarrow> fault_state \<Rightarrow> fault_state option" where
  "pause_get_at = pause_at OpGet"

definition pause_next_delete :: "failure_phase \<Rightarrow> addr \<Rightarrow> fault_state \<Rightarrow> fault_state option" where
  "pause_next_delete = pause_next OpDelete"

definition pause_delete_at :: "u64 \<Rightarrow> failure_phase \<Rightarrow> addr \<Rightarrow> fault_state \<Rightarrow> fault_state option" where
  "pause_delete_at = pause_at OpDelete"

definition clear_failures :: "fault_state \<Rightarrow> fault_state" where
  "clear_failures st = st\<lparr>ft_failures := [], ft_rejected_puts := []\<rparr>"

definition pending_failures :: "fault_state \<Rightarrow> failure list" where
  "pending_failures st = ft_failures st"

definition record_events :: "bool \<Rightarrow> fault_state \<Rightarrow> fault_state" where
  "record_events enabled st = st\<lparr>ft_record_events := enabled\<rparr>"

definition fault_reset :: "fault_state \<Rightarrow> fault_state" where
  "fault_reset st = fault_state_default"

end
