(* ===== verification/Fault_Store.thy ===== *)
theory Fault_Store
  imports Fault_State
begin

text \<open>
  The operations of the fault-injecting store of \<^verbatim>\<open>src/src/sim.rs\<close>. The wrapped
  store is a parameter: an operation of it maps its state to a result and a new state. What other
  tasks do while an operation is paused is a parameter too, a function of the pause and of both states.
\<close>


section \<open>Requests\<close>

definition fault_start :: "operation \<Rightarrow> u64 \<Rightarrow> fault_state \<Rightarrow> request_ticket \<times> fault_state" where
  "fault_start op uploaded_bytes st =
    (let sequence = saturating_add (ft_next_sequence st) 1;
         requests = saturating_add (mt_requests (metrics_operation (ft_metrics st) op)) 1;
         st = update_metrics op (\<lambda>m. m\<lparr>mt_requests := saturating_add (mt_requests m) 1\<rparr>) (st\<lparr>ft_next_sequence := sequence\<rparr>) in
     (\<lparr>tk_sequence = sequence, tk_operation = op, tk_occurrence = requests, tk_uploaded_bytes = uploaded_bytes\<rparr>, st))"

text \<open>\<open>position\<close> followed by \<open>Vec::remove\<close>: the first match and the rest.\<close>

fun take_first :: "('a \<Rightarrow> bool) \<Rightarrow> 'a list \<Rightarrow> ('a \<times> 'a list) option" where
  "take_first P [] = None"
| "take_first P (x # xs) =
    (if P x then Some (x, xs) else map_option (\<lambda>(y, ys). (y, x # ys)) (take_first P xs))"

definition take_failure :: "request_ticket \<Rightarrow> failure_phase \<Rightarrow> fault_state \<Rightarrow> bool \<times> fault_state" where
  "take_failure ticket phase st =
    (case take_first (\<lambda>f. fl_operation f = tk_operation ticket \<and> fl_occurrence f = tk_occurrence ticket
        \<and> fl_phase f = phase) (ft_failures st) of
       None \<Rightarrow> (False, st)
     | Some (_, failures) \<Rightarrow> (True, st\<lparr>ft_failures := failures\<rparr>))"

definition take_rejected_put ::
    "request_ticket \<Rightarrow> failure_phase \<Rightarrow> fault_state \<Rightarrow> put_rejection option \<times> fault_state" where
  "take_rejected_put ticket phase st =
    (if tk_operation ticket \<noteq> OpPut then (None, st)
     else
       (case take_first (\<lambda>(occurrence, scheduled_phase, _). occurrence = tk_occurrence ticket \<and> scheduled_phase = phase)
           (ft_rejected_puts st) of
          None \<Rightarrow> (None, st)
        | Some ((_, _, rejection), rejected) \<Rightarrow> (Some rejection, st\<lparr>ft_rejected_puts := rejected\<rparr>)))"

text \<open>A matching pause is taken out of the state before the operation waits for its release.\<close>

definition enter_pause :: "request_ticket \<Rightarrow> failure_phase \<Rightarrow> fault_state \<Rightarrow> addr option \<times> fault_state" where
  "enter_pause ticket phase st =
    (case ft_pause st of
       Some pause \<Rightarrow>
         if sp_operation pause = tk_operation ticket \<and> sp_occurrence pause = tk_occurrence ticket
           \<and> sp_phase pause = phase
         then (Some (sp_channel pause), st\<lparr>ft_pause := None\<rparr>) else (None, st)
     | None \<Rightarrow> (None, st))"

text \<open>\<open>finish\<close>: the counters of the operation, then the event.\<close>

definition finish_metrics ::
    "request_ticket \<Rightarrow> u64 \<Rightarrow> u64 \<Rightarrow> request_outcome \<Rightarrow> operation_metrics \<Rightarrow> operation_metrics" where
  "finish_metrics ticket uploaded_bytes downloaded_bytes outcome m =
    (let m = m\<lparr>mt_uploaded_bytes := saturating_add (mt_uploaded_bytes m) uploaded_bytes,
               mt_downloaded_bytes := saturating_add (mt_downloaded_bytes m) downloaded_bytes\<rparr>;
         m = (if is_mutation (tk_operation ticket) \<and> (outcome = OutcomeSucceeded \<or> outcome = OutcomeInjectedAfter)
              then m\<lparr>mt_visible_mutations := saturating_add (mt_visible_mutations m) 1\<rparr> else m) in
     case outcome of
       OutcomeSucceeded \<Rightarrow> m\<lparr>mt_succeeded := saturating_add (mt_succeeded m) 1\<rparr>
     | OutcomeBackendError \<Rightarrow> m\<lparr>mt_backend_errors := saturating_add (mt_backend_errors m) 1\<rparr>
     | OutcomeInjectedBefore \<Rightarrow> m\<lparr>mt_injected_before := saturating_add (mt_injected_before m) 1\<rparr>
     | OutcomeInjectedAfter \<Rightarrow> m\<lparr>mt_injected_after := saturating_add (mt_injected_after m) 1\<rparr>)"

definition fault_finish :: "request_ticket \<Rightarrow> path \<Rightarrow> u64 \<Rightarrow> request_outcome \<Rightarrow> fault_state \<Rightarrow> fault_state" where
  "fault_finish ticket path downloaded_bytes outcome st =
    (let uploaded_bytes = (if outcome = OutcomeInjectedBefore then 0 else tk_uploaded_bytes ticket);
         st = update_metrics (tk_operation ticket) (finish_metrics ticket uploaded_bytes downloaded_bytes outcome) st in
     if ft_record_events st
     then st\<lparr>ft_metrics := ft_metrics st\<lparr>me_events := me_events (ft_metrics st) @
       [\<lparr>ev_sequence = tk_sequence ticket, ev_operation = tk_operation ticket, ev_occurrence = tk_occurrence ticket,
         ev_path = path, ev_uploaded_bytes = uploaded_bytes, ev_downloaded_bytes = downloaded_bytes,
         ev_outcome = outcome\<rparr>]\<rparr>\<rparr>
     else st)"

definition injected_error :: "request_ticket \<Rightarrow> failure_phase \<Rightarrow> path \<Rightarrow> fault_error" where
  "injected_error ticket phase path = Injected \<lparr>if_operation = tk_operation ticket,
     if_occurrence = tk_occurrence ticket, if_phase = phase, if_path = path\<rparr>"

definition rejected_error :: "request_ticket \<Rightarrow> path \<Rightarrow> failure_phase \<Rightarrow> put_rejection \<Rightarrow> fault_error" where
  "rejected_error ticket path phase rejection = Rejected rejection \<lparr>if_operation = tk_operation ticket,
     if_occurrence = tk_occurrence ticket, if_phase = phase, if_path = path\<rparr>"

text \<open>
  \<open>execute\<close>, in the two parts that its await points separate: up to the wrapped request, and after its
  success. The first part returns the injected error, if any.
\<close>

definition execute_before :: "request_ticket \<Rightarrow> path \<Rightarrow> fault_state \<Rightarrow> fault_error option \<times> fault_state" where
  "execute_before ticket path st =
    (case take_rejected_put ticket PhaseBefore st of
       (Some rejection, st) \<Rightarrow>
         (Some (rejected_error ticket path PhaseBefore rejection), fault_finish ticket path 0 OutcomeInjectedBefore st)
     | (None, st) \<Rightarrow>
         (case take_failure ticket PhaseBefore st of
            (True, st) \<Rightarrow>
              (Some (injected_error ticket PhaseBefore path), fault_finish ticket path 0 OutcomeInjectedBefore st)
          | (False, st) \<Rightarrow> (None, st)))"

definition execute_after ::
    "request_ticket \<Rightarrow> path \<Rightarrow> ('a \<Rightarrow> u64) \<Rightarrow> 'a \<Rightarrow> fault_state \<Rightarrow> (fault_error + 'a) \<times> fault_state" where
  "execute_after ticket path downloaded_bytes value st =
    (case take_failure ticket PhaseAfter st of (fail_after, st) \<Rightarrow>
     case take_rejected_put ticket PhaseAfter st of (rejected_put, st) \<Rightarrow>
     let outcome = (if fail_after \<or> rejected_put \<noteq> None then OutcomeInjectedAfter else OutcomeSucceeded);
         st = fault_finish ticket path (downloaded_bytes value) outcome st in
     (case rejected_put of
        Some rejection \<Rightarrow> Inl (rejected_error ticket path PhaseAfter rejection)
      | None \<Rightarrow> if fail_after then Inl (injected_error ticket PhaseAfter path) else Inr value, st))"

text \<open>\<open>paused c\<close> is what other tasks do until the pause of channel \<open>c\<close> is released.\<close>

definition pause_point ::
    "(addr \<Rightarrow> fault_state \<times> 'b \<Rightarrow> fault_state \<times> 'b) \<Rightarrow> request_ticket \<Rightarrow> failure_phase
      \<Rightarrow> fault_state \<times> 'b \<Rightarrow> fault_state \<times> 'b" where
  "pause_point paused ticket phase s =
    (case enter_pause ticket phase (fst s) of
       (None, st) \<Rightarrow> (st, snd s)
     | (Some channel, st) \<Rightarrow> paused channel (st, snd s))"

definition execute ::
    "(addr \<Rightarrow> fault_state \<times> 'b \<Rightarrow> fault_state \<times> 'b) \<Rightarrow> request_ticket \<Rightarrow> path
      \<Rightarrow> ('b \<Rightarrow> (fault_error + 'a) \<times> 'b) \<Rightarrow> ('a \<Rightarrow> u64) \<Rightarrow> fault_state \<times> 'b
      \<Rightarrow> (fault_error + 'a) \<times> (fault_state \<times> 'b)" where
  "execute paused ticket path request downloaded_bytes s =
    (case pause_point paused ticket PhaseBefore s of (st, b) \<Rightarrow>
     case execute_before ticket path st of
       (Some error, st) \<Rightarrow> (Inl error, (st, b))
     | (None, st) \<Rightarrow>
         (case request b of
            (Inr value, b) \<Rightarrow>
              (case pause_point paused ticket PhaseAfter (st, b) of (st, b) \<Rightarrow>
               case execute_after ticket path downloaded_bytes value st of (r, st) \<Rightarrow> (r, (st, b)))
          | (Inl error, b) \<Rightarrow> (Inl error, (fault_finish ticket path 0 OutcomeBackendError st, b))))"


section \<open>The store operations\<close>

definition fault_request ::
    "(addr \<Rightarrow> fault_state \<times> 'b \<Rightarrow> fault_state \<times> 'b) \<Rightarrow> operation \<Rightarrow> u64 \<Rightarrow> path
      \<Rightarrow> ('b \<Rightarrow> (fault_error + 'a) \<times> 'b) \<Rightarrow> ('a \<Rightarrow> u64) \<Rightarrow> fault_state \<times> 'b
      \<Rightarrow> (fault_error + 'a) \<times> (fault_state \<times> 'b)" where
  "fault_request paused op uploaded_bytes path request downloaded_bytes s =
    (case fault_start op uploaded_bytes (fst s) of (ticket, st) \<Rightarrow>
     execute paused ticket path request downloaded_bytes (st, snd s))"

definition fault_put_opts ::
    "(addr \<Rightarrow> fault_state \<times> 'b \<Rightarrow> fault_state \<times> 'b) \<Rightarrow> (path \<Rightarrow> bytes \<Rightarrow> put_mode \<Rightarrow> 'b \<Rightarrow> (fault_error + 'a) \<times> 'b)
      \<Rightarrow> path \<Rightarrow> bytes \<Rightarrow> put_mode \<Rightarrow> fault_state \<times> 'b \<Rightarrow> (fault_error + 'a) \<times> (fault_state \<times> 'b)" where
  "fault_put_opts paused inner loc payload opts =
    fault_request paused OpPut (usize_to_u64 (length payload)) loc (inner loc payload opts) (\<lambda>_. 0)"

text \<open>\<open>returns_body\<close> is \<^verbatim>\<open>!options.head\<close>; \<open>range_of\<close> gives the byte range of a result.\<close>

definition fault_get_opts ::
    "(addr \<Rightarrow> fault_state \<times> 'b \<Rightarrow> fault_state \<times> 'b) \<Rightarrow> (path \<Rightarrow> 'b \<Rightarrow> (fault_error + 'a) \<times> 'b) \<Rightarrow> ('a \<Rightarrow> u64 \<times> u64)
      \<Rightarrow> bool \<Rightarrow> path \<Rightarrow> fault_state \<times> 'b \<Rightarrow> (fault_error + 'a) \<times> (fault_state \<times> 'b)" where
  "fault_get_opts paused inner range_of returns_body loc =
    fault_request paused OpGet 0 loc (inner loc)
      (\<lambda>result. if returns_body then saturating_sub (snd (range_of result)) (fst (range_of result)) else 0)"

definition fault_get_ranges ::
    "(addr \<Rightarrow> fault_state \<times> 'b \<Rightarrow> fault_state \<times> 'b) \<Rightarrow> (path \<Rightarrow> (u64 \<times> u64) list \<Rightarrow> 'b \<Rightarrow> (fault_error + bytes list) \<times> 'b)
      \<Rightarrow> path \<Rightarrow> (u64 \<times> u64) list \<Rightarrow> fault_state \<times> 'b \<Rightarrow> (fault_error + bytes list) \<times> (fault_state \<times> 'b)" where
  "fault_get_ranges paused inner loc ranges =
    fault_request paused OpGetRanges 0 loc (inner loc ranges)
      (\<lambda>parts. foldl (\<lambda>total part. saturating_add total (usize_to_u64 (length part))) 0 parts)"

definition fault_delete_one ::
    "(addr \<Rightarrow> fault_state \<times> 'b \<Rightarrow> fault_state \<times> 'b) \<Rightarrow> (path \<Rightarrow> 'b \<Rightarrow> (fault_error + unit) \<times> 'b)
      \<Rightarrow> path \<Rightarrow> fault_state \<times> 'b \<Rightarrow> (fault_error + path) \<times> (fault_state \<times> 'b)" where
  "fault_delete_one paused inner loc s =
    (case fault_request paused OpDelete 0 loc (inner loc) (\<lambda>_. 0) s of
       (Inl e, s) \<Rightarrow> (Inl e, s)
     | (Inr _, s) \<Rightarrow> (Inr loc, s))"

fun fault_delete_stream ::
    "(addr \<Rightarrow> fault_state \<times> 'b \<Rightarrow> fault_state \<times> 'b) \<Rightarrow> (path \<Rightarrow> 'b \<Rightarrow> (fault_error + unit) \<times> 'b)
      \<Rightarrow> (fault_error + path) list \<Rightarrow> fault_state \<times> 'b \<Rightarrow> (fault_error + path) list \<times> (fault_state \<times> 'b)" where
  "fault_delete_stream paused inner [] s = ([], s)"
| "fault_delete_stream paused inner (Inl e # locations) s =
    (case fault_delete_stream paused inner locations s of (rs, s) \<Rightarrow> (Inl e # rs, s))"
| "fault_delete_stream paused inner (Inr loc # locations) s =
    (case fault_delete_one paused inner loc s of (r, s) \<Rightarrow>
     case fault_delete_stream paused inner locations s of (rs, s) \<Rightarrow> (r # rs, s))"

text \<open>The listing stream, drained: \<open>recorded\<close> says that the request has been accounted for.\<close>

fun fault_list_from ::
    "request_ticket \<Rightarrow> path \<Rightarrow> bool \<Rightarrow> (fault_error + 'a) list \<Rightarrow> fault_state \<Rightarrow> (fault_error + 'a) list \<times> fault_state" where
  "fault_list_from ticket path recorded [] st =
    (if recorded then ([], st)
     else
       (case take_failure ticket PhaseAfter st of
          (True, st) \<Rightarrow> ([Inl (injected_error ticket PhaseAfter path)], fault_finish ticket path 0 OutcomeInjectedAfter st)
        | (False, st) \<Rightarrow> ([], fault_finish ticket path 0 OutcomeSucceeded st)))"
| "fault_list_from ticket path recorded (item # items) st =
    (let is_err = (case item of Inl _ \<Rightarrow> True | Inr _ \<Rightarrow> False);
         st = (if \<not> recorded \<and> is_err then fault_finish ticket path 0 OutcomeBackendError st else st) in
     case fault_list_from ticket path (recorded \<or> is_err) items st of (rs, st) \<Rightarrow> (item # rs, st))"

definition fault_list :: "path option \<Rightarrow> (fault_error + 'a) list \<Rightarrow> fault_state \<Rightarrow> (fault_error + 'a) list \<times> fault_state" where
  "fault_list prefix inner st =
    (case fault_start OpList 0 st of (ticket, st) \<Rightarrow>
     let event_path = (case prefix of None \<Rightarrow> [] | Some p \<Rightarrow> p) in
     case take_failure ticket PhaseBefore st of
       (True, st) \<Rightarrow>
         ([Inl (injected_error ticket PhaseBefore event_path)], fault_finish ticket event_path 0 OutcomeInjectedBefore st)
     | (False, st) \<Rightarrow> fault_list_from ticket event_path False inner st)"

definition fault_list_with_delimiter ::
    "(addr \<Rightarrow> fault_state \<times> 'b \<Rightarrow> fault_state \<times> 'b) \<Rightarrow> (path option \<Rightarrow> 'b \<Rightarrow> (fault_error + 'a) \<times> 'b)
      \<Rightarrow> path option \<Rightarrow> fault_state \<times> 'b \<Rightarrow> (fault_error + 'a) \<times> (fault_state \<times> 'b)" where
  "fault_list_with_delimiter paused inner prefix =
    fault_request paused OpListWithDelimiter 0 (case prefix of None \<Rightarrow> [] | Some p \<Rightarrow> p) (inner prefix) (\<lambda>_. 0)"

definition fault_copy_opts ::
    "(addr \<Rightarrow> fault_state \<times> 'b \<Rightarrow> fault_state \<times> 'b) \<Rightarrow> (path \<Rightarrow> path \<Rightarrow> 'b \<Rightarrow> (fault_error + unit) \<times> 'b)
      \<Rightarrow> path \<Rightarrow> path \<Rightarrow> fault_state \<times> 'b \<Rightarrow> (fault_error + unit) \<times> (fault_state \<times> 'b)" where
  "fault_copy_opts paused inner src dst = fault_request paused OpCopy 0 dst (inner src dst) (\<lambda>_. 0)"

definition fault_rename_opts ::
    "(addr \<Rightarrow> fault_state \<times> 'b \<Rightarrow> fault_state \<times> 'b) \<Rightarrow> (path \<Rightarrow> path \<Rightarrow> 'b \<Rightarrow> (fault_error + unit) \<times> 'b)
      \<Rightarrow> path \<Rightarrow> path \<Rightarrow> fault_state \<times> 'b \<Rightarrow> (fault_error + unit) \<times> (fault_state \<times> 'b)" where
  "fault_rename_opts paused inner src dst = fault_request paused OpRename 0 dst (inner src dst) (\<lambda>_. 0)"


section \<open>Multipart uploads\<close>

definition fault_put_multipart_opts ::
    "(addr \<Rightarrow> fault_state \<times> 'b \<Rightarrow> fault_state \<times> 'b) \<Rightarrow> (path \<Rightarrow> 'b \<Rightarrow> (fault_error + 'a) \<times> 'b)
      \<Rightarrow> path \<Rightarrow> fault_state \<times> 'b \<Rightarrow> (fault_error + 'a \<times> path) \<times> (fault_state \<times> 'b)" where
  "fault_put_multipart_opts paused inner loc s =
    (case fault_request paused OpMultipartCreate 0 loc (inner loc) (\<lambda>_. 0) s of
       (Inl e, s) \<Rightarrow> (Inl e, s)
     | (Inr upload, s) \<Rightarrow> (Inr (upload, loc), s))"

text \<open>A part has no pause point and no rejection.\<close>

definition fault_put_part ::
    "path \<Rightarrow> bytes \<Rightarrow> ('b \<Rightarrow> (fault_error + unit) \<times> 'b) \<Rightarrow> fault_state \<times> 'b
      \<Rightarrow> (fault_error + unit) \<times> (fault_state \<times> 'b)" where
  "fault_put_part loc data inner s =
    (case fault_start OpMultipartPart (usize_to_u64 (length data)) (fst s) of (ticket, st) \<Rightarrow>
     case take_failure ticket PhaseBefore st of
       (True, st) \<Rightarrow>
         (Inl (injected_error ticket PhaseBefore loc), (fault_finish ticket loc 0 OutcomeInjectedBefore st, snd s))
     | (False, st) \<Rightarrow>
         (case inner (snd s) of
            (Inl e, b) \<Rightarrow> (Inl e, (fault_finish ticket loc 0 OutcomeBackendError st, b))
          | (Inr _, b) \<Rightarrow>
              (case take_failure ticket PhaseAfter st of
                 (True, st) \<Rightarrow>
                   (Inl (injected_error ticket PhaseAfter loc), (fault_finish ticket loc 0 OutcomeInjectedAfter st, b))
               | (False, st) \<Rightarrow> (Inr (), (fault_finish ticket loc 0 OutcomeSucceeded st, b)))))"

definition fault_complete ::
    "(addr \<Rightarrow> fault_state \<times> 'b \<Rightarrow> fault_state \<times> 'b) \<Rightarrow> path \<Rightarrow> ('b \<Rightarrow> (fault_error + 'a) \<times> 'b)
      \<Rightarrow> fault_state \<times> 'b \<Rightarrow> (fault_error + 'a) \<times> (fault_state \<times> 'b)" where
  "fault_complete paused loc inner = fault_request paused OpMultipartComplete 0 loc inner (\<lambda>_. 0)"

definition fault_abort ::
    "(addr \<Rightarrow> fault_state \<times> 'b \<Rightarrow> fault_state \<times> 'b) \<Rightarrow> path \<Rightarrow> ('b \<Rightarrow> (fault_error + unit) \<times> 'b)
      \<Rightarrow> fault_state \<times> 'b \<Rightarrow> (fault_error + unit) \<times> (fault_state \<times> 'b)" where
  "fault_abort paused loc inner = fault_request paused OpMultipartAbort 0 loc inner (\<lambda>_. 0)"

end
