(* ===== verification/Fault_Accounting.thy ===== *)
theory Fault_Accounting
  imports Fault_Store
begin

text \<open>
  The fault-injecting store under concurrency. Each lock scope of \<^verbatim>\<open>src/src/sim.rs\<close> is one
  atomic step on the shared state; a configuration also holds the tickets of the requests that have
  started and not finished. Every operation is a sequence of such steps, however other tasks
  interleave at its pauses, and it settles exactly its own ticket.
\<close>


section \<open>Atomic steps\<close>

inductive fault_step ::
    "fault_state \<times> request_ticket list \<Rightarrow> fault_state \<times> request_ticket list \<Rightarrow> bool" where
  started: "fault_start op n st = (t, st') \<Longrightarrow> fault_step (st, ts) (st', t # ts)"
| failure_taken: "fault_step (st, ts) (snd (take_failure t phase st), ts)"
| rejection_taken: "fault_step (st, ts) (snd (take_rejected_put t phase st), ts)"
| pause_entered: "fault_step (st, ts) (snd (enter_pause t phase st), ts)"
| finished: "t \<in> set ts \<Longrightarrow> fault_step (st, ts) (fault_finish t p n out st, remove1 t ts)"
| scheduled: "fault_step (st, ts) (schedule f st, ts)"
| failing_next: "fault_step (st, ts) (fail_next op phase st, ts)"
| rejecting: "fault_step (st, ts) (reject_put_at n phase rejection st, ts)"
| pausing: "schedule_pause op n phase c st = Some st' \<Longrightarrow> fault_step (st, ts) (st', ts)"
| cleared: "fault_step (st, ts) (clear_failures st, ts)"
| recording: "fault_step (st, ts) (record_events b st, ts)"

definition fault_reachable :: "fault_state \<times> request_ticket list \<Rightarrow> bool" where
  "fault_reachable = fault_step\<^sup>*\<^sup>* (fault_state_default, [])"

lemma fault_reachable_default: "fault_reachable (fault_state_default, [])"
  by (simp add: fault_reachable_def)

lemma fault_reachable_steps: "fault_reachable c \<Longrightarrow> fault_step\<^sup>*\<^sup>* c d \<Longrightarrow> fault_reachable d"
  by (simp add: fault_reachable_def)


section \<open>Counters\<close>

definition in_flight_of :: "operation \<Rightarrow> request_ticket list \<Rightarrow> nat" where
  "in_flight_of op ts = length (filter (\<lambda>t. tk_operation t = op) ts)"

definition settled_count :: "operation_metrics \<Rightarrow> nat" where
  "settled_count m = unat (mt_succeeded m) + unat (mt_backend_errors m) + unat (mt_injected_before m)
     + unat (mt_injected_after m)"

definition accounted :: "operation \<Rightarrow> operation_metrics \<Rightarrow> nat \<Rightarrow> bool" where
  "accounted op m n \<longleftrightarrow>
    (mt_requests m = - 1 \<or>
      unat (mt_requests m) = settled_count m + n
      \<and> unat (mt_visible_mutations m)
        = (if is_mutation op then unat (mt_succeeded m) + unat (mt_injected_after m) else 0))"

lemma unat_max_u64: "unat (- 1 :: u64) = 18446744073709551615"
  by (simp add: unat_eq_nat_uint uint_word_ariths)

lemma unat_saturating_Suc [simp]: "unat a < unat (- 1 :: u64) \<Longrightarrow> unat (saturating_add a 1) = Suc (unat a)"
  by (simp add: saturating_add_def checked_add_def unat_max_u64 unat_succ)

lemma saturating_add_max [simp]: "saturating_add (- 1) 1 = (- 1 :: u64)"
  by (simp add: saturating_add_def checked_add_def unat_max_u64)

lemma unat_less_max: "a \<noteq> - 1 \<longleftrightarrow> unat a < unat (- 1 :: u64)" for a :: u64
  by (metis word_order.not_eq_extremum word_less_nat_alt)

lemma accounted_request:
  "accounted op m n \<Longrightarrow> accounted op (m\<lparr>mt_requests := saturating_add (mt_requests m) 1\<rparr>) (Suc n)"
  by (cases "mt_requests m = - 1") (auto simp: accounted_def settled_count_def unat_less_max)

lemma accounted_finish:
  assumes "accounted (tk_operation t) m (Suc n)"
  shows "accounted (tk_operation t) (finish_metrics t up down out m) n"
proof (cases "mt_requests m = - 1")
  case True
  then show ?thesis
    by (cases out) (simp_all add: accounted_def finish_metrics_def Let_def)
next
  case False
  then have "unat (mt_requests m) < unat (- 1 :: u64)" by (simp add: unat_less_max)
  with assms False have "settled_count m < unat (- 1 :: u64)"
    "unat (mt_visible_mutations m) < unat (- 1 :: u64)"
    by (auto simp: accounted_def settled_count_def)
  with assms False show ?thesis
    by (cases out) (simp_all add: accounted_def finish_metrics_def Let_def settled_count_def)
qed

lemma metrics_operation_update:
  "metrics_operation (ft_metrics (update_metrics op f st)) op'
    = (if op' = op then f (metrics_operation (ft_metrics st) op) else metrics_operation (ft_metrics st) op')"
  by (simp add: update_metrics_def metrics_operation_def)

lemma fault_start_operation: "fault_start op n st = (t, st') \<Longrightarrow> tk_operation t = op"
  by (auto simp: fault_start_def Let_def)

lemma metrics_operation_start:
  assumes "fault_start op n st = (t, st')"
  shows "metrics_operation (ft_metrics st') op'
    = (let m = metrics_operation (ft_metrics st) op' in
       if op' = op then m\<lparr>mt_requests := saturating_add (mt_requests m) 1\<rparr> else m)"
  using assms by (auto simp: fault_start_def Let_def metrics_operation_update)

lemma metrics_operation_finish:
  "metrics_operation (ft_metrics (fault_finish t p n out st)) op
    = (if op = tk_operation t
       then finish_metrics t (if out = OutcomeInjectedBefore then 0 else tk_uploaded_bytes t) n out
         (metrics_operation (ft_metrics st) op)
       else metrics_operation (ft_metrics st) op)"
  using metrics_operation_update
  by (simp add: fault_finish_def Let_def metrics_operation_def [of "ft_metrics _\<lparr>me_events := _\<rparr>"]
      metrics_operation_def [symmetric])

lemma ft_metrics_frame [simp]:
  "ft_metrics (snd (take_failure t phase st)) = ft_metrics st"
  "ft_metrics (snd (take_rejected_put t phase st)) = ft_metrics st"
  "ft_metrics (snd (enter_pause t phase st)) = ft_metrics st"
  "ft_metrics (schedule f st) = ft_metrics st"
  "ft_metrics (fail_next op phase st) = ft_metrics st"
  "ft_metrics (reject_put_at n phase rejection st) = ft_metrics st"
  "ft_metrics (clear_failures st) = ft_metrics st"
  "ft_metrics (record_events b st) = ft_metrics st"
  by (simp_all add: take_failure_def take_rejected_put_def enter_pause_def schedule_def fail_next_def Let_def
      reject_put_at_def clear_failures_def record_events_def split: option.splits prod.splits)

lemma ft_metrics_pause: "schedule_pause op n phase c st = Some st' \<Longrightarrow> ft_metrics st' = ft_metrics st"
  by (auto simp: schedule_pause_def split: if_splits)

definition books_ok :: "fault_state \<times> request_ticket list \<Rightarrow> bool" where
  "books_ok c \<longleftrightarrow> (\<forall>op. accounted op (metrics_operation (ft_metrics (fst c)) op) (in_flight_of op (snd c)))"

lemma in_flight_of_remove1:
  "t \<in> set ts \<Longrightarrow> in_flight_of op ts
    = (if tk_operation t = op then Suc (in_flight_of op (remove1 t ts)) else in_flight_of op (remove1 t ts))"
  by (induction ts) (auto simp: in_flight_of_def)

lemma fault_step_books: "fault_step c d \<Longrightarrow> books_ok c \<Longrightarrow> books_ok d"
proof (induction rule: fault_step.induct)
  case (started op n st t st' ts)
  then show ?case
    by (auto simp: books_ok_def Let_def metrics_operation_start in_flight_of_def dest: fault_start_operation
        intro: accounted_request)
next
  case (finished t ts st p n out)
  then show ?case
    by (simp add: books_ok_def metrics_operation_finish in_flight_of_remove1)
      (metis (full_types) accounted_finish)
qed (simp_all add: books_ok_def ft_metrics_pause)

lemma fault_reachable_books: "fault_reachable c \<Longrightarrow> books_ok c"
  unfolding fault_reachable_def
proof (induction rule: rtranclp_induct)
  case base
  show ?case
    by (simp add: books_ok_def fault_state_default_def metrics_operation_def operation_metrics_default_def
        accounted_def settled_count_def in_flight_of_def)
qed (rule fault_step_books)


section \<open>Operations are sequences of steps\<close>

text \<open>What others do during a pause, as far as the shared state sees it.\<close>

definition steps_only :: "(addr \<Rightarrow> fault_state \<times> 'b \<Rightarrow> fault_state \<times> 'b) \<Rightarrow> bool" where
  "steps_only paused \<longleftrightarrow> (\<forall>c s ts. fault_step\<^sup>*\<^sup>* (fst s, ts) (fst (paused c s), ts))"

lemma steps_only_quiet: "steps_only (\<lambda>c s. s)"
  by (simp add: steps_only_def)

lemma take_steps:
  "fault_step\<^sup>*\<^sup>* (st, ts) (snd (take_failure t phase st), ts)"
  "fault_step\<^sup>*\<^sup>* (st, ts) (snd (take_rejected_put t phase st), ts)"
  "fault_step\<^sup>*\<^sup>* (st, ts) (snd (enter_pause t phase st), ts)"
  by (rule r_into_rtranclp, rule fault_step.intros)+

lemma finished_head: "fault_step\<^sup>*\<^sup>* (st, t # ts) (fault_finish t p n out st, ts)"
  using finished [of t "t # ts" st p n out] by (simp add: r_into_rtranclp)

lemma pause_point_steps: "steps_only paused \<Longrightarrow> fault_step\<^sup>*\<^sup>* (fst s, ts) (fst (pause_point paused t phase s), ts)"
proof -
  assume paused: "steps_only paused"
  obtain c st where e: "enter_pause t phase (fst s) = (c, st)" by fastforce
  then have "fault_step\<^sup>*\<^sup>* (fst s, ts) (st, ts)"
    using take_steps(3) [of "fst s" ts t phase] by simp
  moreover have "fault_step\<^sup>*\<^sup>* (st, ts) (fst (paused x (st, snd s)), ts)" for x
    using paused by (simp add: steps_only_def)
  ultimately show ?thesis
    by (cases c) (auto simp: pause_point_def e intro: rtranclp_trans)
qed

lemma execute_before_steps:
  assumes "execute_before t p st = (e, st')"
  shows "fault_step\<^sup>*\<^sup>* (st, t # ts) (st', if e = None then t # ts else ts)"
proof -
  obtain rejection st1 where r: "take_rejected_put t PhaseBefore st = (rejection, st1)" by fastforce
  obtain f st2 where f: "take_failure t PhaseBefore st1 = (f, st2)" by fastforce
  have one: "fault_step\<^sup>*\<^sup>* (st, t # ts) (st1, t # ts)"
    using take_steps(2) [of st "t # ts" t PhaseBefore] r by simp
  have two: "fault_step\<^sup>*\<^sup>* (st, t # ts) (st2, t # ts)"
    using rtranclp_trans [OF one take_steps(1) [of st1 "t # ts" t PhaseBefore]] f by simp
  show ?thesis
    using assms one two rtranclp_trans [OF one finished_head] rtranclp_trans [OF two finished_head]
    by (auto simp: execute_before_def r f split: option.splits bool.splits)
qed

lemma execute_after_steps:
  assumes "execute_after t p d x st = (r, st')"
  shows "fault_step\<^sup>*\<^sup>* (st, t # ts) (st', ts)"
proof -
  obtain f st1 where f: "take_failure t PhaseAfter st = (f, st1)" by fastforce
  obtain rejection st2 where r: "take_rejected_put t PhaseAfter st1 = (rejection, st2)" by fastforce
  have "fault_step\<^sup>*\<^sup>* (st, t # ts) (st1, t # ts)"
    using take_steps(1) [of st "t # ts" t PhaseAfter] f by simp
  then have "fault_step\<^sup>*\<^sup>* (st, t # ts) (st2, t # ts)"
    using take_steps(2) [of st1 "t # ts" t PhaseAfter] r by (metis rtranclp_trans snd_conv)
  from rtranclp_trans [OF this finished_head] assms show ?thesis
    by (auto simp: execute_after_def f r Let_def)
qed

lemma execute_steps:
  assumes "steps_only paused" "execute paused t p request d s = (r, s')"
  shows "fault_step\<^sup>*\<^sup>* (fst s, t # ts) (fst s', ts)"
proof -
  obtain st b where b: "pause_point paused t PhaseBefore s = (st, b)" by fastforce
  obtain e st1 where e: "execute_before t p st = (e, st1)" by fastforce
  have before: "fault_step\<^sup>*\<^sup>* (fst s, t # ts) (st1, if e = None then t # ts else ts)"
    using rtranclp_trans [OF pause_point_steps [OF assms(1), of s "t # ts" t PhaseBefore, unfolded b fst_conv]
        execute_before_steps [OF e, of ts]] .
  show ?thesis
  proof (cases e)
    case None
    obtain q b1 where q: "request b = (q, b1)" by fastforce
    obtain st2 b2 where st2: "pause_point paused t PhaseAfter (st1, b1) = (st2, b2)" by fastforce
    have "fault_step\<^sup>*\<^sup>* (st1, t # ts) (st2, t # ts)"
      using pause_point_steps [OF assms(1), of "(st1, b1)" "t # ts" t PhaseAfter] st2 by simp
    then have after: "fault_step\<^sup>*\<^sup>* (st1, t # ts) (snd (execute_after t p d x st2), ts)" for x
      by (rule rtranclp_trans) (rule execute_after_steps [OF prod.collapse [symmetric]])
    have "fault_step\<^sup>*\<^sup>* (st1, t # ts) (fst s', ts)"
    proof (cases q)
      case (Inl error)
      then show ?thesis
        using assms(2) b e q None finished_head [of st1 t ts p 0 OutcomeBackendError]
        by (auto simp: execute_def)
    next
      case (Inr x)
      then show ?thesis
        using assms(2) b e q st2 None after [of x] by (auto simp: execute_def split: prod.splits)
    qed
    with before None show ?thesis by auto
  qed (use before assms(2) b e in \<open>auto simp: execute_def\<close>)
qed

lemma fault_request_steps:
  assumes "steps_only paused" "fault_request paused op n p request d s = (r, s')"
  shows "fault_step\<^sup>*\<^sup>* (fst s, ts) (fst s', ts)"
proof -
  obtain t st where t: "fault_start op n (fst s) = (t, st)" by fastforce
  have "fault_step\<^sup>*\<^sup>* (st, t # ts) (fst s', ts)"
    using execute_steps [OF assms(1), of t p request d "(st, snd s)" r s'] assms(2) t
    by (simp add: fault_request_def)
  then show ?thesis
    by (rule converse_rtranclp_into_rtranclp [of fault_step, OF started [OF t]])
qed

lemma fault_delete_one_steps:
  assumes "steps_only paused" "fault_delete_one paused inner p s = (r, s')"
  shows "fault_step\<^sup>*\<^sup>* (fst s, ts) (fst s', ts)"
  using assms by (auto simp: fault_delete_one_def split: prod.splits sum.splits intro: fault_request_steps)

lemma fault_delete_stream_steps:
  assumes "steps_only paused" "fault_delete_stream paused inner ps s = (rs, s')"
  shows "fault_step\<^sup>*\<^sup>* (fst s, ts) (fst s', ts)"
  using assms(2)
proof (induction ps arbitrary: s rs)
  case (Cons q ps)
  show ?case
  proof (cases q)
    case (Inl e)
    with Cons show ?thesis by (auto split: prod.splits)
  next
    case (Inr p)
    obtain r s1 where one: "fault_delete_one paused inner p s = (r, s1)" by (rule prod.exhaust)
    obtain rs1 where rest: "fault_delete_stream paused inner ps s1 = (rs1, s')"
      using Cons.prems Inr one by (auto split: prod.splits)
    from rtranclp_trans [OF fault_delete_one_steps [OF assms(1) one] Cons.IH [OF rest]] show ?thesis .
  qed
qed simp

lemma fault_list_from_steps:
  assumes "fault_list_from t p recorded items st = (rs, st')"
  shows "fault_step\<^sup>*\<^sup>* (st, if recorded then ts else t # ts) (st', ts)"
  using assms
proof (induction t p recorded items st arbitrary: rs rule: fault_list_from.induct)
  case (1 t p recorded st)
  obtain f st1 where f: "take_failure t PhaseAfter st = (f, st1)" by fastforce
  have "fault_step\<^sup>*\<^sup>* (st, t # ts) (st1, t # ts)"
    using take_steps(1) [of st "t # ts" t PhaseAfter] f by simp
  from rtranclp_trans [OF this finished_head] show ?case
    using 1 f by (auto split: if_splits bool.splits)
next
  case (2 t p recorded item items st)
  let ?err = "case item of Inl _ \<Rightarrow> True | Inr _ \<Rightarrow> False"
  let ?st = "if \<not> recorded \<and> ?err then fault_finish t p 0 OutcomeBackendError st else st"
  obtain rs1 where rest: "fault_list_from t p (recorded \<or> ?err) items ?st = (rs1, st')"
    using "2.prems" by (auto simp: Let_def split: prod.splits)
  have "fault_step\<^sup>*\<^sup>* (st, if recorded then ts else t # ts) (?st, if recorded \<or> ?err then ts else t # ts)"
    by (simp add: finished_head)
  from rtranclp_trans [OF this "2.IH" [OF refl refl rest]] show ?case .
qed

lemma fault_list_steps:
  assumes "fault_list prefix items st = (rs, st')"
  shows "fault_step\<^sup>*\<^sup>* (st, ts) (st', ts)"
proof -
  obtain t st0 where t: "fault_start OpList 0 st = (t, st0)" by fastforce
  obtain f st1 where f: "take_failure t PhaseBefore st0 = (f, st1)" by fastforce
  have one: "fault_step\<^sup>*\<^sup>* (st, ts) (st1, t # ts)"
    using converse_rtranclp_into_rtranclp [of fault_step, OF started [OF t] take_steps(1) [of st0 "t # ts" t PhaseBefore]] f
    by simp
  show ?thesis
  proof (cases f)
    case True
    with rtranclp_trans [OF one finished_head] assms t f show ?thesis by (auto simp: fault_list_def Let_def)
  next
    case False
    then have "fault_list_from t (case prefix of None \<Rightarrow> [] | Some p \<Rightarrow> p) False items st1 = (rs, st')"
      using assms t f by (simp add: fault_list_def)
    from rtranclp_trans [OF one fault_list_from_steps [OF this, of ts, simplified]] show ?thesis .
  qed
qed

lemma fault_put_part_steps:
  assumes "fault_put_part p data inner s = (r, s')"
  shows "fault_step\<^sup>*\<^sup>* (fst s, ts) (fst s', ts)"
proof -
  obtain t st where t: "fault_start OpMultipartPart (usize_to_u64 (length data)) (fst s) = (t, st)" by fastforce
  obtain f st1 where f: "take_failure t PhaseBefore st = (f, st1)" by fastforce
  obtain g st2 where g: "take_failure t PhaseAfter st1 = (g, st2)" by fastforce
  have one: "fault_step\<^sup>*\<^sup>* (fst s, ts) (st1, t # ts)"
    using converse_rtranclp_into_rtranclp [of fault_step, OF started [OF t] take_steps(1) [of st "t # ts" t PhaseBefore]] f
    by simp
  have two: "fault_step\<^sup>*\<^sup>* (fst s, ts) (st2, t # ts)"
    using rtranclp_trans [OF one take_steps(1) [of st1 "t # ts" t PhaseAfter]] g by simp
  from rtranclp_trans [OF one finished_head] rtranclp_trans [OF two finished_head] show ?thesis
    using assms by (auto simp: fault_put_part_def t f g split: bool.splits sum.splits prod.splits)
qed


section \<open>At most one fault per request\<close>

definition faults_at :: "operation \<Rightarrow> u64 \<Rightarrow> fault_state \<Rightarrow> nat" where
  "faults_at op n st =
    length (filter (\<lambda>f. fl_operation f = op \<and> fl_occurrence f = n) (ft_failures st))
    + (if op = OpPut then length (filter (\<lambda>(m, _, _). m = n) (ft_rejected_puts st)) else 0)"

lemma take_first_filter: "take_first P xs = Some (x, ys) \<Longrightarrow> length (filter Q ys) \<le> length (filter Q xs)"
  by (induction xs arbitrary: ys) (auto split: if_splits intro: le_SucI)

lemma filter_twice:
  "(\<And>x. P x \<Longrightarrow> \<not> Q x) \<Longrightarrow> filter P (filter Q xs) = []"
  "(\<And>x. P x \<Longrightarrow> Q x) \<Longrightarrow> filter P (filter Q xs) = filter P xs"
  by (auto simp: filter_empty_conv intro: filter_cong)

lemma faults_at_scheduled:
  "faults_at op n (schedule f st) = (if op = fl_operation f \<and> n = fl_occurrence f then 1 else faults_at op n st)"
  by (auto simp: faults_at_def schedule_def Let_def filter_twice split_def simp del: filter_filter
      intro!: arg_cong [where f = length] filter_twice(2))

lemma faults_at_rejected:
  "faults_at op n (reject_put_at m phase rejection st) = (if op = OpPut \<and> n = m then 1 else faults_at op n st)"
  by (auto simp: faults_at_def reject_put_at_def filter_twice split_def simp del: filter_filter
      intro!: arg_cong [where f = length] filter_twice(2))

lemma fail_next_schedule:
  "fail_next op phase st = schedule \<lparr>fl_operation = op,
     fl_occurrence = saturating_add (mt_requests (metrics_operation (ft_metrics st) op)) 1, fl_phase = phase\<rparr> st"
  by (simp add: fail_next_def schedule_def Let_def)

lemma faults_at_frame:
  "faults_at op n (snd (enter_pause t phase st)) = faults_at op n st"
  "faults_at op n (record_events b st) = faults_at op n st"
  "faults_at op n (clear_failures st) = 0"
  "faults_at op n (fault_finish t p m out st) = faults_at op n st"
  by (simp_all add: faults_at_def enter_pause_def record_events_def clear_failures_def fault_finish_def
      update_metrics_def Let_def split: option.splits)

lemma faults_at_taken:
  "faults_at op n (snd (take_failure t phase st)) \<le> faults_at op n st"
  "faults_at op n (snd (take_rejected_put t phase st)) \<le> faults_at op n st"
  by (auto simp: faults_at_def take_failure_def take_rejected_put_def take_first_filter split: option.splits)

lemma fault_step_single:
  "fault_step c d \<Longrightarrow> faults_at op n (fst c) \<le> 1 \<Longrightarrow> faults_at op n (fst d) \<le> 1"
proof (induction rule: fault_step.induct)
  case (started op' m st t st' ts)
  then show ?case by (auto simp: fault_start_def Let_def update_metrics_def faults_at_def)
next
  case (pausing op' m phase c st st' ts)
  then show ?case by (auto simp: schedule_pause_def faults_at_def split: if_splits)
next
  case (failure_taken st ts t phase)
  then show ?case using faults_at_taken(1) [of op n t phase st] by simp
next
  case (rejection_taken st ts t phase)
  then show ?case using faults_at_taken(2) [of op n t phase st] by simp
qed (simp_all add: faults_at_scheduled faults_at_rejected fail_next_schedule faults_at_frame)

lemma fault_reachable_single: "fault_reachable c \<Longrightarrow> faults_at op n (fst c) \<le> 1"
  unfolding fault_reachable_def
proof (induction rule: rtranclp_induct)
  case base
  show ?case by (simp add: faults_at_def fault_state_default_def)
qed (rule fault_step_single)

end
