(* ===== verification/Fault_Runs.thy ===== *)
theory Fault_Runs
  imports Fault_Accounting Commit_Safety
begin

text \<open>
  Programs of the log executed over the fault-injecting store of \<^verbatim>\<open>src/src/sim.rs\<close> wrapped
  around the in-memory store. Every answer of that composition is one the protocol theory allows, so what
  \<open>wp\<close> shows of a program holds of its simulated runs under every fault schedule.
\<close>


section \<open>Execution\<close>

definition memory_delete :: "path \<Rightarrow> memory \<Rightarrow> (fault_error + unit) \<times> memory" where
  "memory_delete p m = (Inr (), m\<lparr>m_objects := filter (\<lambda>x. fst x \<noteq> p) (m_objects m)\<rparr>)"

definition simulated_get ::
    "path \<Rightarrow> string option \<Rightarrow> fault_state \<times> memory \<Rightarrow> (fault_error + get_result) \<times> (fault_state \<times> memory)" where
  "simulated_get p tag = fault_get_opts (\<lambda>_ s. s) (\<lambda>p m. (map_err Backend (memory_get m p tag), m))
     (\<lambda>g. (0, gr_size g)) True p"

definition simulated_put ::
    "path \<Rightarrow> bytes \<Rightarrow> put_mode \<Rightarrow> fault_state \<times> memory \<Rightarrow> (fault_error + update_version) \<times> (fault_state \<times> memory)" where
  "simulated_put = fault_put_opts (\<lambda>_ s. s)
     (\<lambda>p b mode m. case memory_put m p b mode of (r, m') \<Rightarrow> (map_err Backend r, m'))"

primrec fault_run :: "'a prog \<Rightarrow> fault_state \<times> memory \<Rightarrow> 'a \<times> (fault_state \<times> memory)" where
  "fault_run (Done x) s = (x, s)"
| "fault_run (Get p t k) s = (case simulated_get p t s of (r, s') \<Rightarrow> fault_run (k (map_err error_kind r)) s')"
| "fault_run (Put p b mode k) s =
    (case simulated_put p b mode s of (r, s') \<Rightarrow> fault_run (k (map_err error_kind r)) s')"
| "fault_run (ListPrefix p k) s =
    (case fault_list (Some p) (map (map_err Backend) (memory_list (snd s) p)) (fst s) of (rs, st) \<Rightarrow>
     fault_run (k (map (map_err error_kind) rs)) (st, snd s))"
| "fault_run (DeleteStream ps k) s =
    (case fault_delete_stream (\<lambda>_ s. s) memory_delete (map Inr ps) s of (rs, s') \<Rightarrow>
     fault_run (k (map (map_err error_kind) rs)) s')"
| "fault_run (Delete p k) s =
    (case fault_delete_one (\<lambda>_ s. s) memory_delete p s of (r, s') \<Rightarrow>
     fault_run (k (case r of Inl e \<Rightarrow> Some (error_kind e) | Inr _ \<Rightarrow> None)) s')"
| "fault_run (Ask g q k) s = fault_run (k (g \<notin> set (m_denied (snd s)))) s"
| "fault_run (NewUuid k) s =
    fault_run (k (of_nat (m_fresh (snd s)))) (fst s, snd s\<lparr>m_fresh := Suc (m_fresh (snd s))\<rparr>)"
| "fault_run (Alloc k) s = fault_run (k (m_fresh (snd s))) (fst s, snd s\<lparr>m_fresh := Suc (m_fresh (snd s))\<rparr>)"
| "fault_run (TailProof a k) s = fault_run (k (map_of (m_tail_proofs (snd s)) a)) s"
| "fault_run (SetTailProof a d k) s =
    fault_run k (if map_of (m_tail_proofs (snd s)) a = None
      then (fst s, snd s\<lparr>m_tail_proofs := (a, d) # m_tail_proofs (snd s)\<rparr>) else s)"
| "fault_run (PlanCell a k) s = fault_run (k (map_of (m_plans (snd s)) a)) s"
| "fault_run (InitPlanCell a c k) s =
    (case map_of (m_plans (snd s)) a of
       Some c' \<Rightarrow> fault_run (k c') s
     | None \<Rightarrow> fault_run (k c) (fst s, snd s\<lparr>m_plans := (a, c) # m_plans (snd s)\<rparr>))"
| "fault_run (Next n k) s = fault_run (k 0) s"


section \<open>The answers of one request\<close>

lemma execute_before_injects: "execute_before t p st = (Some e, st') \<Longrightarrow> is_injected e"
  by (auto simp: execute_before_def rejected_error_def injected_error_def split: prod.splits option.splits bool.splits)

lemma execute_after_cases:
  "execute_after t p d x st = (r, st') \<Longrightarrow> r = Inr x \<or> (\<exists>e. r = Inl e \<and> is_injected e)"
  by (auto simp: execute_after_def Let_def rejected_error_def injected_error_def
      split: prod.splits option.splits if_splits)

lemma quiet_pause [simp]: "pause_point (\<lambda>_ s. s) t phase s = (snd (enter_pause t phase (fst s)), snd s)"
  by (simp add: pause_point_def split: prod.splits option.splits)

lemma fault_request_cases [consumes 1, case_names before backend after]:
  assumes "fault_request (\<lambda>_ s. s) op n p request d (st, b) = (r, s')"
  obtains e where "r = Inl e" "is_injected e" "snd s' = b"
  | e where "r = Inl e" "request b = (Inl e, snd s')"
  | x where "request b = (Inr x, snd s')" "r = Inr x \<or> (\<exists>e. r = Inl e \<and> is_injected e)"
  using assms
  by (auto simp: fault_request_def execute_def split: prod.splits option.splits sum.splits
      dest!: execute_before_injects execute_after_cases)

lemma injected_kind: "is_injected e \<Longrightarrow> error_kind e \<noteq> NotModified"
  by (cases e rule: error_kind.cases) simp_all


section \<open>Decimal versions\<close>

lemma show_nat_inject: "show_nat a = show_nat b \<longleftrightarrow> a = b"
proof -
  have digit: "x = y" if "char_of (48 + x) = (char_of (48 + y) :: char)" "x < 10" "y < 10" for x y :: nat
    using that by (simp add: char_of_eq_iff take_bit_eq_mod)
  have "a = b" if "show_nat a = show_nat b"
    using that
  proof (induction a arbitrary: b rule: show_nat.induct)
    case (1 a)
    have ne: "show_nat n \<noteq> []" for n by (subst show_nat.simps) simp
    show ?case
    proof (cases "a < 10 \<or> b < 10")
      case True
      then show ?thesis
        using 1(2) digit [of a b] ne ne [symmetric] by (auto simp: show_nat.simps [of a] show_nat.simps [of b] split: if_splits)
    next
      case False
      then have "a div 10 = b div 10" "a mod 10 = b mod 10"
        using 1 digit [of "a mod 10" "b mod 10"]
        by (auto simp: show_nat.simps [of a] show_nat.simps [of b])
      then show ?thesis by (metis div_mult_mod_eq)
    qed
  qed
  then show ?thesis by blast
qed

lemma clock_version_inject [simp]: "clock_version a = clock_version b \<longleftrightarrow> a = b"
  by (simp add: clock_version_def show_nat_inject)


section \<open>Simulation of the world\<close>

text \<open>The memory holds the current head of the world under its current version.\<close>

definition mirrors :: "externals \<Rightarrow> path \<Rightarrow> memory \<Rightarrow> world \<Rightarrow> bool" where
  "mirrors E hp m w \<longleftrightarrow>
    (\<exists>bs v. map_of (m_objects m) hp = Some (bs, v) \<and> snd (current w) = clock_version v
      \<and> encode_head E (fst (current w)) = Inr bs)
    \<and> w_heads w \<noteq> [] \<and> (\<forall>x\<in>snd ` set (w_heads w). \<exists>n<m_clock m. x = clock_version n)"

lemma mirrors_frame:
  "mirrors E hp m w \<Longrightarrow> map_of (m_objects m') hp = map_of (m_objects m) hp \<Longrightarrow> m_clock m \<le> m_clock m'
    \<Longrightarrow> mirrors E hp m' w"
  unfolding mirrors_def by (metis order_less_le_trans)

lemma map_of_filter_fst: "map_of (filter (\<lambda>x. fst x \<noteq> p) xs) q = (if q = p then None else map_of xs q)"
  by (induction xs) auto

lemma decode_head_encodes: "decode_head E bs = Inr h \<Longrightarrow> encode_head E h = Inr bs"
  by (auto simp: decode_head_def and_then_Inr require_canonical_Inr)

lemma mirrors_install:
  assumes "mirrors E hp m w" "decode_head E bs = Inr h"
  shows "mirrors E hp (memory_store m hp bs) (install w h (clock_version (m_clock m)))"
    "clock_version (m_clock m) \<notin> snd ` set (w_heads w)"
  using assms decode_head_encodes [OF assms(2)]
  by (auto simp: mirrors_def memory_store_def install_def current_def less_Suc_eq)

lemma simulated_get_head:
  assumes "mirrors E hp m w" "simulated_get hp tag (st, m) = (r, s')"
  shows "head_response E w tag (map_err error_kind r)" "snd s' = m"
  using assms(2) unfolding simulated_get_def fault_get_opts_def
  by (cases rule: fault_request_cases;
      use assms(1) injected_kind in \<open>auto simp: mirrors_def head_response_def memory_get_def clock_version_def
        split: if_splits option.splits\<close>)+

lemma simulated_put_head:
  assumes "mirrors E hp m w" "legal_update E w bs mode" "simulated_put hp bs mode (st, m) = (r, s')"
  shows "\<exists>w'. update_response E w bs mode (map_err error_kind r) w' \<and> mirrors E hp (snd s') w'"
proof -
  obtain v h where mode: "mode = Update v" and dec: "decode_head E bs = Inr h"
    using assms(2) by (auto simp: legal_update_def)
  obtain bs0 n where stored: "map_of (m_objects m) hp = Some (bs0, n)" "snd (current w) = clock_version n"
    using assms(1) by (auto simp: mirrors_def)
  have refused: ?thesis if "map_err error_kind r = Inl e" "snd s' = m" for e
    using that assms(1) update_response.refused by metis
  show ?thesis
    using assms(3) unfolding simulated_put_def fault_put_opts_def
  proof (cases rule: fault_request_cases)
    case (before e)
    then show ?thesis using refused by simp
  next
    case (backend e)
    then show ?thesis using refused
      by (auto simp: memory_put_def mode stored split: if_splits)
  next
    case (after x)
    then have "v = clock_version n" "x = clock_version (m_clock m)" "snd s' = memory_store m hp bs"
      by (auto simp: memory_put_def mode stored split: if_splits)
    moreover have "map_err error_kind r = Inr x \<or> (\<exists>e. map_err error_kind r = Inl e)"
      using after(2) by auto
    ultimately have "update_response E w bs mode (map_err error_kind r) (install w h (clock_version (m_clock m)))"
      unfolding mode using update_response.applied [OF dec mirrors_install(2) [OF assms(1) dec]] stored(2) by metis
    with \<open>snd s' = _\<close> mirrors_install(1) [OF assms(1) dec] show ?thesis by auto
  qed
qed

lemma simulated_put_other:
  assumes "mirrors E hp m w" "p \<noteq> hp" "simulated_put p bs mode (st, m) = (r, s')"
  shows "mirrors E hp (snd s') w"
  using assms(3) unfolding simulated_put_def fault_put_opts_def
proof (cases rule: fault_request_cases)
  case (after x)
  then have "snd s' = memory_store m p bs"
    by (auto simp: memory_put_def split: put_mode.splits option.splits prod.splits if_splits)
  with assms(1,2) show ?thesis
    by (auto simp: memory_store_def map_of_filter_fst intro!: mirrors_frame [OF assms(1)])
qed (use assms(1) in \<open>auto simp: memory_put_def split: put_mode.splits option.splits prod.splits if_splits\<close>)

lemma simulated_get_other: "simulated_get p tag (st, m) = (r, s') \<Longrightarrow> snd s' = m"
  unfolding simulated_get_def fault_get_opts_def by (cases rule: fault_request_cases) auto

lemma simulated_delete:
  assumes "mirrors E hp m w" "p \<noteq> hp" "fault_delete_one (\<lambda>_ s. s) memory_delete p (st, m) = (r, s')"
  shows "mirrors E hp (snd s') w"
proof -
  obtain r' where "fault_request (\<lambda>_ s. s) OpDelete 0 p (memory_delete p) (\<lambda>_. 0) (st, m) = (r', s')"
    using assms(3) by (auto simp: fault_delete_one_def split: prod.splits sum.splits)
  then show ?thesis
  proof (cases rule: fault_request_cases)
    case (after x)
    then have "snd s' = m\<lparr>m_objects := filter (\<lambda>x. fst x \<noteq> p) (m_objects m)\<rparr>"
      by (simp add: memory_delete_def)
    with assms(2) show ?thesis by (simp add: mirrors_frame [OF assms(1)] map_of_filter_fst)
  qed (use assms(1) in \<open>auto simp: memory_delete_def\<close>)
qed

lemma simulated_delete_stream:
  assumes "mirrors E hp (snd s) w" "hp \<notin> set ps"
    and "fault_delete_stream (\<lambda>_ s. s) memory_delete (map Inr ps) s = (rs, s')"
  shows "mirrors E hp (snd s') w"
  using assms
proof (induction ps arbitrary: s rs)
  case (Cons p ps)
  obtain r s1 where one: "fault_delete_one (\<lambda>_ s. s) memory_delete p (fst s, snd s) = (r, s1)" by (rule prod.exhaust)
  moreover obtain rs1 where "fault_delete_stream (\<lambda>_ s. s) memory_delete (map Inr ps) s1 = (rs1, s')"
    using Cons.prems one by (auto split: prod.splits)
  moreover have "mirrors E hp (snd s1) w"
    using simulated_delete [OF Cons.prems(1) _ one] Cons.prems(2) by auto
  ultimately show ?case using Cons.IH Cons.prems(2) by simp
qed simp


section \<open>Adequacy\<close>

lemma fault_run_adequate_lemma:
  assumes "wp E A hp Q p w" "mirrors E hp (snd s) w" "fault_run p s = (x, s')"
  shows "\<exists>w'. mirrors E hp (snd s') w' \<and> Q x w'"
  using assms
proof (induction p arbitrary: w s)
  case (Get p tag k)
  obtain r s1 where get: "simulated_get p tag (fst s, snd s) = (r, s1)" by (rule prod.exhaust)
  then have "snd s1 = snd s" "p = hp \<longrightarrow> head_response E w tag (map_err error_kind r)"
    using simulated_get_head(1) [OF Get.prems(2), of tag "fst s" r s1] simulated_get_other [OF get] by auto
  then show ?case using Get.IH [OF rangeI, of "map_err error_kind r" w s1] Get.prems get by simp
next
  case (Put p bs mode k)
  obtain r s1 where put: "simulated_put p bs mode (fst s, snd s) = (r, s1)" by (rule prod.exhaust)
  have "\<exists>w1. wp E A hp Q (k (map_err error_kind r)) w1 \<and> mirrors E hp (snd s1) w1"
  proof (cases "p = hp")
    case True
    with Put.prems(1) have "legal_update E w bs mode"
      "\<forall>r w'. update_response E w bs mode r w' \<longrightarrow> wp E A hp Q (k r) w'" by auto
    with simulated_put_head [OF Put.prems(2), of bs mode "fst s" r s1] put True show ?thesis by blast
  next
    case False
    with Put.prems(1) have "wp E A hp Q (k (map_err error_kind r)) w" by auto
    with simulated_put_other [OF Put.prems(2) False put] show ?thesis by blast
  qed
  then show ?case using Put.IH [OF rangeI, of _ _ s1] Put.prems(3) put by auto
next
  case (ListPrefix p k)
  obtain rs st where ls: "fault_list (Some p) (map (map_err Backend) (memory_list (snd s) p)) (fst s) = (rs, st)"
    by (rule prod.exhaust)
  with ListPrefix.IH [OF rangeI, of "map (map_err error_kind) rs" w "(st, snd s)"] ListPrefix.prems
  show ?case by simp
next
  case (DeleteStream ps k)
  obtain rs s1 where ds: "fault_delete_stream (\<lambda>_ s. s) memory_delete (map Inr ps) s = (rs, s1)"
    by (rule prod.exhaust)
  with DeleteStream.IH [OF rangeI, of "map (map_err error_kind) rs" w s1] DeleteStream.prems
    simulated_delete_stream [OF DeleteStream.prems(2) _ ds]
  show ?case by simp
next
  case (Delete p k)
  obtain r s1 where d: "fault_delete_one (\<lambda>_ s. s) memory_delete p (fst s, snd s) = (r, s1)" by (rule prod.exhaust)
  with Delete.IH [OF rangeI, of "case r of Inl e \<Rightarrow> Some (error_kind e) | Inr _ \<Rightarrow> None" w s1] Delete.prems
    simulated_delete [OF Delete.prems(2) _ d]
  show ?case by simp
next
  case (SetTailProof a d k)
  let ?s = "if map_of (m_tail_proofs (snd s)) a = None
    then (fst s, snd s\<lparr>m_tail_proofs := (a, d) # m_tail_proofs (snd s)\<rparr>) else s"
  have "mirrors E hp (snd ?s) w" by (auto intro!: mirrors_frame [OF SetTailProof.prems(2)])
  with SetTailProof.IH [of w ?s] SetTailProof.prems show ?case by simp
next
  case (InitPlanCell a c k)
  let ?s = "if map_of (m_plans (snd s)) a = None
    then (fst s, snd s\<lparr>m_plans := (a, c) # m_plans (snd s)\<rparr>) else s"
  let ?c = "case map_of (m_plans (snd s)) a of None \<Rightarrow> c | Some c' \<Rightarrow> c'"
  have "mirrors E hp (snd ?s) w" by (auto intro!: mirrors_frame [OF InitPlanCell.prems(2)])
  with InitPlanCell.IH [OF rangeI, of ?c w ?s] InitPlanCell.prems show ?case
    by (simp split: option.splits)
next
  case (NewUuid k)
  have "mirrors E hp (snd s\<lparr>m_fresh := Suc (m_fresh (snd s))\<rparr>) w"
    by (rule mirrors_frame [OF NewUuid.prems(2)]) simp_all
  with NewUuid.IH [OF rangeI, of "of_nat (m_fresh (snd s))" w "(fst s, snd s\<lparr>m_fresh := Suc (m_fresh (snd s))\<rparr>)"]
    NewUuid.prems show ?case by simp
next
  case (Alloc k)
  have "mirrors E hp (snd s\<lparr>m_fresh := Suc (m_fresh (snd s))\<rparr>) w"
    by (rule mirrors_frame [OF Alloc.prems(2)]) simp_all
  with Alloc.IH [OF rangeI, of "m_fresh (snd s)" w "(fst s, snd s\<lparr>m_fresh := Suc (m_fresh (snd s))\<rparr>)"]
    Alloc.prems show ?case by simp
qed (simp, metis rangeI rely_refl)+


section \<open>Transparency\<close>

definition unfaulted :: "fault_state \<Rightarrow> bool" where
  "unfaulted st \<longleftrightarrow> ft_failures st = [] \<and> ft_rejected_puts st = []"

lemma unfaulted_frame [simp]:
  "unfaulted (snd (fault_start op n st)) = unfaulted st"
  "unfaulted (fault_finish t p m out st) = unfaulted st"
  "unfaulted (snd (enter_pause t phase st)) = unfaulted st"
  by (simp_all add: unfaulted_def fault_start_def Let_def update_metrics_def fault_finish_def enter_pause_def
      split: option.splits)

lemma unfaulted_take [simp]:
  "unfaulted st \<Longrightarrow> take_failure t phase st = (False, st)"
  "unfaulted st \<Longrightarrow> take_rejected_put t phase st = (None, st)"
  by (simp_all add: unfaulted_def take_failure_def take_rejected_put_def)

lemma fault_request_unfaulted:
  assumes "unfaulted st"
  shows "\<exists>st'. unfaulted st' \<and> fault_request (\<lambda>_ s. s) op n p request d (st, b) = (fst (request b), (st', snd (request b)))"
proof -
  obtain t st0 where t: "fault_start op n st = (t, st0)" by fastforce
  then have "unfaulted st0" using assms unfaulted_frame(1) [of op n st] by simp
  then show ?thesis
    by (cases "request b"; cases "fst (request b)")
      (simp_all add: fault_request_def t execute_def execute_before_def execute_after_def)
qed

lemma fault_list_from_unfaulted:
  "unfaulted st \<Longrightarrow> \<exists>st'. unfaulted st' \<and> fault_list_from t p recorded items st = (items, st')"
proof (induction t p recorded items st rule: fault_list_from.induct)
  case (2 t p recorded item items st)
  show ?case using "2.IH" [OF refl refl] 2(2) by (auto simp: Let_def)
qed simp

lemma fault_list_unfaulted:
  assumes "unfaulted st"
  shows "\<exists>st'. unfaulted st' \<and> fault_list q items st = (items, st')"
proof -
  obtain t st0 where t: "fault_start OpList 0 st = (t, st0)" by fastforce
  then have "unfaulted st0" using assms unfaulted_frame(1) [of OpList 0 st] by simp
  with fault_list_from_unfaulted [of st0] t show ?thesis by (simp add: fault_list_def Let_def)
qed

lemma fault_delete_unfaulted:
  assumes "unfaulted st"
  shows "\<exists>st'. unfaulted st' \<and> fault_delete_stream (\<lambda>_ s. s) memory_delete (map Inr ps) (st, m)
    = (map Inr ps, (st', m\<lparr>m_objects := filter (\<lambda>x. fst x \<notin> set ps) (m_objects m)\<rparr>))"
  using assms
proof (induction ps arbitrary: st m)
  case (Cons p ps)
  obtain st1 where "unfaulted st1"
    "fault_delete_one (\<lambda>_ s. s) memory_delete p (st, m)
      = (Inr p, (st1, m\<lparr>m_objects := filter (\<lambda>x. fst x \<noteq> p) (m_objects m)\<rparr>))"
    using fault_request_unfaulted [OF Cons.prems, of OpDelete 0 p "memory_delete p" "\<lambda>_. 0" m]
    by (auto simp: fault_delete_one_def memory_delete_def)
  moreover obtain st2 where "unfaulted st2"
    "fault_delete_stream (\<lambda>_ s. s) memory_delete (map Inr ps) (st1, m\<lparr>m_objects := filter (\<lambda>x. fst x \<noteq> p) (m_objects m)\<rparr>)
      = (map Inr ps, (st2, m\<lparr>m_objects := filter (\<lambda>x. fst x \<notin> set (p # ps)) (m_objects m)\<rparr>))"
    using Cons.IH [of st1 "m\<lparr>m_objects := filter (\<lambda>x. fst x \<noteq> p) (m_objects m)\<rparr>"] calculation(1) by auto
  ultimately show ?case by simp
qed simp

lemma map_err_kind_Backend [simp]: "map_err error_kind (map_err Backend r) = r"
  by (cases r) simp_all

lemma fault_run_unfaulted:
  "unfaulted (fst s) \<Longrightarrow> fst (fault_run p s) = fst (run p (snd s)) \<and> snd (snd (fault_run p s)) = snd (run p (snd s))
    \<and> unfaulted (fst (snd (fault_run p s)))"
proof (induction p arbitrary: s)
  case (Get p tag k)
  obtain st' where "unfaulted st'" "simulated_get p tag s = (map_err Backend (memory_get (snd s) p tag), (st', snd s))"
    using fault_request_unfaulted [OF Get.prems, of OpGet 0 p "\<lambda>m. (map_err Backend (memory_get m p tag), m)" _ "snd s"]
    unfolding simulated_get_def fault_get_opts_def by fastforce
  with Get.IH [OF rangeI, of "(st', snd s)"] show ?case by simp
next
  case (Put p bs mode k)
  obtain st' where "unfaulted st'" "simulated_put p bs mode s
      = (map_err Backend (fst (memory_put (snd s) p bs mode)), (st', snd (memory_put (snd s) p bs mode)))"
    using fault_request_unfaulted [OF Put.prems, of OpPut "usize_to_u64 (length bs)" p
        "\<lambda>m. case memory_put m p bs mode of (r, m') \<Rightarrow> (map_err Backend r, m')" "\<lambda>_. 0" "snd s"]
    unfolding simulated_put_def fault_put_opts_def by (auto simp: split_def)
  with Put.IH [OF rangeI, of "(st', snd (memory_put (snd s) p bs mode))"] show ?case by (simp add: split_def)
next
  case (ListPrefix p k)
  obtain st' where "unfaulted st'"
    "fault_list (Some p) (map (map_err Backend) (memory_list (snd s) p)) (fst s)
      = (map (map_err Backend) (memory_list (snd s) p), st')"
    using fault_list_unfaulted [OF ListPrefix.prems] by blast
  with ListPrefix.IH [OF rangeI, of "(st', snd s)"] show ?case by (simp add: comp_def)
next
  case (DeleteStream ps k)
  obtain st' where "unfaulted st'" "fault_delete_stream (\<lambda>_ s. s) memory_delete (map Inr ps) s
      = (map Inr ps, (st', snd s\<lparr>m_objects := filter (\<lambda>x. fst x \<notin> set ps) (m_objects (snd s))\<rparr>))"
    using fault_delete_unfaulted [OF DeleteStream.prems, of ps "snd s"] by auto
  with DeleteStream.IH [OF rangeI, of "(st', snd s\<lparr>m_objects := filter (\<lambda>x. fst x \<notin> set ps) (m_objects (snd s))\<rparr>)"]
  show ?case by (simp add: comp_def)
next
  case (Delete p k)
  obtain st' where "unfaulted st'" "fault_delete_one (\<lambda>_ s. s) memory_delete p s
      = (Inr p, (st', snd s\<lparr>m_objects := filter (\<lambda>x. fst x \<noteq> p) (m_objects (snd s))\<rparr>))"
    using fault_request_unfaulted [OF Delete.prems, of OpDelete 0 p "memory_delete p" "\<lambda>_. 0" "snd s"]
    by (auto simp: fault_delete_one_def memory_delete_def)
  with Delete.IH [OF rangeI, of "(st', snd s\<lparr>m_objects := filter (\<lambda>x. fst x \<noteq> p) (m_objects (snd s))\<rparr>)"]
  show ?case by simp
qed (simp_all split: option.splits)

end
