(* ===== verification/Progress.thy ===== *)
theory Progress
  imports Effects
begin

text \<open>
  Progress: what the operations do on a store without other clients and without failures, by
  execution of their effect trees. A commit prepared on the current head is published.
\<close>

definition admits :: "memory \<Rightarrow> scoped_store \<Rightarrow> bool" where
  "admits m s \<longleftrightarrow> set (ss_guards s) \<inter> set (m_denied m) = {}"

definition stored :: "memory \<Rightarrow> path \<Rightarrow> (bytes \<times> nat) option" where
  "stored m p = map_of (m_objects m) p"

lemma admits_frame [simp]:
  "admits (memory_store m p bs) s = admits m s"
  "admits (m\<lparr>m_fresh := n\<rparr>) s = admits m s"
  "admits (m\<lparr>m_tail_proofs := ps\<rparr>) s = admits m s"
  by (simp_all add: admits_def memory_store_def)

lemma stored_frame [simp]:
  "stored (m\<lparr>m_fresh := n\<rparr>) p = stored m p"
  "stored (m\<lparr>m_tail_proofs := ps\<rparr>) p = stored m p"
  by (simp_all add: stored_def)

lemma stored_store [simp]:
  "stored (memory_store m p bs) q = (if q = p then Some (bs, m_clock m) else stored m q)"
proof -
  have "map_of (filter (\<lambda>x. fst x \<noteq> p) xs) q = map_of xs q" if "q \<noteq> p" for xs :: "(path \<times> bytes \<times> nat) list"
    using that by (induction xs) auto
  then show ?thesis by (simp add: stored_def memory_store_def)
qed

lemma run_await_try: "run (await_try p f) m = (case run p m of (Inl e, m') \<Rightarrow> (Inl e, m') | (Inr x, m') \<Rightarrow> run (f x) m')"
  by (simp add: await_try_def run_await split: prod.splits sum.splits)

lemma run_succeed [simp]: "run (succeed x) m = (Inr x, m)"
  by (simp add: succeed_def)

lemma run_attempt: "run (attempt r f) m = (case r of Inl e \<Rightarrow> (Inl e, m) | Inr x \<Rightarrow> run (f x) m)"
  by (cases r) simp_all

lemma run_ask: "set gs \<inter> set (m_denied m) = {} \<Longrightarrow> run (ask_guards gs q) m = (Inr (), m)"
  by (induction gs) auto

lemma run_admit [simp]: "admits m s \<Longrightarrow> run (admit s q) m = (Inr (), m)"
  by (simp add: admit_def admits_def run_ask)

lemma run_create_absent:
  "admits m s \<Longrightarrow> stored m (location E s key) = None \<Longrightarrow>
    run (create E s key bs) m = (Inr True, memory_store m (location E s key) bs)"
  by (simp add: create_def run_await_try memory_put_def stored_def)

lemma run_update_current:
  "admits m s \<Longrightarrow> stored m (location E s key) = Some (bs0, n) \<Longrightarrow>
    run (update E s key bs (clock_version n)) m
      = (Inr (Some (clock_version (m_clock m))), memory_store m (location E s key) bs)"
  by (simp add: update_def run_await_try memory_put_def stored_def)

lemma run_ensure_absent:
  "admits m (lg_store lg) \<Longrightarrow> stored m (location E (lg_store lg) key) = None \<Longrightarrow>
    run (ensure_immutable E lg key bs) m = (Inr (), memory_store m (location E (lg_store lg) key) bs)"
  by (simp add: ensure_immutable_def Let_def run_await run_create_absent)

lemma collect_whole:
  assumes "length bs \<le> max_bytes" "max_bytes < 2 ^ 64" "length bs \<le> usize_MAX E"
  shows "collect_object E \<lparr>gr_version = v, gr_size = of_nat (length bs), gr_chunks = [Inr bs]\<rparr> max_bytes
    = Inr \<lparr>so_bytes = bs, so_version = v\<rparr>"
proof -
  have "unat (word_of_nat n :: u64) = n" if "n < 2 ^ 64" for n
    using that u64_try_from_Some [of n "word_of_nat n"] by (simp add: u64_try_from_def)
  then have len: "unat (word_of_nat (length bs) :: u64) = length bs" "unat (word_of_nat max_bytes :: u64) = max_bytes"
    using assms by simp_all
  then have "\<not> (word_of_nat max_bytes :: u64) < word_of_nat (length bs)"
    using assms by (simp add: word_less_nat_alt)
  with len show ?thesis
    using assms by (simp add: collect_object_def u64_try_from_def usize_try_from_def usize_checked_add_def)
qed

lemma run_read_present:
  assumes "admits m s" "stored m (location E s key) = Some (bs, n)"
    and "length bs \<le> max_bytes" "max_bytes < 2 ^ 64" "length bs \<le> usize_MAX E"
  shows "run (read E s key max_bytes) m = (Inr (Some \<lparr>so_bytes = bs, so_version = clock_version n\<rparr>), m)"
proof -
  have "memory_get m (location E s key) None
      = Inr \<lparr>gr_version = clock_version n, gr_size = of_nat (length bs), gr_chunks = [Inr bs]\<rparr>"
    using assms(2) by (simp add: memory_get_def stored_def clock_version_def)
  with assms(1) collect_whole [OF assms(3-5)] show ?thesis
    by (simp add: read_def read_with_def retry_safe_read_def SAFE_READ_ATTEMPTS_def numeral_eq_Suc
        run_await_try run_await)
qed

lemma run_load:
  assumes "admits m (lg_store lg)" "stored m (head_path lg) = Some (bs, n)" "decode_head E bs = Inr h"
    and "length bs \<le> max_head_bytes (lg_options lg)" "max_head_bytes (lg_options lg) < 2 ^ 64" "length bs \<le> usize_MAX E"
    and "log_id h = ss_log_id (lg_store lg)" "incarnation h = lg_incarnation lg" "options h = lg_options lg"
  shows "run (load E lg) m
    = (Inr \<lparr>v_observed = m_fresh m, v_head = h, v_version = clock_version n\<rparr>, m\<lparr>m_fresh := Suc (m_fresh m)\<rparr>)"
  using assms run_read_present [of m "lg_store lg" E HeadKey bs n "max_head_bytes (lg_options lg)"]
  by (simp add: load_def view_from_stored_def run_await_try run_attempt run_await guard_def new_view_def)

definition published :: "view \<Rightarrow> head \<Rightarrow> memory \<Rightarrow> path \<Rightarrow> bytes \<Rightarrow> bool" where
  "published v h m p bs \<longleftrightarrow> v_head v = h \<and> (\<exists>n. v_version v = clock_version n \<and> stored m p = Some (bs, n))"

lemma run_update_head:
  assumes "admits m (lg_store lg)" "stored m (head_path lg) = Some (bs0, n)" "v_version u = clock_version n"
    and "encode_head E h = Inr bs" "length bs \<le> max_head_bytes (lg_options lg)"
  shows "run (update_head E lg u h) m =
    (Inr (Some \<lparr>v_observed = m_fresh m, v_head = h, v_version = clock_version (m_clock m)\<rparr>),
     (memory_store m (head_path lg) bs)\<lparr>m_fresh := Suc (m_fresh m)\<rparr>)"
  using assms run_update_current [of m "lg_store lg" E HeadKey bs0 n bs]
  by (simp add: update_head_def run_await_try run_await run_attempt validate_head_size_def guard_def new_view_def
      memory_store_def)

lemma run_commit:
  assumes "admits m (lg_store lg)" "stored m (head_path lg) = Some (bs0, n)"
    and "v_version (pc_view p) = clock_version n" "active_plan (v_head (pc_view p)) = None"
    and "validate_prepared E lg p = Inr ()" "encode_prepared E lg p = Inr (c, bs)"
    and "pc_staging_domain p = lg_staging_domain lg"
    and "stored m (location E (lg_store lg) (commit_key lg c)) = None"
    and "candidate_head (v_head (pc_view p)) c = Inr h"
    and "encode_head E h = Inr hbs" "length hbs \<le> max_head_bytes (lg_options lg)"
  shows "\<exists>v m'. run (commit E lg p) m = (Inr (Committed v), m') \<and> published v h m' (head_path lg) hbs
    \<and> map_option fst (stored m' (location E (lg_store lg) (commit_key lg c))) = Some bs \<and> admits m' (lg_store lg)"
proof -
  let ?loc = "location E (lg_store lg) (commit_key lg c)"
  have other: "?loc \<noteq> head_path lg" "head_path lg \<noteq> ?loc"
    by (simp_all add: commit_key_def)
  let ?m = "memory_store m ?loc bs"
  have "run (publish_head E lg (pc_view p) (\<lambda>h. candidate_head h c)) ?m
      = (Inr (HeadUpdated \<lparr>v_observed = m_fresh m, v_head = h, v_version = clock_version (m_clock ?m)\<rparr>),
         (memory_store ?m (head_path lg) hbs)\<lparr>m_fresh := Suc (m_fresh m)\<rparr>)"
    using run_update_head [of ?m lg bs0 n "pc_view p" E h hbs] assms other
    by (simp add: publish_head_def publish_head_compatible_def publish_from.simps run_attempt run_await)
      (simp add: memory_store_def)
  with assms other show ?thesis
    by (simp add: commit_def run_attempt run_await_try verify_publication_def proof_matches_def
        active_collection_candidates_def is_blocked_def run_ensure_absent Let_def run_await
        tail_is_verified_def remember_tail_def published_def split: option.splits)
qed

end
