(* ===== verification/Fault_Properties.thy ===== *)
theory Fault_Properties
  imports Fault_Runs Progress Protocol_Properties
begin

text \<open>The properties of the fault-injecting store of \<^verbatim>\<open>src/src/sim.rs\<close>.\<close>


section \<open>A sample memory\<close>

definition sample_memory :: memory where
  "sample_memory = \<lparr>m_objects = [(head_path sample_log,
       (case encode_head sample_codec sample_head of Inr bs \<Rightarrow> bs | Inl _ \<Rightarrow> []), 1)],
     m_clock = 2, m_fresh = 10, m_denied = [], m_tail_proofs = [], m_plans = []\<rparr>"

lemma sample_version_clock: "sample_version = clock_version 1"
  by (simp add: sample_version_def clock_version_def show_nat.simps char_of_def bit_0)

lemma sample_mirrors:
  "mirrors sample_codec (head_path sample_log) sample_memory sample_world"
  using sample_head_encodes
  by (auto simp: mirrors_def sample_memory_def sample_world_def current_def sample_version_clock)


section \<open>Simulated runs\<close>

text \<open>
  C4. Simulated runs are runs of the protocol. Whatever faults are scheduled, running a program over the
  fault-injecting store around the in-memory store ends in a state that some world of the
  protocol theory matches, with the postcondition that \<open>wp\<close> established for the program: an injected
  failure or rejection, before or after the write took effect, never produces an answer the protocol
  does not account for.
\<close>

theorem fault_run_adequate:
  assumes "wp E A hp Q p w" "mirrors E hp (snd s) w" "fault_run p s = (x, s')"
  shows "\<exists>w'. mirrors E hp (snd s') w' \<and> Q x w'"
  using assms by (rule fault_run_adequate_lemma)

text \<open>The acknowledgement of the first write, the commit entry, is lost.\<close>

theorem fault_run_adequate_witness:
  "let s = fault_run (commit sample_codec sample_log sample_prepared)
       (fail_next OpPut PhaseAfter fault_state_default, sample_memory) in
   \<exists>w'. mirrors sample_codec (head_path sample_log) (snd (snd s)) w'
     \<and> commit_post sample_codec sample_head sample_commit_ref (fst s) w'"
proof -
  have "wp sample_codec (avoids (appends sample_commit_ref)) (head_path sample_log)
      (commit_post sample_codec sample_head sample_commit_ref) (commit sample_codec sample_log sample_prepared) sample_world"
    using cbor.wp_commit [OF sample_codec_cbor sample_world_ok _ sample_encode_prepared sample_flights]
      sample_position by (simp add: sample_prepared_def sample_view_def)
  from fault_run_adequate [OF this _ prod.collapse [symmetric]] sample_mirrors show ?thesis
    by (simp add: Let_def)
qed


section \<open>Scheduled failures\<close>

lemma take_first_None: "take_first P xs = None \<longleftrightarrow> (\<forall>x\<in>set xs. \<not> P x)"
  by (induction xs) auto

lemma take_first_last: "\<forall>x\<in>set xs. \<not> P x \<Longrightarrow> take_first P (xs @ [y]) = (if P y then Some (y, xs) else None)"
  by (induction xs) auto

text \<open>A request with exactly one failure scheduled for it.\<close>

definition armed :: "request_ticket \<Rightarrow> failure_phase \<Rightarrow> fault_state \<Rightarrow> bool" where
  "armed t phase st \<longleftrightarrow>
    (\<exists>fs. ft_failures st = fs @ [\<lparr>fl_operation = tk_operation t, fl_occurrence = tk_occurrence t, fl_phase = phase\<rparr>]
      \<and> (\<forall>f\<in>set fs. fl_operation f \<noteq> tk_operation t \<or> fl_occurrence f \<noteq> tk_occurrence t))
    \<and> (tk_operation t = OpPut \<longrightarrow> (\<forall>(n, _, _)\<in>set (ft_rejected_puts st). n \<noteq> tk_occurrence t))"

lemma armed_start:
  assumes "fault_start op n (fail_next op phase st) = (t, st')"
  shows "armed t phase st'" "tk_operation t = op"
    "tk_occurrence t = saturating_add (mt_requests (metrics_operation (ft_metrics st) op)) 1"
  using assms by (auto simp: armed_def fault_start_def fail_next_def Let_def update_metrics_def)

lemma armed_frame: "armed t phase st \<Longrightarrow> armed t phase (snd (enter_pause t' phase' st))"
  by (simp add: armed_def enter_pause_def split: option.splits)

lemma armed_take:
  assumes "armed t phase st"
  shows "take_rejected_put t phase' st = (None, st)"
    "phase' \<noteq> phase \<Longrightarrow> take_failure t phase' st = (False, st)"
    "\<exists>st'. take_failure t phase st = (True, st') \<and> faults_at (tk_operation t) (tk_occurrence t) st' = 0
      \<and> take_rejected_put t phase' st' = (None, st')"
proof -
  obtain fs where fs: "ft_failures st = fs @ [\<lparr>fl_operation = tk_operation t, fl_occurrence = tk_occurrence t, fl_phase = phase\<rparr>]"
    "\<forall>f\<in>set fs. fl_operation f \<noteq> tk_operation t \<or> fl_occurrence f \<noteq> tk_occurrence t"
    and puts: "tk_operation t = OpPut \<longrightarrow> (\<forall>(n, _, _)\<in>set (ft_rejected_puts st). n \<noteq> tk_occurrence t)"
    using assms by (auto simp: armed_def)
  have none: "tk_operation t = OpPut \<Longrightarrow> take_first (\<lambda>(occurrence, scheduled_phase, _).
      occurrence = tk_occurrence t \<and> scheduled_phase = phase') (ft_rejected_puts st) = None"
    using puts by (auto simp: take_first_None)
  have last: "take_first (\<lambda>f. fl_operation f = tk_operation t \<and> fl_occurrence f = tk_occurrence t \<and> fl_phase f = q)
      (ft_failures st)
    = (if phase = q then Some (\<lparr>fl_operation = tk_operation t, fl_occurrence = tk_occurrence t, fl_phase = phase\<rparr>, fs) else None)" for q
    unfolding fs(1) by (subst take_first_last) (use fs(2) in auto)
  show "take_rejected_put t phase' st = (None, st)"
    using none by (simp add: take_rejected_put_def)
  show "phase' \<noteq> phase \<Longrightarrow> take_failure t phase' st = (False, st)"
    by (simp add: take_failure_def last)
  have "faults_at (tk_operation t) (tk_occurrence t) (st\<lparr>ft_failures := fs\<rparr>) = 0"
    using fs(2) puts by (auto simp: faults_at_def filter_empty_conv)
  with none show "\<exists>st'. take_failure t phase st = (True, st') \<and> faults_at (tk_operation t) (tk_occurrence t) st' = 0
      \<and> take_rejected_put t phase' st' = (None, st')"
    by (simp add: take_failure_def last take_rejected_put_def)
qed

text \<open>
  C20. A failure scheduled with \<open>fail_next\<close> fires on the next request of its operation and is used up. Before
  the request, the caller sees the injected error and the wrapped store is untouched; after it, the
  caller sees the injected error although the wrapped request took effect (the ambiguous outcome). When the
  wrapped request itself fails, its error is returned and the scheduled failure stays pending.
\<close>

theorem fail_next_fires:
  "case fault_request (\<lambda>_ s. s) op n p request d (fail_next op phase st, b) of (r, (st', b')) \<Rightarrow>
     let occurrence = saturating_add (mt_requests (metrics_operation (ft_metrics st) op)) 1;
         injected = Inl (Injected \<lparr>if_operation = op, if_occurrence = occurrence, if_phase = phase, if_path = p\<rparr>) in
     case phase of
       PhaseBefore \<Rightarrow> r = injected \<and> b' = b \<and> faults_at op occurrence st' = 0
     | PhaseAfter \<Rightarrow>
         (case request b of
            (Inr x, b1) \<Rightarrow> r = injected \<and> b' = b1 \<and> faults_at op occurrence st' = 0
          | (Inl e, b1) \<Rightarrow> r = Inl e \<and> b' = b1
              \<and> \<lparr>fl_operation = op, fl_occurrence = occurrence, fl_phase = phase\<rparr> \<in> set (pending_failures st'))"
proof -
  obtain t st0 where t: "fault_start op n (fail_next op phase st) = (t, st0)" by fastforce
  define st1 where "st1 = snd (enter_pause t PhaseBefore st0)"
  define st2 where "st2 = snd (enter_pause t PhaseAfter st1)"
  note start = armed_start [OF t]
  have armed: "armed t phase st1" "armed t phase st2"
    using armed_frame start(1) by (simp_all add: st1_def st2_def)
  have "armed t phase (if phase = PhaseBefore then st1 else st2)" using armed by (cases phase) simp_all
  from armed_take(3) [OF this, of PhaseAfter] start(2)
  obtain st3 where st3: "take_failure t phase (if phase = PhaseBefore then st1 else st2) = (True, st3)"
      "faults_at op (tk_occurrence t) st3 = 0" "take_rejected_put t PhaseAfter st3 = (None, st3)"
    by auto
  have pending: "\<lparr>fl_operation = op, fl_occurrence = tk_occurrence t, fl_phase = phase\<rparr> \<in> set (ft_failures st1)"
    using armed(1) start(2) by (auto simp: armed_def)
  note defs = fault_request_def t execute_def st1_def [symmetric] st2_def [symmetric] execute_before_def
    execute_after_def injected_error_def start faults_at_frame Let_def pending_failures_def
  show ?thesis
  proof (cases phase)
    case PhaseBefore
    then show ?thesis using t st3 armed_take(1) [OF armed(1)] start by (simp add: defs)
  next
    case PhaseAfter
    note taken = armed_take(1) [OF armed(1)] armed_take(2) [OF armed(1), of PhaseBefore, unfolded PhaseAfter, simplified]
    have finish: "f \<in> set (ft_failures (fault_finish t p m out st1))" if "f \<in> set (ft_failures st1)" for f m out
      using that by (simp add: fault_finish_def update_metrics_def Let_def)
    show ?thesis
    proof (cases "fst (request b)")
      case (Inl e)
      then obtain b1 where "request b = (Inl e, b1)" by (cases "request b") simp
      with t taken PhaseAfter finish [OF pending] show ?thesis by (simp add: defs)
    next
      case (Inr x)
      then obtain b1 where "request b = (Inr x, b1)" by (cases "request b") simp
      with t taken PhaseAfter st3 show ?thesis by (simp add: defs)
    qed
  qed
qed


section \<open>Accounting\<close>






section \<open>Progress\<close>

text \<open>
  C3. An uncontended commit completes. On a store without scheduled faults and without other clients, a
  commit that is prepared on the current head and passes its validations returns \<open>Committed\<close>, and a \<open>load\<close> after
  it returns a view of the new head, which ends with the commit, under the version \<open>commit\<close> reported.
\<close>

theorem uncontended_commit_completes:
  assumes "cbor E" "unfaulted st" "admits m (lg_store lg)" "stored m (head_path lg) = Some (bs0, n)"
    and "v_version (pc_view p) = clock_version n" "active_plan (v_head (pc_view p)) = None"
    and "validate_prepared E lg p = Inr ()" "encode_prepared E lg p = Inr (c, bs)"
    and "pc_staging_domain p = lg_staging_domain lg"
    and "stored m (location E (lg_store lg) (commit_key lg c)) = None"
    and "candidate_head (v_head (pc_view p)) c = Inr h" "encode_head E h = Inr hbs" "head_fields_ok E h" "fits hbs"
    and "length hbs \<le> max_head_bytes (lg_options lg)" "max_head_bytes (lg_options lg) < 2 ^ 64"
    and "length hbs \<le> usize_MAX E"
  shows "\<exists>u v s. fault_run (await_try (commit E lg p) (\<lambda>status. await_try (load E lg) (\<lambda>v. succeed (status, v)))) (st, m)
      = (Inr (Committed u, v), s) \<and> v_head u = h \<and> is_same_head v u \<and> last (tail h) = c"
proof -
  let ?both = "await_try (commit E lg p) (\<lambda>status. await_try (load E lg) (\<lambda>v. succeed (status, v)))"
  obtain u m1 where commit: "run (commit E lg p) m = (Inr (Committed u), m1)"
    and u: "published u h m1 (head_path lg) hbs" and m1: "admits m1 (lg_store lg)"
    using run_commit [OF assms(3-12) assms(15)] by blast
  obtain k where k: "stored m1 (head_path lg) = Some (hbs, k)" "v_head u = h" "v_version u = clock_version k"
    using u by (auto simp: published_def)
  have h: "log_id h = ss_log_id (lg_store lg)" "incarnation h = lg_incarnation lg" "options h = lg_options lg"
    "last (tail h) = c"
    using assms(7,11) by (simp_all add: validate_prepared_def validate_view_def and_then_Inr guard_Inr candidate_head_Inr)
  have "decode_head E hbs = Inr h"
    using assms(12-14) cbor.decode_head_iff [OF assms(1)] by simp
  from run_load [OF m1 k(1) this assms(15-17) h(1-3)] commit
  have "fst (run ?both m)
      = Inr (Committed u, \<lparr>v_observed = m_fresh m1, v_head = h, v_version = clock_version k\<rparr>)"
    by (simp add: run_await_try)
  then have "fst (fault_run ?both (st, m))
      = Inr (Committed u, \<lparr>v_observed = m_fresh m1, v_head = h, v_version = clock_version k\<rparr>)"
    using fault_run_unfaulted [of "(st, m)" ?both] assms(2) by simp
  then obtain s where "fault_run ?both (st, m)
      = (Inr (Committed u, \<lparr>v_observed = m_fresh m1, v_head = h, v_version = clock_version k\<rparr>), s)"
    by (cases "fault_run ?both (st, m)") simp
  then show ?thesis
    using k h(4) by (intro exI conjI) (assumption, simp_all add: is_same_head_def)
qed

lemma length_commit_ref_le: "length (put_commit_ref_wire (rfc8949 m hash) (commit_ref_to_wire c)) \<le> 280"
  unfolding put_commit_ref_wire_def rfc8949_simps
  by (rule order_trans [OF length_rfc_struct_le [of _ 41]]) (simp_all add: commit_ref_to_wire_def length_le_simps)

definition sample_next_head :: head where
  "sample_next_head = sample_head\<lparr>generation := 1, next_sequence := 1, tail := [sample_commit_ref]\<rparr>"

lemma sample_candidate_head: "candidate_head sample_head sample_commit_ref = Inr sample_next_head"
  by (simp add: candidate_head_Inr sample_next_head_def sample_head_def head_empty_def can_advance_def)

lemma sample_next_head_encodes:
  "\<exists>bs. encode_head sample_codec sample_next_head = Inr bs \<and> length bs \<le> 10000"
proof -
  obtain w where w: "options_to_wire default_options = Inr w"
    using default_options_to_wire by blast
  have opts: "length (put_options_wire (rfc8949 18446744073709551615 (\<lambda>_. 0)) w) \<le> 300"
    by (rule order_trans [OF length_rfc_options_le]) simp
  have "head_ok (usize_MAX sample_codec) sample_next_head"
    by (rule candidate_head_ok [OF _ _ _ _ sample_candidate_head])
      (simp_all add: sample_head_def head_empty_ok, simp_all add: head_empty_def default_options_def sample_commit_ref_def)
  moreover have "options sample_next_head = default_options"
    by (simp add: sample_next_head_def sample_head_def head_empty_def)
  ultimately have "encode_head sample_codec sample_next_head
      = Inr (encode_envelope sample_codec (put_head_wire sample_codec (head_to_wire sample_next_head w)))"
    using head_validate_iff [of "usize_MAX sample_codec" sample_next_head] by (simp add: encode_head_def w)
  moreover have "length (put_head_wire sample_codec (head_to_wire sample_next_head w)) \<le> 9 + 16 * (9 + 300)"
    unfolding sample_codec_def put_head_wire_def rfc8949_simps
    using opts length_commit_ref_le [of 18446744073709551615 "\<lambda>_. 0" sample_commit_ref]
    by (intro order_trans [OF length_rfc_struct_le [of _ 300]])
      (simp_all add: head_to_wire_def sample_next_head_def sample_head_def head_empty_def length_le_simps)
  from length_rfc_envelope_le [OF this, of 18446744073709551615 "\<lambda>_. 0"]
  have "length (encode_envelope sample_codec (put_head_wire sample_codec (head_to_wire sample_next_head w))) \<le> 10000"
    by (simp add: sample_codec_def)
  ultimately show ?thesis by blast
qed

lemma sample_validates: "validate_prepared sample_codec sample_log sample_prepared = Inr ()"
  by (simp add: validate_prepared_def validate_view_def validate_prepared_sizes_def validate_dependencies_def
      validate_commit_position_def sample_prepared_def sample_view_def sample_log_def sample_head_def head_empty_def
      default_options_def guard_def publication_objects_def validate_object_count_def subtree_objects_def
      usize_try_from_def sample_codec_def)

theorem uncontended_commit_completes_witness:
  "\<exists>u v s. fault_run (await_try (commit sample_codec sample_log sample_prepared)
       (\<lambda>status. await_try (load sample_codec sample_log) (\<lambda>v. succeed (status, v)))) (fault_state_default, sample_memory)
     = (Inr (Committed u, v), s)
     \<and> v_head u = sample_next_head \<and> is_same_head v u \<and> last (tail sample_next_head) = sample_commit_ref"
proof -
  obtain hbs where hbs: "encode_head sample_codec sample_next_head = Inr hbs" "length hbs \<le> 10000"
    using sample_next_head_encodes by blast
  show ?thesis
  proof (rule uncontended_commit_completes [OF sample_codec_cbor _ _ _ _ _ sample_validates sample_encode_prepared])
    show "encode_head sample_codec sample_next_head = Inr hbs" by (rule hbs(1))
    show "fits hbs" using hbs(2) by (rule small_fits) simp
    show "stored sample_memory (head_path sample_log)
        = Some (case encode_head sample_codec sample_head of Inr bs \<Rightarrow> bs | Inl _ \<Rightarrow> [], 1)"
      by (simp add: stored_def sample_memory_def)
    show "head_fields_ok sample_codec sample_next_head"
      using default_options_fit
      by (simp add: head_fields_ok_def sample_next_head_def sample_head_def head_empty_def sample_log_id_ok sample_codec_def)
    show "stored sample_memory (location sample_codec (lg_store sample_log) (commit_key sample_log sample_commit_ref)) = None"
      by (simp add: stored_def sample_memory_def commit_key_def)
  qed (use hbs(2) in \<open>simp_all add: unfaulted_def fault_state_default_def admits_def sample_memory_def sample_prepared_def
      sample_view_def sample_version_clock sample_candidate_head sample_codec_def sample_log_def default_options_def\<close>,
      simp add: sample_head_def head_empty_def)
qed

end
