(* ===== verification/Wal_Transport.thy ===== *)
theory Wal_Transport
  imports Log_Core
begin

text \<open>
  The HTTP transport of the WAL component (\<^verbatim>\<open>examples/wal-component/src/transport.rs\<close> and
  \<^verbatim>\<open>request_retry.rs\<close>): the shared budget, the construction of a request, the exchange with the host,
  and the single replay of reads and conditional writes. The WASI host is a parameter: a \<open>host\<close> gives its answers to
  one call, a finite script for each stream; an exchange that never completes is \<open>None\<close>. Header names
  are in lower case, as the \<open>http\<close> crate keeps them, and header values are bytes.
\<close>


section \<open>Errors\<close>

datatype error_code =
    ConnectionTerminated | ConnectionReadTimeout | HttpResponseIncomplete | HttpProtocolError | OtherErrorCode

datatype http_failure = HttpError (he_source: http_source)
and http_source = FromCode error_code | FromStream | FromText string | FromHttp http_failure

definition http_error :: "http_source \<Rightarrow> http_failure" where
  "http_error source = HttpError source"

definition QUOTA_EXCEEDED :: string where
  "QUOTA_EXCEEDED = ''object storage transport limit exceeded''"

definition unsupported :: store_error where
  "unsupported = NotSupported"


section \<open>Budget\<close>

record budget =
  bg_max_calls :: u64
  bg_max_bytes :: u64
  bg_calls :: u64
  bg_bytes :: u64

text \<open>One \<open>fetch_update\<close> is one atomic step on its counter; \<open>None\<close> leaves it unchanged.\<close>

definition charge :: "u64 \<Rightarrow> u64 \<Rightarrow> u64 \<Rightarrow> u64 option" where
  "charge counter limit amount =
    (case checked_add counter amount of
       Some next_value \<Rightarrow> if next_value \<le> limit then Some next_value else None
     | None \<Rightarrow> None)"

definition budget_call :: "budget \<Rightarrow> (http_failure + unit) \<times> budget" where
  "budget_call b =
    (case charge (bg_calls b) (bg_max_calls b) 1 of
       Some calls \<Rightarrow> (Inr (), b\<lparr>bg_calls := calls\<rparr>)
     | None \<Rightarrow> (Inl (http_error (FromText QUOTA_EXCEEDED)), b))"

definition budget_transfer :: "usize \<Rightarrow> budget \<Rightarrow> (http_failure + unit) \<times> budget" where
  "budget_transfer n b =
    (case u64_try_from n of
       None \<Rightarrow> (Inl (http_error (FromText QUOTA_EXCEEDED)), b)
     | Some amount \<Rightarrow>
         (case charge (bg_bytes b) (bg_max_bytes b) amount of
            Some transferred \<Rightarrow> (Inr (), b\<lparr>bg_bytes := transferred\<rparr>)
          | None \<Rightarrow> (Inl (http_error (FromText QUOTA_EXCEEDED)), b)))"

definition transport_new :: "u64 \<Rightarrow> u64 \<Rightarrow> string + budget" where
  "transport_new max_calls max_bytes =
    (if max_calls = 0 \<or> max_bytes = 0 then Inl ''transport limits must be positive''
     else Inr \<lparr>bg_max_calls = max_calls, bg_max_bytes = max_bytes, bg_calls = 0, bg_bytes = 0\<rparr>)"

definition transport_usage :: "budget \<Rightarrow> u64 \<times> u64" where
  "transport_usage b = (bg_calls b, bg_bytes b)"


section \<open>Connecting\<close>

record client_options =
  co_timeout :: "string option"
  co_connect_timeout :: "string option"
  co_read_timeout :: "string option"

text \<open>The deadlines of a \<open>Service\<close>, in nanoseconds; its budget is the shared one.\<close>

record service =
  sv_connect :: "u64 option"
  sv_read :: "u64 option"

definition parse_deadline :: "(string \<Rightarrow> nat option) \<Rightarrow> string option \<Rightarrow> store_error + u64 option" where
  "parse_deadline parse_duration value =
    (case value of
       None \<Rightarrow> Inr None
     | Some text \<Rightarrow>
         (case parse_duration text of
            None \<Rightarrow> Inl unsupported
          | Some nanos \<Rightarrow> map_err (\<lambda>_. unsupported) (and_then (ok_or (u64_try_from nanos) ()) (\<lambda>n. Inr (Some n)))))"

definition connect :: "(string \<Rightarrow> nat option) \<Rightarrow> client_options \<Rightarrow> store_error + service" where
  "connect parse_duration opts =
    (if co_timeout opts \<noteq> None then Inl unsupported
     else
       and_then (parse_deadline parse_duration (co_connect_timeout opts)) (\<lambda>connect_deadline.
       and_then (parse_deadline parse_duration (co_read_timeout opts)) (\<lambda>read_deadline.
       Inr \<lparr>sv_connect = connect_deadline, sv_read = read_deadline\<rparr>)))"


section \<open>Requests\<close>

datatype frame = FrameError http_source | Data bytes | Trailers

record http_body =
  hb_frames :: "frame list"
  hb_content_length :: usize
  hb_exact :: "u64 option"

record http_request =
  rq_method :: string
  rq_scheme :: "string option"
  rq_authority :: "string option"
  rq_path :: string
  rq_path_and_query :: "string option"
  rq_headers :: "(string \<times> bytes) list"
  rq_body :: http_body

definition contains_key :: "(string \<times> bytes) list \<Rightarrow> string \<Rightarrow> bool" where
  "contains_key headers name \<longleftrightarrow> name \<in> fst ` set headers"

definition insert_header :: "string \<Rightarrow> bytes \<Rightarrow> (string \<times> bytes) list \<Rightarrow> (string \<times> bytes) list" where
  "insert_header name value headers = filter (\<lambda>h. fst h \<noteq> name) headers @ [(name, value)]"

datatype wasi_method =
    WasiGet | WasiHead | WasiPost | WasiPut | WasiDelete | WasiConnect | WasiOptions | WasiTrace | WasiPatch
  | WasiOther string

definition wasi_method_of :: "string \<Rightarrow> wasi_method" where
  "wasi_method_of m =
    (if m = ''GET'' then WasiGet else if m = ''HEAD'' then WasiHead else if m = ''POST'' then WasiPost
     else if m = ''PUT'' then WasiPut else if m = ''DELETE'' then WasiDelete else if m = ''CONNECT'' then WasiConnect
     else if m = ''OPTIONS'' then WasiOptions else if m = ''TRACE'' then WasiTrace else if m = ''PATCH'' then WasiPatch
     else WasiOther m)"

datatype wasi_scheme = SchemeHttp | SchemeHttps | SchemeOther string

definition wasi_scheme_of :: "string \<Rightarrow> wasi_scheme" where
  "wasi_scheme_of s = (if s = ''http'' then SchemeHttp else if s = ''https'' then SchemeHttps else SchemeOther s)"

record outgoing =
  og_headers :: "(string \<times> bytes) list"
  og_method :: wasi_method
  og_path :: "string option"
  og_scheme :: "wasi_scheme option"
  og_authority :: "string option"


section \<open>The host\<close>

text \<open>
  The answers of the WASI host to one call. A setter answers whether it accepts its value. A stream is
  the script of its answers: \<open>Available n ok\<close> is a \<open>check_write\<close> with the answer to the write that
  follows it.
\<close>

datatype output_answer = CheckFailed | Available u64 bool

datatype stream_read = Chunk bytes | StreamClosed | StreamFailed

record incoming =
  in_status :: nat
  in_headers :: "(string \<times> bytes) list"
  in_consume :: bool
  in_stream :: bool
  in_reads :: "stream_read list"

datatype reply = ResponseConsumed | ReplyError error_code | Reply incoming

text \<open>
  \<open>ex_upload_first\<close>: the upload completes before the response; otherwise the response arrives while
  \<open>ex_sent\<close> frames have been handled.
\<close>

record exchange =
  ex_output :: "output_answer list"
  ex_finish :: "error_code option"
  ex_reply :: reply
  ex_upload_first :: bool
  ex_sent :: nat

record host =
  ho_fields :: "(string \<times> bytes) list \<Rightarrow> http_source option"
  ho_set_method :: "wasi_method \<Rightarrow> bool"
  ho_set_path :: "string option \<Rightarrow> bool"
  ho_set_scheme :: "wasi_scheme option \<Rightarrow> bool"
  ho_set_authority :: "string option \<Rightarrow> bool"
  ho_body :: bool
  ho_write :: bool
  ho_set_connect_timeout :: "u64 option \<Rightarrow> bool"
  ho_set_first_byte_timeout :: "u64 option \<Rightarrow> bool"
  ho_set_between_bytes_timeout :: "u64 option \<Rightarrow> bool"
  ho_handle :: "outgoing \<Rightarrow> error_code + exchange"
  ho_response :: "nat \<Rightarrow> (string \<times> bytes) list \<Rightarrow> bool"

definition text_guard :: "bool \<Rightarrow> string \<Rightarrow> http_failure + unit" where
  "text_guard ok message = guard ok (http_error (FromText message))"

definition outgoing_request :: "host \<Rightarrow> http_request \<Rightarrow> http_failure + outgoing" where
  "outgoing_request h parts =
    (let method = wasi_method_of (rq_method parts);
         scheme = map_option wasi_scheme_of (rq_scheme parts);
         invalid_request = ''invalid outgoing HTTP request'' in
     and_then (case ho_fields h (rq_headers parts) of Some e \<Rightarrow> Inl (http_error e) | None \<Rightarrow> Inr ()) (\<lambda>_.
     and_then (text_guard (ho_set_method h method) invalid_request) (\<lambda>_.
     and_then (text_guard (ho_set_path h (rq_path_and_query parts)) invalid_request) (\<lambda>_.
     and_then (text_guard (ho_set_scheme h scheme) invalid_request) (\<lambda>_.
     and_then (text_guard (ho_set_authority h (rq_authority parts)) invalid_request) (\<lambda>_.
     Inr \<lparr>og_headers = rq_headers parts, og_method = method, og_path = rq_path_and_query parts,
          og_scheme = scheme, og_authority = rq_authority parts\<rparr>))))))"


section \<open>Bodies\<close>

text \<open>The items that a script of reads yields; an empty chunk means that the stream is not ready.\<close>

fun body_items :: "stream_read list \<Rightarrow> (http_failure + bytes) list" where
  "body_items [] = []"
| "body_items (Chunk [] # reads) = body_items reads"
| "body_items (Chunk (b # bs) # reads) = Inr (b # bs) # body_items reads"
| "body_items (StreamClosed # reads) = []"
| "body_items (StreamFailed # reads) = Inl (http_error FromStream) # body_items reads"

definition incoming_body :: "incoming \<Rightarrow> http_failure + (http_failure + bytes) list" where
  "incoming_body response =
    and_then (text_guard (in_consume response) ''response body unavailable'') (\<lambda>_.
    and_then (text_guard (in_stream response) ''response stream unavailable'') (\<lambda>_.
    Inr (body_items (in_reads response))))"

text \<open>What the consumer of the response body sees; each chunk is charged when it is consumed.\<close>

fun charged_body :: "(http_failure + bytes) list \<Rightarrow> budget \<Rightarrow> (http_failure + bytes) list \<times> budget" where
  "charged_body [] b = ([], b)"
| "charged_body (Inl e # items) b =
    (case charged_body items b of (rs, b) \<Rightarrow> (Inl (http_error (FromHttp e)) # rs, b))"
| "charged_body (Inr chunk # items) b =
    (case budget_transfer (length chunk) b of (charged, b) \<Rightarrow>
     case charged_body items b of (rs, b) \<Rightarrow>
     (and_then charged (\<lambda>_. Inr chunk) # rs, b))"

text \<open>\<open>write_chunk\<close> from an offset: its result if it completes, the slices written, and the rest of the script.\<close>

fun write_from ::
    "usize \<Rightarrow> bytes \<Rightarrow> output_answer list \<Rightarrow> usize \<Rightarrow> (http_failure + unit) option \<times> bytes list \<times> output_answer list" where
  "write_from usize_max bs [] offset = (if offset < length bs then None else Some (Inr ()), [], [])"
| "write_from usize_max bs (answer # answers) offset =
    (if offset < length bs
     then
       (case answer of
          CheckFailed \<Rightarrow> (Some (Inl (http_error FromStream)), [], answers)
        | Available available ok \<Rightarrow>
            if available = 0 then write_from usize_max bs answers offset
            else
              let count = min (case usize_try_from usize_max available of Some n \<Rightarrow> n | None \<Rightarrow> usize_max) (length bs - offset) in
              if \<not> ok then (Some (Inl (http_error FromStream)), [], answers)
              else (case write_from usize_max bs answers (offset + count) of (r, written, rest) \<Rightarrow>
                (r, take count (drop offset bs) # written, rest)))
     else (Some (Inr ()), [], answer # answers))"

definition write_chunk ::
    "usize \<Rightarrow> bytes \<Rightarrow> output_answer list \<Rightarrow> (http_failure + unit) option \<times> bytes list \<times> output_answer list" where
  "write_chunk usize_max bs output = write_from usize_max bs output 0"


section \<open>The exchange\<close>

text \<open>
  The upload of a body, up to closing the output: each data frame is charged before it is written.
\<close>

fun upload_frames ::
    "usize \<Rightarrow> frame list \<Rightarrow> output_answer list \<Rightarrow> budget \<Rightarrow> (http_failure + unit) option \<times> bytes list \<times> budget" where
  "upload_frames usize_max [] output b = (Some (Inr ()), [], b)"
| "upload_frames usize_max (FrameError e # frames) output b = (Some (Inl (http_error e)), [], b)"
| "upload_frames usize_max (Trailers # frames) output b = upload_frames usize_max frames output b"
| "upload_frames usize_max (Data data # frames) output b =
    (case budget_transfer (length data) b of
       (Inl e, b) \<Rightarrow> (Some (Inl e), [], b)
     | (Inr _, b) \<Rightarrow>
         (case write_chunk usize_max data output of
            (Some (Inr _), written, output) \<Rightarrow>
              (case upload_frames usize_max frames output b of (r, further, b) \<Rightarrow> (r, written @ further, b))
          | (r, written, output) \<Rightarrow> (r, written, b)))"

definition upload_body ::
    "usize \<Rightarrow> exchange \<Rightarrow> frame list \<Rightarrow> budget \<Rightarrow> (http_failure + unit) option \<times> budget" where
  "upload_body usize_max x frames b =
    (case upload_frames usize_max frames (ex_output x) b of
       (Some (Inr _), _, b) \<Rightarrow>
         (Some (case ex_finish x of Some code \<Rightarrow> Inl (http_error (FromCode code)) | None \<Rightarrow> Inr ()), b)
     | (r, _, b) \<Rightarrow> (r, b))"

fun reply_result :: "reply \<Rightarrow> http_failure + incoming" where
  "reply_result ResponseConsumed = Inl (http_error (FromText ''response already consumed''))"
| "reply_result (ReplyError code) = Inl (http_error (FromCode code))"
| "reply_result (Reply response) = Inr response"

definition finish_exchange :: "bool \<Rightarrow> 'e + unit \<Rightarrow> 'e + 't \<Rightarrow> ('t \<Rightarrow> bool) \<Rightarrow> 'e + 't" where
  "finish_exchange upload_first uploaded response is_success =
    (if upload_first
     then
       (case uploaded of
          Inr _ \<Rightarrow> response
        | Inl upload_error \<Rightarrow>
            (case response of
               Inr r \<Rightarrow> if \<not> is_success r then Inr r else Inl upload_error
             | Inl _ \<Rightarrow> Inl upload_error))
     else
       (case response of
          Inr r \<Rightarrow> if \<not> is_success r then Inr r else and_then uploaded (\<lambda>_. response)
        | Inl _ \<Rightarrow> and_then uploaded (\<lambda>_. response)))"

definition status_is_success :: "nat \<Rightarrow> bool" where
  "status_is_success status \<longleftrightarrow> 200 \<le> status \<and> status < 300"

text \<open>A rejection that arrives first drops the rest of the upload.\<close>

definition exchange_outcome ::
    "usize \<Rightarrow> exchange \<Rightarrow> frame list \<Rightarrow> budget \<Rightarrow> ((http_failure + incoming) \<times> budget) option" where
  "exchange_outcome usize_max x frames b =
    (let response = reply_result (ex_reply x);
         rejected = (case response of Inr r \<Rightarrow> \<not> status_is_success (in_status r) | Inl _ \<Rightarrow> False) in
     if \<not> ex_upload_first x \<and> rejected
     then Some (finish_exchange False (Inr ()) response (\<lambda>r. status_is_success (in_status r)),
       snd (upload_body usize_max x (take (ex_sent x) frames) b))
     else
       (case upload_body usize_max x frames b of
          (None, _) \<Rightarrow> None
        | (Some uploaded, b) \<Rightarrow>
            Some (finish_exchange (ex_upload_first x) uploaded response (\<lambda>r. status_is_success (in_status r)), b)))"


section \<open>One call\<close>

record http_response =
  hr_status :: nat
  hr_headers :: "(string \<times> bytes) list"
  hr_items :: "(http_failure + bytes) list"

definition METADATA_AUTHORITY :: string where
  "METADATA_AUTHORITY = ''169.254.169.254''"

definition ascii :: "string \<Rightarrow> bytes" where
  "ascii text = map (\<lambda>c. of_nat (of_char c)) text"

text \<open>The headers of the request as they are sent.\<close>

definition sent_headers :: "http_request \<Rightarrow> (string \<times> bytes) list" where
  "sent_headers request =
    (let exact = hb_exact (rq_body request);
         headers = rq_headers request;
         headers =
           (if rq_method request = ''PUT''
               \<and> (contains_key headers ''if-match'' \<or> contains_key headers ''if-none-match'')
               \<and> (case exact of Some n \<Rightarrow> n > 0 | None \<Rightarrow> False)
            then insert_header ''expect'' (ascii ''100-continue'') headers else headers) in
     if \<not> contains_key headers ''content-length''
     then (case exact of
        Some n \<Rightarrow> insert_header ''content-length'' (ascii (show_nat (unat n))) headers
      | None \<Rightarrow> headers)
     else headers)"

definition read_timeout :: "service \<Rightarrow> http_request \<Rightarrow> u64 option" where
  "read_timeout srv request =
    (if rq_authority request = Some METADATA_AUTHORITY \<and> strip_prefix ''/latest/'' (rq_path request) \<noteq> None
     then Some 1000000000 else sv_read srv)"

definition request_setup :: "host \<Rightarrow> service \<Rightarrow> http_request \<Rightarrow> http_failure + exchange" where
  "request_setup h srv request =
    (let deadline = read_timeout srv request in
     and_then (outgoing_request h (request\<lparr>rq_headers := sent_headers request\<rparr>)) (\<lambda>og.
     and_then (text_guard (ho_body h) ''outgoing body unavailable'') (\<lambda>_.
     and_then (text_guard (ho_write h) ''output stream unavailable'') (\<lambda>_.
     and_then (text_guard (ho_set_connect_timeout h (sv_connect srv)) ''unsupported connect timeout'') (\<lambda>_.
     and_then (text_guard (ho_set_first_byte_timeout h deadline) ''unsupported first-byte timeout'') (\<lambda>_.
     and_then (text_guard (ho_set_between_bytes_timeout h deadline) ''unsupported read timeout'') (\<lambda>_.
     map_err (\<lambda>code. http_error (FromCode code)) (ho_handle h og))))))))"

definition http_response_of :: "host \<Rightarrow> incoming \<Rightarrow> http_failure + http_response" where
  "http_response_of h response =
    and_then (incoming_body response) (\<lambda>items.
    and_then (text_guard (ho_response h (in_status response) (in_headers response)) ''invalid response'') (\<lambda>_.
    Inr \<lparr>hr_status = in_status response, hr_headers = in_headers response, hr_items = items\<rparr>))"

definition call_once ::
    "usize \<Rightarrow> host \<Rightarrow> service \<Rightarrow> http_request \<Rightarrow> budget \<Rightarrow> ((http_failure + http_response) \<times> budget) option" where
  "call_once usize_max h srv request b =
    (case budget_call b of
       (Inl e, b) \<Rightarrow> Some (Inl e, b)
     | (Inr _, b) \<Rightarrow>
         (case request_setup h srv request of
            Inl e \<Rightarrow> Some (Inl e, b)
          | Inr x \<Rightarrow>
              map_option (\<lambda>(r, b). (and_then r (http_response_of h), b))
                (exchange_outcome usize_max x (hb_frames (rq_body request)) b)))"


section \<open>The replay\<close>

definition single_value :: "(string \<times> bytes) list \<Rightarrow> string \<Rightarrow> bytes option" where
  "single_value headers name =
    (case map snd (filter (\<lambda>h. fst h = name) headers) of [value] \<Rightarrow> Some value | _ \<Rightarrow> None)"

definition is_read :: "http_request \<Rightarrow> bool" where
  "is_read request \<longleftrightarrow> (rq_method request = ''GET'' \<or> rq_method request = ''HEAD'')
    \<and> hb_content_length (rq_body request) = 0"

definition quoted_tag :: "bytes \<Rightarrow> bool" where
  "quoted_tag value \<longleftrightarrow>
    length value \<ge> 2 \<and> value ! 0 = 0x22 \<and> value ! (length value - 1) = 0x22
    \<and> \<not> list_ex (\<lambda>b. b = 0x22 \<or> b = 0x2c) (take (length value - 2) (drop 1 value))"

definition is_conditional_put :: "http_request \<Rightarrow> bool" where
  "is_conditional_put request \<longleftrightarrow>
    (let create_condition = (single_value (rq_headers request) ''if-none-match'' = Some (ascii ''*''));
         update_condition = (case single_value (rq_headers request) ''if-match'' of Some v \<Rightarrow> quoted_tag v | None \<Rightarrow> False) in
     rq_method request = ''PUT'' \<and> (create_condition \<or> update_condition))"

definition retry_request ::
    "http_request \<Rightarrow> (http_request \<Rightarrow> 's \<Rightarrow> ((http_failure + http_response) \<times> 's) option) \<Rightarrow> (http_failure \<Rightarrow> bool)
      \<Rightarrow> 's \<Rightarrow> ((http_failure + http_response) \<times> 's) option" where
  "retry_request request attempt_once retryable_error s =
    (if \<not> is_read request \<and> \<not> is_conditional_put request then attempt_once request s
     else
       Option.bind (attempt_once request s) (\<lambda>(r, s).
       case r of
         Inr response \<Rightarrow> Some (Inr response, s)
       | Inl first \<Rightarrow>
           if retryable_error first
           then
             map_option (\<lambda>(response, s).
               (if is_read request \<or> (case response of Inr r \<Rightarrow> status_is_success (hr_status r) | Inl _ \<Rightarrow> False)
                then response else Inl first, s)) (attempt_once request s)
           else Some (Inl first, s)))"

definition retryable :: "http_failure \<Rightarrow> bool" where
  "retryable error =
    (case he_source error of
       FromCode code \<Rightarrow>
         code \<in> {ConnectionTerminated, ConnectionReadTimeout, HttpResponseIncomplete, HttpProtocolError}
     | _ \<Rightarrow> False)"

text \<open>\<open>hosts n\<close> is the host's behaviour in the \<open>n\<close>-th attempt.\<close>

definition service_call ::
    "usize \<Rightarrow> (nat \<Rightarrow> host) \<Rightarrow> service \<Rightarrow> http_request \<Rightarrow> budget \<times> nat
      \<Rightarrow> ((http_failure + http_response) \<times> (budget \<times> nat)) option" where
  "service_call usize_max hosts srv request s =
    retry_request request (\<lambda>request (b, n).
      map_option (\<lambda>(r, b). (r, (b, Suc n))) (call_once usize_max (hosts n) srv request b)) retryable s"


section \<open>Cryptography\<close>

datatype digest_algorithm = Sha256 | OtherAlgorithm

text \<open>A context is the input absorbed so far; the hash functions are parameters.\<close>

definition crypto_digest :: "digest_algorithm \<Rightarrow> store_error + bytes" where
  "crypto_digest algorithm = (case algorithm of Sha256 \<Rightarrow> Inr [] | OtherAlgorithm \<Rightarrow> Inl unsupported)"

definition crypto_hmac ::
    "(bytes \<Rightarrow> bool) \<Rightarrow> digest_algorithm \<Rightarrow> bytes \<Rightarrow> store_error + (bytes \<times> bytes)" where
  "crypto_hmac accepts_key algorithm secret =
    (case algorithm of
       Sha256 \<Rightarrow> and_then (guard (accepts_key secret) unsupported) (\<lambda>_. Inr (secret, []))
     | OtherAlgorithm \<Rightarrow> Inl unsupported)"

definition digest_update :: "bytes \<Rightarrow> bytes \<Rightarrow> bytes" where
  "digest_update context data = context @ data"

definition digest_finish :: "(bytes \<Rightarrow> bytes) \<Rightarrow> bytes \<Rightarrow> bytes" where
  "digest_finish sha256 context = sha256 context"

definition hmac_update :: "bytes \<times> bytes \<Rightarrow> bytes \<Rightarrow> bytes \<times> bytes" where
  "hmac_update context data = (fst context, snd context @ data)"

definition hmac_finish :: "(bytes \<Rightarrow> bytes \<Rightarrow> bytes) \<Rightarrow> bytes \<times> bytes \<Rightarrow> bytes" where
  "hmac_finish hmac_sha256 context = hmac_sha256 (fst context) (snd context)"

definition crypto_sign :: "bytes \<Rightarrow> store_error + unit" where
  "crypto_sign key = Inl unsupported"

end
