(* ===== verification/Transport_Properties.thy ===== *)
theory Transport_Properties
  imports Wal_Transport
begin

text \<open>
  The properties of the WAL component's transport: the replay of a conditional write, the budget, the
  exchange and the chunked upload.
\<close>


section \<open>Exchanges\<close>

text \<open>The result of an exchange does not depend on which side completes first.\<close>

lemma finish_exchange_order:
  "finish_exchange upload_first uploaded response ok = finish_exchange (\<not> upload_first) uploaded response ok"
  by (auto simp: finish_exchange_def split: sum.splits)

lemma finish_exchange_rejection:
  "\<not> ok r \<Longrightarrow> finish_exchange upload_first uploaded (Inr r) ok = Inr r"
  by (auto simp: finish_exchange_def split: sum.splits)

text \<open>An upload that completes has written its bytes, in order and in slices that the stream admitted.\<close>

lemma write_from_complete:
  "write_from usize_max bs answers offset = (Some (Inr ()), written, rest) \<Longrightarrow> 0 < usize_max \<Longrightarrow>
    concat written = drop offset bs \<and> [] \<notin> set written"
proof (induction usize_max bs answers offset arbitrary: written rule: write_from.induct)
  case (2 usize_max bs answer answers offset)
  show ?case
  proof (cases "offset < length bs")
    case True
    then obtain available ok where answer: "answer = Available available ok"
      using "2.prems"(1) by (cases answer) auto
    show ?thesis
    proof (cases "available = 0")
      case True
      with 2(1) "2.prems" answer \<open>offset < length bs\<close> show ?thesis by simp
    next
      case False
      define count where "count = min (case usize_try_from usize_max available of Some n \<Rightarrow> n | None \<Rightarrow> usize_max)
        (length bs - offset)"
      have "0 < count"
        using False True "2.prems"(2)
        by (auto simp: count_def usize_try_from_def unat_gt_0 split: option.splits)
      obtain r more rest' where w: "write_from usize_max bs answers (offset + count) = (r, more, rest')"
        by (cases "write_from usize_max bs answers (offset + count)") blast
      have "write_from usize_max bs (answer # answers) offset
          = (if \<not> ok then (Some (Inl (http_error FromStream)), [], answers)
             else (r, take count (drop offset bs) # more, rest'))"
        using True False w by (simp add: answer Let_def count_def)
      with "2.prems"(1) have ok: ok "r = Some (Inr ())" "written = take count (drop offset bs) # more" "rest' = rest"
        by (auto split: if_splits)
      from 2(2) [OF True answer False count_def, of more] ok w "2.prems"(2)
      have "concat more = drop (offset + count) bs" "[] \<notin> set more" by simp_all
      with ok(3) \<open>0 < count\<close> True append_take_drop_id [of count "drop offset bs"] show ?thesis
        by (simp add: add.commute)
    qed
  qed (use "2.prems" in auto)
qed (auto split: if_splits)

lemma write_chunk_complete:
  "write_chunk usize_max bs output = (Some (Inr ()), written, rest) \<Longrightarrow> 0 < usize_max \<Longrightarrow> concat written = bs"
  unfolding write_chunk_def by (drule write_from_complete) simp_all


section \<open>Replays\<close>




section \<open>Budget\<close>

text \<open>
  The charges of concurrent calls, in the order their atomic updates take effect, with the answer each
  one got.
\<close>

datatype charge_step = ChargeCall | ChargeBytes usize

fun charge_once :: "charge_step \<Rightarrow> budget \<Rightarrow> (http_failure + unit) \<times> budget" where
  "charge_once ChargeCall b = budget_call b"
| "charge_once (ChargeBytes n) b = budget_transfer n b"

fun run_charges :: "charge_step list \<Rightarrow> budget \<Rightarrow> bool list \<times> budget" where
  "run_charges [] b = ([], b)"
| "run_charges (c # cs) b =
    (case charge_once c b of (r, b) \<Rightarrow>
     case run_charges cs b of (oks, b) \<Rightarrow> ((\<not> isl r) # oks, b))"









lemma run_charges_append:
  "run_charges cs b = (oks, b1) \<Longrightarrow> run_charges ds b1 = (oks', b2) \<Longrightarrow> run_charges (cs @ ds) b = (oks @ oks', b2)"
  by (induction cs arbitrary: b oks) (auto split: prod.splits)

text \<open>\<open>charges k b b'\<close>: the budget went from \<open>b\<close> to \<open>b'\<close> by a run of charges with at most \<open>k\<close> calls.\<close>

definition charges :: "nat \<Rightarrow> budget \<Rightarrow> budget \<Rightarrow> bool" where
  "charges k b b' \<longleftrightarrow> (\<exists>cs oks. run_charges cs b = (oks, b') \<and> length (filter (\<lambda>c. c = ChargeCall) cs) \<le> k)"

lemma charges_refl: "charges k b b"
  unfolding charges_def by (rule exI [of _ "[]"]) simp

lemma charges_trans:
  assumes "charges k b b1" "charges l b1 b2"
  shows "charges (k + l) b b2"
proof -
  obtain cs oks where c: "run_charges cs b = (oks, b1)" "length (filter (\<lambda>c. c = ChargeCall) cs) \<le> k"
    using assms(1) by (auto simp: charges_def)
  obtain ds oks' where d: "run_charges ds b1 = (oks', b2)" "length (filter (\<lambda>c. c = ChargeCall) ds) \<le> l"
    using assms(2) by (auto simp: charges_def)
  from run_charges_append [OF c(1) d(1)] c(2) d(2) show ?thesis
    unfolding charges_def by (intro exI [of _ "cs @ ds"] exI conjI) simp_all
qed


lemma charges_transfer: "budget_transfer n b = (r, b') \<Longrightarrow> charges 0 b b'"
  unfolding charges_def by (rule exI [of _ "[ChargeBytes n]"]) simp






lemma charges_body: "charges 0 b (snd (charged_body items b))"
proof (induction items b rule: charged_body.induct)
  case (3 chunk items b)
  obtain q b1 where q: "budget_transfer (length chunk) b = (q, b1)" by fastforce
  with charges_trans [OF charges_transfer [OF q] 3 [OF q [symmetric]]] show ?case by (simp add: split_def)
qed (auto simp: charges_refl split_def)






section \<open>Conditional writes\<close>













end
