(* ===== verification/Wal_Session.thy ===== *)
theory Wal_Session
  imports Wal_Transport Log_Maintain Log_Publish History Byte_Stream
begin

text \<open>
  The WAL component (\<^verbatim>\<open>examples/wal-component/src/lib.rs\<close> and \<^verbatim>\<open>maintenance.rs\<close>): configuration,
  sessions with their cached view, recovery cursors, candidates, pending checkpoints, byte streams and
  maintenance. A resource with a \<open>RefCell\<close> is a state that its methods return updated; running a future to
  completion is running its effect tree. The parser of object-store paths and the S3 client are
  parameters.
\<close>


section \<open>Failures\<close>

text \<open>The text of a log error is kept as the error itself.\<close>

datatype wal_failure = FailureMissing | FailureExpired | FailureLimit string | FailureOther string | FailureError error

fun failure_of :: "error \<Rightarrow> wal_failure" where
  "failure_of LogNotFound = FailureMissing"
| "failure_of ViewExpired = FailureExpired"
| "failure_of (LimitExceeded limit) = FailureLimit limit"
| "failure_of e = FailureError e"

definition run_log :: "'a action \<Rightarrow> (wal_failure + 'a) prog" where
  "run_log p = await p (\<lambda>r. Done (map_err failure_of r))"


section \<open>Configuration\<close>

datatype credential_mode = StaticCredentials | InstanceRole

record log_limits =
  ll_max_tail_entries :: u64
  ll_resolution_window :: u64
  ll_max_inline_operation_bytes :: u64
  ll_max_inline_result_bytes :: u64
  ll_max_object_refs :: u64
  ll_max_object_bytes :: u64
  ll_max_commit_bytes :: u64
  ll_max_head_bytes :: u64
  ll_max_checkpoint_bytes :: u64
  ll_max_retention_ids :: u64
  ll_max_collection_objects :: u64
  ll_max_collection_plan_bytes :: u64

record wal_config =
  cf_endpoint :: string
  cf_bucket :: string
  cf_region :: string
  cf_credential_mode :: credential_mode
  cf_access_key :: string
  cf_secret_key :: string
  cf_session_token :: "string option"
  cf_prefix :: string
  cf_log_id :: string
  cf_log_limits :: log_limits
  cf_max_calls :: u64
  cf_max_bytes :: u64

text \<open>The settings of the S3 client; timeouts are in seconds.\<close>

record s3_settings =
  s3_endpoint :: string
  s3_bucket :: string
  s3_region :: string
  s3_allow_http :: bool
  s3_connect_timeout :: nat
  s3_read_timeout :: nat
  s3_max_retries :: nat
  s3_static_keys :: "(string \<times> string) option"
  s3_token :: "string option"
  s3_metadata_endpoint :: "string option"

definition INSTANCE_METADATA_ENDPOINT :: string where
  "INSTANCE_METADATA_ENDPOINT = ''http://169.254.169.254''"

definition s3_builder :: "wal_config \<Rightarrow> wal_failure + s3_settings" where
  "s3_builder settings =
    (if cf_region settings = [] then Inl (FailureOther ''S3 region is required'')
     else
       let builder = \<lparr>s3_endpoint = cf_endpoint settings, s3_bucket = cf_bucket settings, s3_region = cf_region settings,
             s3_allow_http = (strip_prefix ''http://'' (cf_endpoint settings) \<noteq> None),
             s3_connect_timeout = 5, s3_read_timeout = 30, s3_max_retries = 0,
             s3_static_keys = None, s3_token = None, s3_metadata_endpoint = None\<rparr> in
       case cf_credential_mode settings of
         StaticCredentials \<Rightarrow>
           if cf_access_key settings = [] \<or> cf_secret_key settings = [] \<or> cf_session_token settings = Some []
           then Inl (FailureOther ''static S3 credentials are incomplete'')
           else Inr (builder\<lparr>s3_static_keys := Some (cf_access_key settings, cf_secret_key settings),
             s3_token := cf_session_token settings\<rparr>)
       | InstanceRole \<Rightarrow>
           if cf_access_key settings \<noteq> [] \<or> cf_secret_key settings \<noteq> [] \<or> cf_session_token settings \<noteq> None
           then Inl (FailureOther ''instance-role credentials cannot include static keys or a token'')
           else Inr (builder\<lparr>s3_metadata_endpoint := Some INSTANCE_METADATA_ENDPOINT\<rparr>))"

definition connect_store :: "(s3_settings \<Rightarrow> string option) \<Rightarrow> wal_config \<Rightarrow> wal_failure + budget" where
  "connect_store build settings =
    and_then (map_err FailureOther (transport_new (cf_max_calls settings) (cf_max_bytes settings))) (\<lambda>transport.
    and_then (s3_builder settings) (\<lambda>builder.
    case build builder of Some e \<Rightarrow> Inl (FailureOther e) | None \<Rightarrow> Inr transport))"

definition limit_of :: "externals \<Rightarrow> u64 \<Rightarrow> string \<Rightarrow> wal_failure + usize" where
  "limit_of E value name = ok_or (usize_try_from (usize_MAX E) value) (FailureOther (''invalid '' @ name))"

definition log_options :: "externals \<Rightarrow> log_limits \<Rightarrow> wal_failure + options" where
  "log_options E limits =
    and_then (limit_of E (ll_max_tail_entries limits) ''tail entry limit'') (\<lambda>tail_entries.
    and_then (limit_of E (ll_resolution_window limits) ''resolution window'') (\<lambda>window.
    and_then (limit_of E (ll_max_inline_operation_bytes limits) ''inline operation limit'') (\<lambda>operation_bytes.
    and_then (limit_of E (ll_max_inline_result_bytes limits) ''inline result limit'') (\<lambda>result_bytes.
    and_then (limit_of E (ll_max_object_refs limits) ''object reference limit'') (\<lambda>refs.
    and_then (limit_of E (ll_max_object_bytes limits) ''object byte limit'') (\<lambda>object_bytes.
    and_then (limit_of E (ll_max_commit_bytes limits) ''commit byte limit'') (\<lambda>commit_bytes.
    and_then (limit_of E (ll_max_head_bytes limits) ''head byte limit'') (\<lambda>head_bytes.
    and_then (limit_of E (ll_max_checkpoint_bytes limits) ''checkpoint byte limit'') (\<lambda>checkpoint_bytes.
    and_then (limit_of E (ll_max_retention_ids limits) ''retention limit'') (\<lambda>retentions.
    and_then (limit_of E (ll_max_collection_objects limits) ''collection object limit'') (\<lambda>collection_objects.
    and_then (limit_of E (ll_max_collection_plan_bytes limits) ''collection plan byte limit'') (\<lambda>plan_bytes.
    Inr \<lparr>max_tail_entries = tail_entries, resolution_window = window, max_inline_operation_bytes = operation_bytes,
         max_inline_result_bytes = result_bytes, max_object_refs = refs, max_object_bytes = object_bytes,
         max_commit_bytes = commit_bytes, max_head_bytes = head_bytes, max_checkpoint_bytes = checkpoint_bytes,
         max_retention_ids = retentions, max_collection_objects = collection_objects,
         max_collection_plan_bytes = plan_bytes\<rparr>))))))))))))"


section \<open>Sessions\<close>

record session =
  se_log :: log
  se_view :: view

datatype wal_retention = WalApplied | WalActiveCollection | WalRetentionConflict | WalRetentionPending

definition accept_retention :: "retention_status \<Rightarrow> session \<Rightarrow> wal_retention \<times> session" where
  "accept_retention status s =
    (case status of
       RetentionApplied v \<Rightarrow> (WalApplied, s\<lparr>se_view := v\<rparr>)
     | RetentionActiveCollection v \<Rightarrow> (WalActiveCollection, s\<lparr>se_view := v\<rparr>)
     | RetentionConflict v \<Rightarrow> (WalRetentionConflict, s\<lparr>se_view := v\<rparr>)
     | RetentionPending \<Rightarrow> (WalRetentionPending, s))"

definition wal_uuid :: "bytes \<Rightarrow> string \<Rightarrow> wal_failure + uuid" where
  "wal_uuid value message =
    (if length value = UUID_LEN then Inr (of_be_bytes value) else Inl (FailureOther message))"

definition wal_retention_id :: "bytes \<Rightarrow> wal_failure + retention_id" where
  "wal_retention_id value = wal_uuid value ''retention ID must contain 16 bytes''"

text \<open>A failed call leaves the session as it was.\<close>

definition retention_call ::
    "(wal_failure + retention_status) prog \<Rightarrow> session \<Rightarrow> ((wal_failure + wal_retention) \<times> session) prog" where
  "retention_call p s = await p (\<lambda>r.
    Done (case r of
        Inl e \<Rightarrow> (Inl e, s)
      | Inr status \<Rightarrow> (case accept_retention status s of (state, s) \<Rightarrow> (Inr state, s))))"

definition session_retain ::
    "externals \<Rightarrow> session \<Rightarrow> bytes \<Rightarrow> ((wal_failure + wal_retention) \<times> session) prog" where
  "session_retain E s rid =
    (case wal_retention_id rid of
       Inl e \<Rightarrow> Done (Inl e, s)
     | Inr rid \<Rightarrow> retention_call (run_log (retain E (se_log s) (se_view s) rid)) s)"

definition session_release_retention ::
    "externals \<Rightarrow> session \<Rightarrow> bytes \<Rightarrow> ((wal_failure + wal_retention) \<times> session) prog" where
  "session_release_retention E s rid =
    (case wal_retention_id rid of
       Inl e \<Rightarrow> Done (Inl e, s)
     | Inr rid \<Rightarrow> retention_call (run_log (release_retention E (se_log s) (se_view s) rid)) s)"

definition session_clear_retentions ::
    "externals \<Rightarrow> session \<Rightarrow> ((wal_failure + wal_retention) \<times> session) prog" where
  "session_clear_retentions E s = retention_call (run_log (clear_retentions_after_drain E (se_log s) (se_view s))) s"

definition has_active_collection :: "session \<Rightarrow> bool" where
  "has_active_collection s \<longleftrightarrow> active_plan (v_head (se_view s)) \<noteq> None"

definition session_usage :: "budget \<Rightarrow> u64 \<times> u64" where
  "session_usage transport = transport_usage transport"

definition session_refresh :: "externals \<Rightarrow> session \<Rightarrow> (wal_failure + session) prog" where
  "session_refresh E s =
    await (run_log (refresh E (se_log s) (se_view s))) (\<lambda>r.
    Done (and_then r (\<lambda>found.
      Inr \<lparr>se_log = se_log s, se_view = (case found of Some v \<Rightarrow> v | None \<Rightarrow> se_view s)\<rparr>)))"

definition session_recover :: "session \<Rightarrow> wal_failure + history_cursor" where
  "session_recover s = map_err failure_of (history (se_log s) (se_view s))"

datatype wal_resolution = WalCommitted | WalNotCommitted | WalStillPending bytes | WalExpired

definition session_resume ::
    "externals \<Rightarrow> session \<Rightarrow> bytes \<Rightarrow> ((wal_failure + wal_resolution) \<times> session) prog" where
  "session_resume E s token =
    await (run_log (resume E (se_log s) token)) (\<lambda>r.
    Done (case r of
        Inl e \<Rightarrow> (Inl e, s)
      | Inr (ResolvedCommitted v) \<Rightarrow> (Inr WalCommitted, s\<lparr>se_view := v\<rparr>)
      | Inr (NotCommitted v) \<Rightarrow> (Inr WalNotCommitted, s\<lparr>se_view := v\<rparr>)
      | Inr (Expired v) \<Rightarrow> (Inr WalExpired, s\<lparr>se_view := v\<rparr>)
      | Inr (StillPending pending) \<Rightarrow>
          (map_err failure_of (and_then (pending_recovery_token E pending) (\<lambda>t. Inr (WalStillPending t))), s)))"


section \<open>Maintenance\<close>

datatype maintenance_state =
    MaintenanceComplete | MaintenanceMore | MaintenanceConflict | MaintenancePending | MaintenanceRetained

record collection_result =
  cr_state :: maintenance_state
  cr_objects :: u64
  cr_bytes :: u64

text \<open>\<open>as u64\<close> truncates.\<close>

definition maintenance_result :: "maintenance_state \<Rightarrow> collection_report option \<Rightarrow> collection_result" where
  "maintenance_result state report =
    \<lparr>cr_state = state,
     cr_objects = (case report of None \<Rightarrow> 0 | Some r \<Rightarrow> of_nat (cp_candidate_count r)),
     cr_bytes = (case report of None \<Rightarrow> 0 | Some r \<Rightarrow> cp_candidate_bytes r)\<rparr>"

definition finish_collect ::
    "externals \<Rightarrow> session \<Rightarrow> view \<Rightarrow> ((wal_failure + collection_result) \<times> session) prog" where
  "finish_collect E s v =
    await (run_log (resume_collection E (se_log s) v)) (\<lambda>r.
    Done (case r of
        Inl e \<Rightarrow> (Inl e, s)
      | Inr (FinishComplete v report) \<Rightarrow>
          (Inr (maintenance_result MaintenanceMore (Some report)), s\<lparr>se_view := v\<rparr>)
      | Inr (FinishPending report) \<Rightarrow> (Inr (maintenance_result MaintenancePending (Some report)), s)
      | Inr (FinishConflict v report) \<Rightarrow>
          (Inr (maintenance_result MaintenanceConflict (Some report)), s\<lparr>se_view := v\<rparr>)))"

definition collect :: "externals \<Rightarrow> session \<Rightarrow> usize \<Rightarrow> ((wal_failure + collection_result) \<times> session) prog" where
  "collect E s max_candidates =
    await (run_log (start_collection_with_limit E (se_log s) (se_view s) max_candidates)) (\<lambda>r.
    case r of
      Inl e \<Rightarrow> Done (Inl e, s)
    | Inr (StartEmpty report) \<Rightarrow> Done (Inr (maintenance_result MaintenanceComplete (Some report)), s)
    | Inr (StartInstalled v _) \<Rightarrow> finish_collect E (s\<lparr>se_view := v\<rparr>) v
    | Inr (StartActive v) \<Rightarrow> finish_collect E (s\<lparr>se_view := v\<rparr>) v
    | Inr (StartConflict v) \<Rightarrow> Done (Inr (maintenance_result MaintenanceConflict None), s\<lparr>se_view := v\<rparr>)
    | Inr (StartRetained v) \<Rightarrow> Done (Inr (maintenance_result MaintenanceRetained None), s\<lparr>se_view := v\<rparr>)
    | Inr StartPending \<Rightarrow> Done (Inr (maintenance_result MaintenancePending None), s))"

definition session_collect ::
    "externals \<Rightarrow> session \<Rightarrow> u64 \<Rightarrow> ((wal_failure + collection_result) \<times> session) prog" where
  "session_collect E s max_candidates =
    (case usize_try_from (usize_MAX E) max_candidates of
       None \<Rightarrow> Done (Inl (FailureLimit ''collection candidate objects''), s)
     | Some n \<Rightarrow> collect E s n)"


section \<open>Recovery\<close>

text \<open>An \<open>Object\<close> resource is a staged object. A recovery holds its log and its cursor.\<close>

definition wal_recovered_view :: "history_cursor \<Rightarrow> wal_failure + view" where
  "wal_recovered_view c =
    (if \<not> hc_complete c then Inl (FailureOther ''recovery history must be consumed before publication'')
     else Inr (hc_view c))"

record wal_entry =
  we_data :: bytes
  we_objects :: "staged_object list"

record wal_commit_record =
  wc_sequence :: u64
  wc_transaction_id :: bytes
  wc_operation :: bytes
  wc_recorded_result :: bytes
  wc_objects :: "staged_object list"

datatype wal_history_item = WalCheckpoint wal_entry | WalCommit wal_commit_record

fun wal_item :: "history_item \<Rightarrow> wal_history_item" where
  "wal_item (CheckpointItem a) = WalCheckpoint \<lparr>we_data = rk_snapshot (au_record a), we_objects = au_proofs a\<rparr>"
| "wal_item (CommitItem a) = WalCommit \<lparr>
     wc_sequence = cr_sequence (rc_reference (au_record a)),
     wc_transaction_id = uuid_as_bytes (cr_transaction_id (rc_reference (au_record a))),
     wc_operation = rc_operation (au_record a),
     wc_recorded_result = rc_result (au_record a),
     wc_objects = au_proofs a\<rparr>"

definition recovery_next ::
    "externals \<Rightarrow> history_cursor \<Rightarrow> ((wal_failure + wal_history_item option) \<times> history_cursor) prog" where
  "recovery_next E c =
    await (cursor_next E c) (\<lambda>(r, c).
    Done (map_err failure_of (and_then r (\<lambda>item. Inr (map_option wal_item item))), c))"

definition recovery_write_bytes :: "externals \<Rightarrow> log \<Rightarrow> history_cursor \<Rightarrow> wal_failure + stream_writer option" where
  "recovery_write_bytes E lg c =
    and_then (wal_recovered_view c) (\<lambda>v.
    and_then (map_err failure_of (byte_writer E lg v)) (\<lambda>w. Inr (Some w)))"

definition recovery_open_bytes ::
    "externals \<Rightarrow> log \<Rightarrow> history_cursor \<Rightarrow> staged_object \<Rightarrow> (wal_failure + byte_reader) prog" where
  "recovery_open_bytes E lg c value =
    (case wal_recovered_view c of
       Inl e \<Rightarrow> Done (Inl e)
     | Inr v \<Rightarrow> run_log (open_bytes E lg v (st_object value)))"

definition recovery_read_node ::
    "externals \<Rightarrow> log \<Rightarrow> history_cursor \<Rightarrow> staged_object \<Rightarrow> (wal_failure + wal_entry) prog" where
  "recovery_read_node E lg c value =
    (case wal_recovered_view c of
       Inl e \<Rightarrow> Done (Inl e)
     | Inr v \<Rightarrow>
         await (run_log (read_staged_node E lg v value)) (\<lambda>r.
         Done (and_then r (\<lambda>(data, objects). Inr \<lparr>we_data = data, we_objects = objects\<rparr>))))"

definition recovery_put_node ::
    "externals \<Rightarrow> log \<Rightarrow> history_cursor \<Rightarrow> bytes \<Rightarrow> staged_object list \<Rightarrow> (wal_failure + staged_object) prog" where
  "recovery_put_node E lg c data children =
    (case wal_recovered_view c of
       Inl e \<Rightarrow> Done (Inl e)
     | Inr v \<Rightarrow> run_log (put_node E lg v data children))"

text \<open>A candidate is a prepared commit until it has been published.\<close>

definition recovery_prepare ::
    "externals \<Rightarrow> log \<Rightarrow> history_cursor \<Rightarrow> bytes \<Rightarrow> bytes \<Rightarrow> bytes \<Rightarrow> staged_object list
      \<Rightarrow> (wal_failure + prepared_commit option) prog" where
  "recovery_prepare E lg c transaction_id operation_bytes result_bytes roots =
    (case and_then (wal_recovered_view c) (\<lambda>v.
        and_then (wal_uuid transaction_id ''transaction ID must contain 16 bytes'') (\<lambda>tid. Inr (v, tid))) of
       Inl e \<Rightarrow> Done (Inl e)
     | Inr (v, tid) \<Rightarrow>
         await (run_log (prepare E lg v tid operation_bytes result_bytes roots)) (\<lambda>r.
         Done (and_then r (\<lambda>p. Inr (Some p)))))"

datatype wal_checkpoint_outcome =
    WalCheckpointPublished | WalCheckpointConflict | WalCheckpointPending "pending_checkpoint option"

definition recovery_checkpoint ::
    "externals \<Rightarrow> log \<Rightarrow> history_cursor \<Rightarrow> bytes \<Rightarrow> staged_object list \<Rightarrow> (wal_failure + wal_checkpoint_outcome) prog" where
  "recovery_checkpoint E lg c data roots =
    (case and_then (wal_recovered_view c) (\<lambda>v.
        and_then (ok_or (last_opt (tail (v_head v))) (FailureOther ''checkpoint requires an active tail'')) (\<lambda>through.
        Inr (v, through))) of
       Inl e \<Rightarrow> Done (Inl e)
     | Inr (v, through) \<Rightarrow>
         await (run_log (publish_checkpoint E lg v through data roots)) (\<lambda>r.
         Done (and_then r (\<lambda>status. Inr (case status of
             CheckpointPublished _ \<Rightarrow> WalCheckpointPublished
           | CheckpointConflict _ \<Rightarrow> WalCheckpointConflict
           | CheckpointPending pending \<Rightarrow> WalCheckpointPending (Some pending))))))"


section \<open>Candidates and pending checkpoints\<close>

definition live :: "'a option \<Rightarrow> string \<Rightarrow> wal_failure + 'a" where
  "live value closed = ok_or value (FailureOther closed)"

datatype wal_checkpoint_resolution =
    WalResolvedPublished | WalResolvedNotPublished | WalResolvedStillPending | WalResolvedExpired

definition pending_resolve ::
    "externals \<Rightarrow> log \<Rightarrow> pending_checkpoint option
      \<Rightarrow> ((wal_failure + wal_checkpoint_resolution) \<times> pending_checkpoint option) prog" where
  "pending_resolve E lg cell =
    (case live cell ''resolved checkpoint'' of
       Inl e \<Rightarrow> Done (Inl e, cell)
     | Inr pending \<Rightarrow>
         await (run_log (resolve_checkpoint E lg pending)) (\<lambda>r.
         Done (case r of
             Inl e \<Rightarrow> (Inl e, cell)
           | Inr (CheckpointResolvedPublished _) \<Rightarrow> (Inr WalResolvedPublished, None)
           | Inr (CheckpointNotPublished _) \<Rightarrow> (Inr WalResolvedNotPublished, None)
           | Inr (CheckpointExpired _) \<Rightarrow> (Inr WalResolvedExpired, None)
           | Inr (CheckpointStillPending pending) \<Rightarrow> (Inr WalResolvedStillPending, Some pending))))"

definition candidate_recovery_token :: "externals \<Rightarrow> prepared_commit option \<Rightarrow> wal_failure + bytes" where
  "candidate_recovery_token E cell =
    and_then (live cell ''published candidate'') (\<lambda>p. map_err failure_of (encode_recovery_token E p))"

datatype wal_outcome = OutcomeCommitted | OutcomeConflict | OutcomePending bytes

definition candidate_publish ::
    "externals \<Rightarrow> log \<Rightarrow> prepared_commit option \<Rightarrow> ((wal_failure + wal_outcome) \<times> prepared_commit option) prog" where
  "candidate_publish E lg cell =
    (case live cell ''published candidate'' of
       Inl e \<Rightarrow> Done (Inl e, cell)
     | Inr prepared \<Rightarrow>
         await (run_log (commit E lg prepared)) (\<lambda>r.
         Done (case r of
             Inl e \<Rightarrow> (Inl e, cell)
           | Inr (Committed _) \<Rightarrow> (Inr OutcomeCommitted, None)
           | Inr (Conflict _) \<Rightarrow> (Inr OutcomeConflict, None)
           | Inr (Pending pending) \<Rightarrow>
               (map_err failure_of (and_then (pending_recovery_token E pending) (\<lambda>t. Inr (OutcomePending t))), None))))"


section \<open>Byte streams\<close>

definition guest_write ::
    "externals \<Rightarrow> stream_writer option \<Rightarrow> bytes \<Rightarrow> ((wal_failure + unit) \<times> stream_writer option) prog" where
  "guest_write E cell data =
    (case cell of
       None \<Rightarrow> Done (Inl (FailureOther ''closed byte writer''), cell)
     | Some w \<Rightarrow> await (writer_write E w data) (\<lambda>(r, w). Done (map_err failure_of r, Some w)))"

definition guest_finish ::
    "externals \<Rightarrow> stream_writer option \<Rightarrow> ((wal_failure + staged_object) \<times> stream_writer option) prog" where
  "guest_finish E cell =
    (case cell of
       None \<Rightarrow> Done (Inl (FailureOther ''closed byte writer''), None)
     | Some w \<Rightarrow> await (run_log (writer_finish E w)) (\<lambda>r. Done (r, None)))"

definition guest_length :: "byte_reader \<Rightarrow> u64" where
  "guest_length r = br_len r"

definition guest_read_at ::
    "externals \<Rightarrow> byte_reader \<Rightarrow> u64 \<Rightarrow> 32 word \<Rightarrow> ((wal_failure + bytes) \<times> byte_reader) prog" where
  "guest_read_at E r offset max_len =
    await (read_at E r offset (unat max_len)) (\<lambda>(bs, r). Done (map_err failure_of bs, r))"


section \<open>Opening\<close>

definition open_session ::
    "externals \<Rightarrow> (s3_settings \<Rightarrow> string option) \<Rightarrow> (string \<Rightarrow> path) \<Rightarrow> wal_config \<Rightarrow> bool
      \<Rightarrow> (wal_failure + session \<times> budget) prog" where
  "open_session E build parse_path settings create_log =
    (case and_then (connect_store build settings) (\<lambda>transport.
        and_then (map_err failure_of (LogId_new (cf_log_id settings))) (\<lambda>lid.
        and_then (log_options E (cf_log_limits settings)) (\<lambda>opts.
        Inr (transport, assume_validated (parse_path (cf_prefix settings)), lid, opts)))) of
       Inl e \<Rightarrow> Done (Inl e)
     | Inr (transport, backend, lid, opts) \<Rightarrow>
         await (run_log (if create_log
             then await_try (open_log E backend lid opts) (\<lambda>lg.
               await_try (load E lg) (\<lambda>v. succeed (lg, v)))
             else open_existing_with_view E backend lid opts)) (\<lambda>r.
         Done (and_then r (\<lambda>(lg, v). Inr (\<lparr>se_log = lg, se_view = v\<rparr>, transport)))))"

definition wal_open ::
    "externals \<Rightarrow> (s3_settings \<Rightarrow> string option) \<Rightarrow> (string \<Rightarrow> path) \<Rightarrow> wal_config \<Rightarrow> (wal_failure + session \<times> budget) prog" where
  "wal_open E build parse_path settings = open_session E build parse_path settings True"

definition wal_open_existing ::
    "externals \<Rightarrow> (s3_settings \<Rightarrow> string option) \<Rightarrow> (string \<Rightarrow> path) \<Rightarrow> wal_config \<Rightarrow> (wal_failure + session \<times> budget) prog" where
  "wal_open_existing E build parse_path settings = open_session E build parse_path settings False"

definition validate_backend ::
    "externals \<Rightarrow> (s3_settings \<Rightarrow> string option) \<Rightarrow> (string \<Rightarrow> path) \<Rightarrow> wal_config \<Rightarrow> (wal_failure + unit) prog" where
  "validate_backend E build parse_path settings =
    (case connect_store build settings of
       Inl e \<Rightarrow> Done (Inl e)
     | Inr _ \<Rightarrow>
         await (run_log (ValidatedBackend_new E (parse_path (cf_prefix settings)))) (\<lambda>r.
         Done (and_then r (\<lambda>_. Inr ()))))"

end
