(* ===== verification/Session_Properties.thy ===== *)
theory Session_Properties
  imports Wal_Session Protocol_Properties
begin

text \<open>
  The WAL component on top of the protocol: what a candidate's publication and a session's resumption report to the
  host holds of the published log.
\<close>

text \<open>
  A host publishes a candidate on one session; when the outcome is pending it hands the token to another
  session, which resumes it.
\<close>

definition wal_settle :: "externals \<Rightarrow> log \<Rightarrow> session \<Rightarrow> prepared_commit \<Rightarrow> (wal_failure + wal_resolution) prog" where
  "wal_settle E lg s p =
    await (candidate_publish E lg (Some p)) (\<lambda>(r, _).
    case r of
      Inl e \<Rightarrow> Done (Inl e)
    | Inr OutcomeCommitted \<Rightarrow> Done (Inr WalCommitted)
    | Inr OutcomeConflict \<Rightarrow> Done (Inr WalNotCommitted)
    | Inr (OutcomePending token) \<Rightarrow> await (session_resume E s token) (\<lambda>(r, _). Done r))"

definition wal_resolution_of :: "externals \<Rightarrow> resolution result \<Rightarrow> wal_failure + wal_resolution" where
  "wal_resolution_of E r =
    (case r of
       Inl e \<Rightarrow> Inl (failure_of e)
     | Inr (ResolvedCommitted v) \<Rightarrow> Inr WalCommitted
     | Inr (NotCommitted v) \<Rightarrow> Inr WalNotCommitted
     | Inr (Expired v) \<Rightarrow> Inr WalExpired
     | Inr (StillPending pending) \<Rightarrow>
         map_err failure_of (and_then (pending_recovery_token E pending) (\<lambda>t. Inr (WalStillPending t))))"

lemma wal_settle_settle: "wal_settle E lg s p = await (settle E lg (se_log s) p) (\<lambda>r. Done (wal_resolution_of E r))"
proof -
  have resume: "await (session_resume E s token) (\<lambda>(r, _). Done r)
      = await (resume E (se_log s) token) (\<lambda>r. Done (wal_resolution_of E r))" for token
    unfolding session_resume_def run_log_def await_assoc
    by (rule arg_cong [where f = "await _"])
      (auto simp: wal_resolution_of_def fun_eq_iff split: sum.splits resolution.splits)
  show ?thesis
    unfolding wal_settle_def settle_def candidate_publish_def run_log_def await_try_def await_assoc live_def ok_or_def
      option.case sum.case
    by (rule arg_cong [where f = "await _"])
      (auto simp: fun_eq_iff wal_resolution_of_def resume attempt_def succeed_def split: sum.splits commit_status.splits)
qed

text \<open>
  C23. The component reports the truth to its host. A candidate published through one session and, when
  the outcome is pending, resumed from its token through another session of the same log is reported as committed
  only when the commit is in the published log, and as not committed only when it never can be, whatever the
  store answers and other clients do.
\<close>

theorem wal_settle_reports_truth:
  assumes "cbor E" "world_ok E w" "at_index (pc_view p) n w"
    and "encode_prepared E lg p = Inr (c, bs)" "flights_below (appends c) n w"
    and "\<And>token. encode_recovery_token E p = Inr token \<Longrightarrow> fits token" "head_path (se_log s) = head_path lg"
  shows "wp E (avoids (appends c)) (head_path lg)
    (\<lambda>r w. (r = Inr WalCommitted \<longrightarrow> c \<in> set (world_log w)) \<and> (r = Inr WalNotCommitted \<longrightarrow> never_published E c w))
    (wal_settle E lg s p) w"
  unfolding wal_settle_settle wp_await
proof (rule wp_mono [OF cbor.wp_settle [OF assms]])
  fix r w
  assume "resolve_post E (world_ok E) c r w"
  then show "wp E (avoids (appends c)) (head_path lg)
      (\<lambda>r w. (r = Inr WalCommitted \<longrightarrow> c \<in> set (world_log w)) \<and> (r = Inr WalNotCommitted \<longrightarrow> never_published E c w))
      (Done (wal_resolution_of E r)) w"
    by (cases "(E, world_ok E, c, r, w)" rule: resolve_post.cases)
      (auto simp: wal_resolution_of_def map_err_def and_then_def split: sum.splits)
qed

theorem wal_settle_reports_truth_witness:
  "wp sample_codec (avoids (appends sample_commit_ref)) (head_path sample_log)
    (\<lambda>r w. (r = Inr WalCommitted \<longrightarrow> sample_commit_ref \<in> set (world_log w))
      \<and> (r = Inr WalNotCommitted \<longrightarrow> never_published sample_codec sample_commit_ref w))
    (wal_settle sample_codec sample_log \<lparr>se_log = sample_log\<lparr>lg_staging_domain := 2\<rparr>, se_view = sample_view\<rparr> sample_prepared)
    sample_world"
  using wal_settle_reports_truth [OF sample_codec_cbor sample_world_ok _ sample_encode_prepared sample_flights
      sample_token_encodes, of "\<lparr>se_log = sample_log\<lparr>lg_staging_domain := 2\<rparr>, se_view = sample_view\<rparr>"] sample_position
  by (simp add: sample_prepared_def)

end
