(* ===== verification/Wal_Executor.thy ===== *)
theory Wal_Executor
  imports Prelude
begin

text \<open>
  The executor of the WAL component (\<^verbatim>\<open>examples/wal-component/src/executor.rs\<close>): the table of waiting
  subscriptions and the loop that polls a future, waits for host resources and wakes the ready ones. The future and
  the host's \<open>poll\<close> are parameters; a panic is \<open>Inl\<close>, and a run that never ends is \<open>None\<close>.
\<close>

type_synonym slot = nat
type_synonym pollable = nat
type_synonym waker = nat

text \<open>
  \<open>ec_slots\<close> holds the pollable of each slot and \<open>ec_held\<close> the slots whose \<open>Subscription\<close> is alive (the second
  strong reference of the slot).
\<close>

record executor =
  ec_waiting :: "(slot \<times> waker) list"
  ec_slots :: "slot \<Rightarrow> pollable option"
  ec_held :: "slot set"
  ec_woken :: "waker list"
  ec_next :: slot

definition subscribe :: "pollable \<Rightarrow> waker \<Rightarrow> executor \<Rightarrow> slot \<times> executor" where
  "subscribe p wk x =
    (let slot = ec_next x in
     (slot, x\<lparr>ec_waiting := ec_waiting x @ [(slot, wk)], ec_slots := (ec_slots x)(slot := Some p),
              ec_held := insert slot (ec_held x), ec_next := Suc slot\<rparr>))"

definition drop_subscription :: "slot \<Rightarrow> executor \<Rightarrow> executor" where
  "drop_subscription slot x = x\<lparr>ec_slots := (ec_slots x)(slot := None), ec_held := ec_held x - {slot}\<rparr>"

definition retain_live :: "executor \<Rightarrow> executor" where
  "retain_live x = x\<lparr>ec_waiting := filter (\<lambda>(slot, _). ec_slots x slot \<noteq> None) (ec_waiting x)\<rparr>"

text \<open>The entries whose pollable is taken out of their slot, in order.\<close>

fun take_active ::
    "(slot \<times> waker) list \<Rightarrow> (slot \<Rightarrow> pollable option) \<Rightarrow> (slot \<times> pollable \<times> waker) list \<times> (slot \<Rightarrow> pollable option)" where
  "take_active [] slots = ([], slots)"
| "take_active ((slot, wk) # waiting) slots =
    (case slots slot of
       None \<Rightarrow> take_active waiting slots
     | Some p \<Rightarrow>
         (case take_active waiting (slots(slot := None)) of (active, slots) \<Rightarrow> ((slot, p, wk) # active, slots)))"

fun settle_active :: "(bool \<times> slot \<times> pollable \<times> waker) list \<Rightarrow> executor \<Rightarrow> executor" where
  "settle_active [] x = x"
| "settle_active ((is_ready, slot, p, wk) # active) x =
    settle_active active
      (if is_ready then x\<lparr>ec_woken := ec_woken x @ [wk]\<rparr>
       else if slot \<in> ec_held x
       then x\<lparr>ec_slots := (ec_slots x)(slot := Some p), ec_waiting := ec_waiting x @ [(slot, wk)]\<rparr>
       else x)"

definition wait_round :: "(pollable list \<Rightarrow> nat list) \<Rightarrow> executor \<Rightarrow> string + executor" where
  "wait_round host_poll x =
    (case take_active (ec_waiting x) (ec_slots x) of (active, slots) \<Rightarrow>
     if active = [] then Inl ''pending WASI operation has no pollable''
     else
       let indices = host_poll (map (\<lambda>(_, p, _). p) active) in
       if \<exists>i\<in>set indices. length active \<le> i then Inl ''index out of bounds''
       else Inr (settle_active (zip (map (\<lambda>i. i \<in> set indices) [0..<length active]) active)
         (x\<lparr>ec_waiting := [], ec_slots := slots\<rparr>)))"

partial_function (option) run_future ::
    "('f \<Rightarrow> executor \<Rightarrow> ('a + 'f) \<times> executor) \<Rightarrow> (nat \<Rightarrow> pollable list \<Rightarrow> nat list) \<Rightarrow> nat \<Rightarrow> 'f \<Rightarrow> executor
      \<Rightarrow> (string + 'a \<times> executor) option" where
  "run_future poll_future host n f x =
    (case poll_future f x of
       (Inl value, x) \<Rightarrow> Some (Inr (value, x))
     | (Inr f, x) \<Rightarrow>
         (case wait_round (host n) x of
            Inl panic \<Rightarrow> Some (Inl panic)
          | Inr x \<Rightarrow> run_future poll_future host (Suc n) f x))"

definition run_executor ::
    "('f \<Rightarrow> executor \<Rightarrow> ('a + 'f) \<times> executor) \<Rightarrow> (nat \<Rightarrow> pollable list \<Rightarrow> nat list) \<Rightarrow> 'f \<Rightarrow> executor
      \<Rightarrow> (string + 'a \<times> executor) option" where
  "run_executor poll_future host f x = run_future poll_future host 0 f (retain_live x)"


section \<open>No subscription is lost\<close>

text \<open>Every waiting slot is listed once and every held slot with a pollable is listed.\<close>

definition listed_once :: "executor \<Rightarrow> bool" where
  "listed_once x \<longleftrightarrow> distinct (map fst (ec_waiting x)) \<and> (\<forall>s\<in>set (map fst (ec_waiting x)). s < ec_next x)
    \<and> (\<forall>s p. ec_slots x s = Some p \<longrightarrow> s \<in> fst ` set (ec_waiting x) \<and> s \<in> ec_held x)"

lemma listed_once_subscribe: "listed_once x \<Longrightarrow> listed_once (snd (subscribe p wk x))"
  by (auto simp: listed_once_def subscribe_def Let_def split: if_splits)

lemma listed_once_drop: "listed_once x \<Longrightarrow> listed_once (drop_subscription slot x)"
  by (auto simp: listed_once_def drop_subscription_def split: if_splits)

lemma listed_once_retain: "listed_once x \<Longrightarrow> listed_once (retain_live x)"
  by (force simp: listed_once_def retain_live_def distinct_map_filter)

lemma take_active_result:
  assumes "distinct (map fst waiting)"
  shows "take_active waiting slots =
    (map (\<lambda>(s, wk). (s, the (slots s), wk)) (filter (\<lambda>(s, _). slots s \<noteq> None) waiting),
     \<lambda>s. if s \<in> fst ` set waiting then None else slots s)"
  using assms
proof (induction waiting arbitrary: slots)
  case (Cons e waiting)
  obtain s wk where e: "e = (s, wk)" by fastforce
  have tail: "distinct (map fst waiting)" using Cons.prems by simp
  have fresh: "t \<noteq> s" if "(t, v) \<in> set waiting" for t v
    using Cons.prems e that by force
  have same: "filter (\<lambda>(t, _). (slots(s := None)) t \<noteq> None) waiting = filter (\<lambda>(t, _). slots t \<noteq> None) waiting"
    using fresh by (auto intro!: filter_cong)
  have vals: "map (\<lambda>(t, wk). (t, the ((slots(s := None)) t), wk)) (filter (\<lambda>(t, _). slots t \<noteq> None) waiting)
      = map (\<lambda>(t, wk). (t, the (slots t), wk)) (filter (\<lambda>(t, _). slots t \<noteq> None) waiting)"
    using fresh by (auto intro!: map_cong)
  show ?case
  proof (cases "slots s")
    case None
    then show ?thesis using Cons e by (auto simp: fun_eq_iff)
  next
    case (Some p)
    have "take_active waiting (slots(s := None)) =
        (map (\<lambda>(t, wk). (t, the (slots t), wk)) (filter (\<lambda>(t, _). slots t \<noteq> None) waiting),
         \<lambda>t. if t \<in> fst ` set waiting then None else (slots(s := None)) t)"
      using Cons.IH [OF tail, of "slots(s := None)"] unfolding same vals .
    then show ?thesis using Some e by (auto simp: fun_eq_iff)
  qed
qed simp

lemma wait_round_settles:
  assumes "wait_round host_poll x = Inr x'"
  shows "\<exists>flags. length flags = length (fst (take_active (ec_waiting x) (ec_slots x)))
    \<and> x' = settle_active (zip flags (fst (take_active (ec_waiting x) (ec_slots x))))
        (x\<lparr>ec_waiting := [], ec_slots := snd (take_active (ec_waiting x) (ec_slots x))\<rparr>)"
  using assms
  by (cases "take_active (ec_waiting x) (ec_slots x)")
    (auto simp: wait_round_def Let_def split: if_splits
      intro!: exI [of _ "map (\<lambda>i. i \<in> set (host_poll (map (\<lambda>(_, p, _). p) (fst (take_active (ec_waiting x) (ec_slots x))))))
        [0..<length (fst (take_active (ec_waiting x) (ec_slots x)))]"])

lemma settle_active_keeps:
  assumes "distinct (map (\<lambda>(_, s, _). s) active)" "(is_ready, s, p, wk) \<in> set active"
  shows "wk \<in> set (ec_woken (settle_active active x)) \<or> s \<notin> ec_held x
    \<or> (s, wk) \<in> set (ec_waiting (settle_active active x)) \<and> ec_slots (settle_active active x) s = Some p"
proof -
  have keep: "set (ec_woken x) \<subseteq> set (ec_woken (settle_active as x)) \<and> set (ec_waiting x) \<subseteq> set (ec_waiting (settle_active as x))
      \<and> ec_held (settle_active as x) = ec_held x
      \<and> (\<forall>t. t \<notin> (\<lambda>(_, s, _). s) ` set as \<longrightarrow> ec_slots (settle_active as x) t = ec_slots x t)" for as x
    by (induction as x rule: settle_active.induct) (auto split: if_splits)
  show ?thesis
    using assms
  proof (induction active x rule: settle_active.induct)
    case (2 r t q wk' active x)
    let ?x = "if r then x\<lparr>ec_woken := ec_woken x @ [wk']\<rparr>
       else if t \<in> ec_held x then x\<lparr>ec_slots := (ec_slots x)(t := Some q), ec_waiting := ec_waiting x @ [(t, wk')]\<rparr> else x"
    have held: "ec_held ?x = ec_held x" by simp
    show ?case
    proof (cases "(is_ready, s, p, wk) = (r, t, q, wk')")
      case True
      have "t \<notin> (\<lambda>(_, s, _). s) ` set active" using "2.prems"(1) by auto
      with True keep [of ?x active] show ?thesis by (auto split: if_splits)
    next
      case False
      then show ?thesis using 2 held by (auto split: if_splits)
    qed
  qed simp
qed

lemma zip_active_slots:
  assumes "length flags = length (map (\<lambda>(s, wk). (s, f s, wk)) live)"
  shows "map (\<lambda>(_, s, _). s) (zip flags (map (\<lambda>(s, wk). (s, f s, wk)) live)) = map fst live" (is "map _ (zip _ ?active) = _")
proof -
  have "map (\<lambda>(_, s, _). s) (zip flags ?active) = map fst (map snd (zip flags ?active))"
    by (simp add: case_prod_unfold)
  also have "\<dots> = map fst ?active" using map_snd_zip [OF assms] by simp
  also have "\<dots> = map fst live" by (simp add: case_prod_unfold)
  finally show ?thesis .
qed

text \<open>
  A round wakes a waiting entry, or finds its subscription dropped, or leaves it waiting on the same pollable: no
  subscription is lost between two polls of the future.
\<close>

lemma wait_round_keeps:
  assumes "listed_once x" "wait_round host_poll x = Inr x'" "(s, wk) \<in> set (ec_waiting x)" "ec_slots x s = Some p"
  shows "wk \<in> set (ec_woken x') \<or> (s, wk) \<in> set (ec_waiting x') \<and> ec_slots x' s = Some p"
proof -
  let ?live = "filter (\<lambda>(s, _). ec_slots x s \<noteq> None) (ec_waiting x)"
  let ?active = "map (\<lambda>(s, wk). (s, the (ec_slots x s), wk)) ?live"
  have dist: "distinct (map fst (ec_waiting x))" using assms(1) by (simp add: listed_once_def)
  obtain flags slots where n: "length flags = length ?active"
      and x': "x' = settle_active (zip flags ?active) (x\<lparr>ec_waiting := [], ec_slots := slots\<rparr>)"
    using wait_round_settles [OF assms(2)] unfolding take_active_result [OF dist] fst_conv snd_conv by blast
  have "(s, p, wk) \<in> set ?active" using assms(3, 4) by force
  then obtain r where r: "(r, s, p, wk) \<in> set (zip flags ?active)"
    by (rule in_set_impl_in_set_zip2 [OF n])
  have "distinct (map (\<lambda>(_, s, _). s) (zip flags ?active))"
    unfolding zip_active_slots [OF n] using dist by (simp add: distinct_map_filter)
  from settle_active_keeps [OF this r, of "x\<lparr>ec_waiting := [], ec_slots := slots\<rparr>"] have "wk \<in> set (ec_woken x') \<or> s \<notin> ec_held x
      \<or> (s, wk) \<in> set (ec_waiting x') \<and> ec_slots x' s = Some p"
    unfolding x' [symmetric] by simp
  moreover have "s \<in> ec_held x" using assms(1, 4) by (auto simp: listed_once_def)
  ultimately show ?thesis by blast
qed

text \<open>The invariant survives a round, so the guarantee holds for every round of a run.\<close>

lemma settle_active_listed_once:
  assumes "listed_once x" "distinct (map fst (ec_waiting x) @ map (\<lambda>(_, s, _). s) active)"
    "\<forall>s\<in>(\<lambda>(_, s, _). s) ` set active. s < ec_next x"
  shows "listed_once (settle_active active x)"
  using assms
proof (induction active x rule: settle_active.induct)
  case (2 r t q wk active x)
  let ?x = "if r then x\<lparr>ec_woken := ec_woken x @ [wk]\<rparr>
     else if t \<in> ec_held x then x\<lparr>ec_slots := (ec_slots x)(t := Some q), ec_waiting := ec_waiting x @ [(t, wk)]\<rparr> else x"
  have "listed_once ?x" using "2.prems" by (auto simp: listed_once_def split: if_splits)
  moreover have "distinct (map fst (ec_waiting ?x) @ map (\<lambda>(_, s, _). s) active)" using "2.prems"(2) by simp
  moreover have "\<forall>s\<in>(\<lambda>(_, s, _). s) ` set active. s < ec_next ?x" using "2.prems"(3) by simp
  ultimately show ?case using "2.IH" by simp
qed simp

lemma wait_round_listed_once:
  assumes "listed_once x" "wait_round host_poll x = Inr x'"
  shows "listed_once x'"
proof -
  let ?live = "filter (\<lambda>(s, _). ec_slots x s \<noteq> None) (ec_waiting x)"
  let ?active = "map (\<lambda>(s, wk). (s, the (ec_slots x s), wk)) ?live"
  let ?slots = "\<lambda>s. if s \<in> fst ` set (ec_waiting x) then None else ec_slots x s"
  have dist: "distinct (map fst (ec_waiting x))" using assms(1) by (simp add: listed_once_def)
  obtain flags where n: "length flags = length ?active"
      and x': "x' = settle_active (zip flags ?active) (x\<lparr>ec_waiting := [], ec_slots := ?slots\<rparr>)"
    using wait_round_settles [OF assms(2)] unfolding take_active_result [OF dist] fst_conv snd_conv by blast
  have slots: "map (\<lambda>(_, s, _). s) (zip flags ?active) = map fst ?live"
    by (rule zip_active_slots [OF n])
  have "\<forall>s\<in>set (map (\<lambda>(_, s, _). s) (zip flags ?active)). s < ec_next x"
    unfolding slots using assms(1) by (auto simp: listed_once_def)
  moreover have "listed_once (x\<lparr>ec_waiting := [], ec_slots := ?slots\<rparr>)"
    using assms(1) by (auto simp: listed_once_def split: if_splits)
  moreover have "distinct (map (\<lambda>(_, s, _). s) (zip flags ?active))"
    unfolding slots using dist by (simp add: distinct_map_filter)
  ultimately show ?thesis unfolding x' by (intro settle_active_listed_once) (simp_all only: set_map, simp_all)
qed


section \<open>Runs\<close>

text \<open>A poll of a future subscribes and drops subscriptions; rounds alternate with polls.\<close>

inductive executor_step :: "executor \<Rightarrow> executor \<Rightarrow> bool" where
  step_subscribe: "executor_step x (snd (subscribe p wk x))"
| step_drop: "executor_step x (drop_subscription slot x)"
| step_retain: "executor_step x (retain_live x)"
| step_round: "wait_round host_poll x = Inr x' \<Longrightarrow> executor_step x x'"

text \<open>The subscription \<open>s\<close> with waker \<open>wk\<close> has been woken, has been dropped, or waits on \<open>p\<close>.\<close>

definition subscription_accounted :: "slot \<Rightarrow> waker \<Rightarrow> pollable \<Rightarrow> executor \<Rightarrow> bool" where
  "subscription_accounted s wk p x \<longleftrightarrow> s < ec_next x \<and> (wk \<in> set (ec_woken x) \<or> s \<notin> ec_held x
    \<or> (s, wk) \<in> set (ec_waiting x) \<and> ec_slots x s = Some p)"

lemma settle_active_frame:
  "set (ec_woken x) \<subseteq> set (ec_woken (settle_active active x)) \<and> ec_held (settle_active active x) = ec_held x
    \<and> ec_next (settle_active active x) = ec_next x"
  by (induction active x rule: settle_active.induct) (auto split: if_splits)

lemma listed_once_step: "executor_step x x' \<Longrightarrow> listed_once x \<Longrightarrow> listed_once x'"
  by (induction rule: executor_step.induct)
    (auto simp: listed_once_subscribe listed_once_drop listed_once_retain wait_round_listed_once)

lemma subscription_accounted_step:
  assumes "executor_step x x'" "listed_once x" "subscription_accounted s wk p x"
  shows "subscription_accounted s wk p x'"
  using assms
proof (induction rule: executor_step.induct)
  case (step_round host_poll x x')
  obtain active slots where "x' = settle_active active (x\<lparr>ec_waiting := [], ec_slots := slots\<rparr>)"
    using wait_round_settles [OF step_round(1)] by blast
  then have "set (ec_woken x) \<subseteq> set (ec_woken x') \<and> ec_held x' = ec_held x \<and> ec_next x' = ec_next x"
    using settle_active_frame [of "x\<lparr>ec_waiting := [], ec_slots := slots\<rparr>" active] by simp
  then show ?case
    using step_round.prems wait_round_keeps [OF step_round.prems(1) step_round(1), of s wk p]
    unfolding subscription_accounted_def by auto
qed (auto simp: subscription_accounted_def subscribe_def drop_subscription_def retain_live_def Let_def)

lemma subscription_accounted_steps:
  assumes "executor_step\<^sup>*\<^sup>* x x'" "listed_once x" "subscription_accounted s wk p x"
  shows "listed_once x' \<and> subscription_accounted s wk p x'"
  using assms by (induction rule: rtranclp_induct) (auto intro: listed_once_step subscription_accounted_step)

lemmas run_future_induct = run_future.raw_induct
  [where xa = "((((poll_future, host), n), f), x)" for poll_future host n f x, unfolded prod.case, rotated,
   consumes 1, case_names step]

lemma run_future_steps:
  assumes "run_future poll_future host n f x = Some r" "\<And>f x. executor_step\<^sup>*\<^sup>* x (snd (poll_future f x))"
    "r = Inr (v, x')"
  shows "executor_step\<^sup>*\<^sup>* x x'"
  using assms
proof (induction arbitrary: v x' rule: run_future_induct)
  case (step rf poll_future host n f x r)
  obtain a x1 where poll: "poll_future f x = (a, x1)" by fastforce
  have reach: "executor_step\<^sup>*\<^sup>* x x1" using step.prems(1) [of x f] poll by simp
  show ?case
  proof (cases a)
    case (Inl u)
    then show ?thesis using step.hyps step.prems(2) poll reach by simp
  next
    case (Inr f')
    obtain x2 where round: "wait_round (host n) x1 = Inr x2"
        and rest: "rf poll_future host (Suc n) f' x2 = Some r"
      using step.hyps step.prems(2) poll Inr by (auto split: sum.splits)
    have "executor_step\<^sup>*\<^sup>* x2 x'" by (rule step.IH [OF rest step.prems])
    then show ?thesis
      using reach step_round [OF round] by (meson converse_rtranclp_into_rtranclp rtranclp_trans)
  qed
qed

text \<open>
  C26. The executor loses no subscription: whatever the host reports ready and in whatever order the future
  subscribes and drops, a subscription that waits on a pollable when a run starts has, when the run returns, been
  woken, or been dropped by its owner, or still waits on the same pollable.
\<close>

theorem no_subscription_lost:
  assumes "\<And>f x. executor_step\<^sup>*\<^sup>* x (snd (poll_future f x))"
    "listed_once x" "(s, wk) \<in> set (ec_waiting x)" "ec_slots x s = Some p"
    "run_executor poll_future host f x = Some (Inr (value, x'))"
  shows "wk \<in> set (ec_woken x') \<or> s \<notin> ec_held x' \<or> (s, wk) \<in> set (ec_waiting x') \<and> ec_slots x' s = Some p"
proof -
  have "executor_step\<^sup>*\<^sup>* (retain_live x) x'"
    using run_future_steps [OF _ assms(1) refl] assms(5) by (simp add: run_executor_def)
  then have "executor_step\<^sup>*\<^sup>* x x'" using step_retain by (rule converse_rtranclp_into_rtranclp [rotated])
  moreover have "subscription_accounted s wk p x" using assms(2-4) by (auto simp: subscription_accounted_def listed_once_def)
  ultimately have "subscription_accounted s wk p x'" using subscription_accounted_steps [OF _ assms(2)] by blast
  then show ?thesis by (simp add: subscription_accounted_def)
qed

text \<open>A future that subscribes once and is ready when it is polled again, beside an earlier subscription.\<close>

definition sample_poll :: "bool \<Rightarrow> executor \<Rightarrow> (unit + bool) \<times> executor" where
  "sample_poll f x = (if f then (Inl (), x) else (Inr True, snd (subscribe 7 1 x)))"

definition sample_executor :: executor where
  "sample_executor = \<lparr>ec_waiting = [(0, 5)], ec_slots = [0 \<mapsto> 3], ec_held = {0}, ec_woken = [], ec_next = 1\<rparr>"

definition sample_end :: executor where
  "sample_end = \<lparr>ec_waiting = [(0, 5)], ec_slots = [0 \<mapsto> 3], ec_held = {0, 1}, ec_woken = [1], ec_next = 2\<rparr>"

lemma sample_run: "run_executor sample_poll (\<lambda>_ _. [1]) False sample_executor = Some (Inr ((), sample_end))"
  by (simp add: run_executor_def retain_live_def sample_executor_def sample_end_def run_future.simps sample_poll_def
      subscribe_def wait_round_def fun_eq_iff upt_rec numeral_2_eq_2 insert_commute)

theorem no_subscription_lost_witness:
  "run_executor sample_poll (\<lambda>_ _. [1]) False sample_executor = Some (Inr ((), sample_end))
    \<and> (5 \<in> set (ec_woken sample_end) \<or> 0 \<notin> ec_held sample_end
      \<or> (0, 5) \<in> set (ec_waiting sample_end) \<and> ec_slots sample_end 0 = Some 3)"
proof (rule conjI [OF sample_run], rule no_subscription_lost [OF _ _ _ _ sample_run])
  show "executor_step\<^sup>*\<^sup>* x (snd (sample_poll f x))" for f x
    by (auto simp: sample_poll_def intro: step_subscribe r_into_rtranclp [of executor_step])
qed (auto simp: sample_executor_def listed_once_def)

end
