(* ===== verification/Git_Fetch.thy ===== *)
theory Git_Fetch
  imports Prelude
begin

text \<open>
  The fetch policy of the Git server (\<^verbatim>\<open>examples/git/fetch_policy.go\<close>): \<open>visibleFetch\<close> admits a request only
  for objects that the published references reach, and keeps only the haves that they reach. The object
  store and the decoders of go-git are parameters, as is the order in which Go iterates over a map.
\<close>


section \<open>Objects\<close>

text \<open>The 32-byte array of a \<open>plumbing.Hash\<close>.\<close>

type_synonym git_hash = "256 word"

datatype object_type = CommitObject | TreeObject | BlobObject | TagObject

datatype file_mode = Dir | Submodule | OtherMode

record tree_entry =
  te_mode :: file_mode
  te_hash :: git_hash

datatype read_failure = ObjectNotFound | OtherReadFailure string

datatype fetch_error = ReadFailure read_failure | NotReachable

text \<open>What the store and the decoders answer for one view.\<close>

record object_storer =
  os_type :: "git_hash \<Rightarrow> read_failure + object_type"
  os_commit :: "git_hash \<Rightarrow> read_failure + git_hash \<times> git_hash list"
  os_tag :: "git_hash \<Rightarrow> read_failure + git_hash"
  os_tree :: "git_hash \<Rightarrow> read_failure + tree_entry list"


section \<open>The walk\<close>

text \<open>The ids whose visibility has to be shown, for the wants (group 0) and then the haves.\<close>

fun needed_ids ::
    "object_storer \<Rightarrow> git_hash set \<Rightarrow> bool \<Rightarrow> git_hash list \<Rightarrow> git_hash set \<times> bool \<Rightarrow> read_failure + git_hash set \<times> bool" where
  "needed_ids s visible wanted [] (needed, full_walk) = Inr (needed, full_walk)"
| "needed_ids s visible wanted (i # ids) (needed, full_walk) =
    (if i \<in> visible then needed_ids s visible wanted ids (needed, full_walk)
     else
       (case os_type s i of
          Inl e \<Rightarrow> if e = ObjectNotFound then needed_ids s visible wanted ids (needed, full_walk) else Inl e
        | Inr kind \<Rightarrow>
            let full_walk = (full_walk \<or> wanted \<and> kind \<noteq> CommitObject) in
            needed_ids s visible wanted ids
              (if wanted \<or> full_walk \<or> kind = CommitObject then insert i needed else needed, full_walk)))"

record walk_state =
  ws_queue :: "git_hash list"
  ws_seen :: "git_hash set"
  ws_parents :: "git_hash list"
  ws_visible :: "git_hash set"
  ws_needed :: "git_hash set"

definition enqueue :: "git_hash \<Rightarrow> walk_state \<Rightarrow> walk_state" where
  "enqueue i w =
    (if i \<in> ws_seen w then w else w\<lparr>ws_seen := insert i (ws_seen w), ws_queue := ws_queue w @ [i]\<rparr>)"

definition add_parent :: "git_hash \<Rightarrow> walk_state \<Rightarrow> walk_state" where
  "add_parent i w =
    (if i \<in> ws_seen w \<or> i \<in> set (ws_parents w) then w else w\<lparr>ws_parents := ws_parents w @ [i]\<rparr>)"

definition see_entry :: "tree_entry \<Rightarrow> walk_state \<Rightarrow> walk_state" where
  "see_entry entry w =
    (if te_mode entry = Submodule then w
     else
       let w = w\<lparr>ws_visible := insert (te_hash entry) (ws_visible w), ws_needed := ws_needed w - {te_hash entry}\<rparr> in
       if te_mode entry = Dir then enqueue (te_hash entry) w else w)"

definition visit :: "object_storer \<Rightarrow> bool \<Rightarrow> git_hash \<Rightarrow> object_type \<Rightarrow> walk_state \<Rightarrow> read_failure + walk_state" where
  "visit s full_walk i kind w =
    (case kind of
       CommitObject \<Rightarrow>
         and_then (os_commit s i) (\<lambda>(tree, parents).
         let w = fold add_parent parents w in
         Inr (if full_walk then enqueue tree w else w))
     | TagObject \<Rightarrow> and_then (os_tag s i) (\<lambda>target. Inr (enqueue target w))
     | TreeObject \<Rightarrow>
         if full_walk then and_then (os_tree s i) (\<lambda>entries. Inr (fold see_entry entries w)) else Inr w
     | BlobObject \<Rightarrow> Inr w)"

text \<open>Once the queue is empty, the parents found so far are the next generation.\<close>

definition next_generation_ids :: "(git_hash list \<Rightarrow> git_hash list) \<Rightarrow> walk_state \<Rightarrow> walk_state" where
  "next_generation_ids order w =
    (if ws_queue w = [] then (fold enqueue (order (ws_parents w)) w)\<lparr>ws_parents := []\<rparr> else w)"

definition mark_visible :: "bool \<Rightarrow> git_hash \<Rightarrow> object_type \<Rightarrow> walk_state \<Rightarrow> walk_state" where
  "mark_visible full_walk i kind w =
    (if full_walk \<or> kind = CommitObject
     then w\<lparr>ws_visible := insert i (ws_visible w), ws_needed := ws_needed w - {i}\<rparr> else w)"

definition walk_measure :: "walk_state \<Rightarrow> nat" where
  "walk_measure w = card (- ws_seen w) + length (ws_queue w)"

lemma card_unseen: "i \<notin> S \<Longrightarrow> Suc (card (- insert i S)) = card (- (S :: git_hash set))"
  by (metis Compl_iff Compl_insert card_Suc_Diff1 finite)

lemma measure_enqueue [simp]: "walk_measure (enqueue i w) = walk_measure w"
  using card_unseen [of i "ws_seen w"] by (simp add: enqueue_def walk_measure_def)

lemma measure_fold_enqueue [simp]: "walk_measure (fold enqueue is w) = walk_measure w"
  by (induction "is" arbitrary: w) simp_all

lemma measure_fold_add_parent [simp]: "walk_measure (fold add_parent is w) = walk_measure w"
  by (induction "is" arbitrary: w) (simp_all add: add_parent_def walk_measure_def)

lemma measure_see_entry [simp]: "walk_measure (see_entry e w) = walk_measure w"
  by (simp add: see_entry_def Let_def) (simp add: walk_measure_def)

lemma measure_fold_see_entry [simp]: "walk_measure (fold see_entry es w) = walk_measure w"
  by (induction es arbitrary: w) simp_all

lemma measure_visit: "visit s full_walk i kind w = Inr w' \<Longrightarrow> walk_measure w' = walk_measure w"
  by (auto simp: visit_def and_then_def Let_def split: object_type.splits sum.splits if_splits)

lemma measure_next [simp]: "walk_measure (next_generation_ids order w) = walk_measure w"
  using measure_fold_enqueue [of "order (ws_parents w)" w] by (simp add: next_generation_ids_def walk_measure_def)

lemma measure_mark [simp]: "walk_measure (mark_visible full_walk i kind w) = walk_measure w"
  by (simp add: mark_visible_def walk_measure_def)

text \<open>The breadth-first loop; every iteration takes an id that was never taken before.\<close>

function walk_visible ::
    "object_storer \<Rightarrow> (git_hash list \<Rightarrow> git_hash list) \<Rightarrow> bool \<Rightarrow> walk_state \<Rightarrow> read_failure + walk_state" where
  "walk_visible s order full_walk w =
    (if ws_needed w = {} then Inr w
     else
       (case ws_queue w of
          [] \<Rightarrow> Inr w
        | i # rest \<Rightarrow>
            (case os_type s i of
               Inl e \<Rightarrow> Inl e
             | Inr kind \<Rightarrow>
                 let w = mark_visible full_walk i kind (w\<lparr>ws_queue := rest\<rparr>) in
                 if ws_needed w = {} then Inr w
                 else
                   (case visit s full_walk i kind w of
                      Inl e \<Rightarrow> Inl e
                    | Inr w \<Rightarrow> walk_visible s order full_walk (next_generation_ids order w)))))"
  by pat_completeness auto

termination
proof (relation "measure (\<lambda>(s, order, full_walk, w). walk_measure w)")
  fix s :: object_storer and order full_walk w i rest kind w1 w2
  assume "ws_queue w = i # rest" "w1 = mark_visible full_walk i kind (w\<lparr>ws_queue := rest\<rparr>)"
    "visit s full_walk i kind w1 = Inr w2"
  then have "walk_measure w2 = walk_measure (w\<lparr>ws_queue := rest\<rparr>)" by (simp add: measure_visit)
  also have "\<dots> < walk_measure w" using \<open>ws_queue w = i # rest\<close> by (simp add: walk_measure_def)
  finally show "((s, order, full_walk, next_generation_ids order w2), s, order, full_walk, w)
      \<in> measure (\<lambda>(s, order, full_walk, w). walk_measure w)"
    by simp
qed simp

declare walk_visible.simps [simp del]

definition visible_fetch ::
    "object_storer \<Rightarrow> (git_hash list \<Rightarrow> git_hash list) \<Rightarrow> git_hash list \<Rightarrow> git_hash list \<Rightarrow> git_hash list
      \<Rightarrow> fetch_error + git_hash list" where
  "visible_fetch s order tips wants haves =
    and_then (map_err ReadFailure (needed_ids s (set tips) True wants ({}, False))) (\<lambda>start.
    and_then (map_err ReadFailure (needed_ids s (set tips) False haves start)) (\<lambda>(needed, full_walk).
    and_then (map_err ReadFailure (walk_visible s order full_walk (fold enqueue tips
      \<lparr>ws_queue = [], ws_seen = {}, ws_parents = [], ws_visible = set tips, ws_needed = needed\<rparr>))) (\<lambda>w.
    if list_ex (\<lambda>i. i \<notin> ws_visible w) wants then Inl NotReachable
    else Inr (filter (\<lambda>i. i \<in> ws_visible w) haves))))"


section \<open>Reachability\<close>

text \<open>The objects that the tips reach; the commits that submodule entries name belong to other repositories.\<close>

inductive git_reaches :: "object_storer \<Rightarrow> git_hash set \<Rightarrow> git_hash \<Rightarrow> bool" for s tips where
  git_reaches_tip: "i \<in> tips \<Longrightarrow> git_reaches s tips i"
| git_reaches_parent: "git_reaches s tips i \<Longrightarrow> os_type s i = Inr CommitObject \<Longrightarrow> os_commit s i = Inr (tree, parents)
    \<Longrightarrow> j \<in> set parents \<Longrightarrow> git_reaches s tips j"
| git_reaches_root: "git_reaches s tips i \<Longrightarrow> os_type s i = Inr CommitObject \<Longrightarrow> os_commit s i = Inr (tree, parents)
    \<Longrightarrow> git_reaches s tips tree"
| git_reaches_target: "git_reaches s tips i \<Longrightarrow> os_type s i = Inr TagObject \<Longrightarrow> os_tag s i = Inr j \<Longrightarrow> git_reaches s tips j"
| git_reaches_entry: "git_reaches s tips i \<Longrightarrow> os_type s i = Inr TreeObject \<Longrightarrow> os_tree s i = Inr entries
    \<Longrightarrow> e \<in> set entries \<Longrightarrow> te_mode e \<noteq> Submodule \<Longrightarrow> git_reaches s tips (te_hash e)"

text \<open>The commits that the tips reach through parents and tags.\<close>

inductive commit_reaches :: "object_storer \<Rightarrow> git_hash set \<Rightarrow> git_hash \<Rightarrow> bool" for s tips where
  commit_tip: "i \<in> tips \<Longrightarrow> commit_reaches s tips i"
| commit_parent: "commit_reaches s tips i \<Longrightarrow> os_type s i = Inr CommitObject \<Longrightarrow> os_commit s i = Inr (tree, parents)
    \<Longrightarrow> j \<in> set parents \<Longrightarrow> commit_reaches s tips j"
| commit_target: "commit_reaches s tips i \<Longrightarrow> os_type s i = Inr TagObject \<Longrightarrow> os_tag s i = Inr j
    \<Longrightarrow> commit_reaches s tips j"

text \<open>
  \<open>walked\<close>: an id that the walk has taken from the queue is read, decoded and marked, and its successors are
  seen or, for the parents of a commit, noted for the next generation.
\<close>

definition walked :: "object_storer \<Rightarrow> bool \<Rightarrow> walk_state \<Rightarrow> git_hash \<Rightarrow> bool" where
  "walked s full w i =
    (case os_type s i of
       Inr CommitObject \<Rightarrow> i \<in> ws_visible w
         \<and> (case os_commit s i of
              Inr (tree, parents) \<Rightarrow> set parents \<subseteq> ws_seen w \<union> set (ws_parents w) \<and> (full \<longrightarrow> tree \<in> ws_seen w)
            | Inl _ \<Rightarrow> False)
     | Inr TagObject \<Rightarrow> (full \<longrightarrow> i \<in> ws_visible w) \<and> (case os_tag s i of Inr j \<Rightarrow> j \<in> ws_seen w | Inl _ \<Rightarrow> False)
     | Inr TreeObject \<Rightarrow> full \<longrightarrow> i \<in> ws_visible w
         \<and> (case os_tree s i of
              Inr entries \<Rightarrow> te_hash ` {e \<in> set entries. te_mode e \<noteq> Submodule} \<subseteq> ws_visible w
                \<and> te_hash ` {e \<in> set entries. te_mode e = Dir} \<subseteq> ws_seen w
            | Inl _ \<Rightarrow> False)
     | Inr BlobObject \<Rightarrow> full \<longrightarrow> i \<in> ws_visible w
     | Inl _ \<Rightarrow> False)"

text \<open>The states of a walk: \<open>grows w w'\<close> holds from a state to every later one.\<close>

definition grows :: "walk_state \<Rightarrow> walk_state \<Rightarrow> bool" where
  "grows w w' \<longleftrightarrow> ws_visible w \<subseteq> ws_visible w' \<and> ws_seen w \<subseteq> ws_seen w'
    \<and> ws_seen w \<union> set (ws_parents w) \<subseteq> ws_seen w' \<union> set (ws_parents w')
    \<and> ws_seen w' - set (ws_queue w') \<subseteq> ws_seen w - set (ws_queue w)
    \<and> ws_needed w \<subseteq> ws_needed w' \<union> ws_visible w' \<and> ws_needed w' \<subseteq> ws_needed w"

definition sound :: "object_storer \<Rightarrow> git_hash set \<Rightarrow> walk_state \<Rightarrow> bool" where
  "sound s tips w \<longleftrightarrow> ws_visible w \<union> ws_seen w \<union> set (ws_parents w) \<union> set (ws_queue w) \<subseteq> Collect (git_reaches s tips)"

lemma grows_refl: "grows w w"
  by (simp add: grows_def)

lemma grows_trans: "grows u v \<Longrightarrow> grows v w \<Longrightarrow> grows u w"
  unfolding grows_def by blast

lemma walked_extend:
  assumes "ws_visible w \<subseteq> ws_visible w'" "ws_seen w \<subseteq> ws_seen w'"
    "ws_seen w \<union> set (ws_parents w) \<subseteq> ws_seen w' \<union> set (ws_parents w')" "walked s full w i"
  shows "walked s full w' i"
  using assms unfolding walked_def by (simp split: sum.splits object_type.splits prod.splits; blast)

lemma walked_mono: "grows w w' \<Longrightarrow> walked s full w i \<Longrightarrow> walked s full w' i"
  unfolding grows_def by (rule walked_extend; simp)

lemma grows_fold: "(\<And>x w. grows w (f x w)) \<Longrightarrow> grows w (fold f xs w)"
  by (induction xs arbitrary: w) (auto intro: grows_refl grows_trans)

lemma grows_enqueue: "grows w (enqueue i w)" and grows_add_parent: "grows w (add_parent i w)"
  by (auto simp: grows_def enqueue_def add_parent_def)

lemma grows_see_entry: "grows w (see_entry e w)"
proof -
  have "grows w (w\<lparr>ws_visible := insert i (ws_visible w), ws_needed := ws_needed w - {i}\<rparr>)" for i
    by (auto simp: grows_def)
  then show ?thesis by (auto simp: see_entry_def Let_def grows_refl intro: grows_trans grows_enqueue)
qed

lemma grows_enqueues: "grows w (fold enqueue is w)" and grows_add_parents: "grows w (fold add_parent is w)"
  and grows_see_entries: "grows w (fold see_entry es w)"
  by (simp_all add: grows_fold grows_enqueue grows_add_parent grows_see_entry)

lemmas grows_steps = grows_refl grows_enqueue grows_enqueues grows_add_parents grows_see_entries

lemma grows_visit: "visit s full i kind w = Inr w' \<Longrightarrow> grows w w'"
  by (auto simp: visit_def and_then_def Let_def grows_steps
      intro: grows_trans [OF grows_add_parents grows_enqueue]
      split: object_type.splits sum.splits if_splits)

lemma seen_fold_enqueue:
  "ws_seen (fold enqueue is w) = ws_seen w \<union> set is" "ws_parents (fold enqueue is w) = ws_parents w"
  "ws_visible (fold enqueue is w) = ws_visible w" "ws_needed (fold enqueue is w) = ws_needed w"
  by (induction "is" arbitrary: w) (auto simp: enqueue_def split: if_splits)

lemma queue_fold_enqueue: "set (ws_queue (fold enqueue is w)) \<subseteq> set (ws_queue w) \<union> set is"
proof (induction "is" arbitrary: w)
  case (Cons i "is")
  have "set (ws_queue (enqueue i w)) \<subseteq> insert i (set (ws_queue w))" by (auto simp: enqueue_def)
  with Cons [of "enqueue i w"] show ?case by auto
qed simp

lemma grows_next:
  assumes "\<And>xs. set (order xs) = set xs"
  shows "grows w (next_generation_ids order w)"
  using grows_enqueues [of w "order (ws_parents w)"] seen_fold_enqueue [of "order (ws_parents w)" w] assms
  by (auto simp: next_generation_ids_def grows_def)

lemma parents_noted: "set is \<subseteq> ws_seen (fold add_parent is w) \<union> set (ws_parents (fold add_parent is w))"
proof (induction "is" arbitrary: w)
  case (Cons j "is")
  have "j \<in> ws_seen (add_parent j w) \<union> set (ws_parents (add_parent j w))" by (simp add: add_parent_def)
  with grows_add_parents [of "add_parent j w" "is"] Cons show ?case by (auto simp: grows_def)
qed simp

lemma entries_seen:
  "te_hash ` {e \<in> set es. te_mode e \<noteq> Submodule} \<subseteq> ws_visible (fold see_entry es w)
    \<and> te_hash ` {e \<in> set es. te_mode e = Dir} \<subseteq> ws_seen (fold see_entry es w)"
proof (induction es arbitrary: w)
  case (Cons e es)
  have "(te_mode e \<noteq> Submodule \<longrightarrow> te_hash e \<in> ws_visible (see_entry e w))
      \<and> (te_mode e = Dir \<longrightarrow> te_hash e \<in> ws_seen (see_entry e w))"
    by (simp add: see_entry_def Let_def enqueue_def)
  with grows_see_entries [of "see_entry e w" es] Cons [of "see_entry e w"] show ?case
    by (auto simp: grows_def)
qed simp

lemma visit_walked:
  assumes "visit s full i kind w = Inr w'" "os_type s i = Inr kind" "full \<or> kind = CommitObject \<longrightarrow> i \<in> ws_visible w"
  shows "walked s full w' i"
proof -
  have seen: "j \<in> ws_seen (enqueue j u)" for j u by (simp add: enqueue_def)
  have vis: "ws_visible w \<subseteq> ws_visible w'" using grows_visit [OF assms(1)] by (simp add: grows_def)
  show ?thesis
  proof (cases kind)
    case CommitObject
    obtain tree ps where c: "os_commit s i = Inr (tree, ps)"
      and w': "w' = (if full then enqueue tree (fold add_parent ps w) else fold add_parent ps w)"
      using assms(1) CommitObject by (auto simp: visit_def and_then_def Let_def split: sum.splits)
    have "grows (fold add_parent ps w) w'" by (simp add: w' grows_steps)
    with parents_noted [of ps w] have "set ps \<subseteq> ws_seen w' \<union> set (ws_parents w')" by (auto simp: grows_def)
    with c CommitObject assms(2, 3) vis seen show ?thesis by (auto simp: walked_def w')
  next
    case TreeObject
    show ?thesis
    proof (cases "os_tree s i")
      case (Inr es)
      with TreeObject assms vis entries_seen [of es w] show ?thesis
        by (auto simp: walked_def visit_def and_then_def split: if_splits)
    qed (use TreeObject assms in \<open>auto simp: walked_def visit_def and_then_def split: if_splits\<close>)
  qed (use assms vis seen in \<open>auto simp: walked_def visit_def and_then_def split: sum.splits\<close>)
qed


section \<open>The invariant of the walk\<close>

lemma sound_fold:
  assumes "\<And>x w. x \<in> set xs \<Longrightarrow> sound s tips w \<Longrightarrow> sound s tips (f x w)" "sound s tips w"
  shows "sound s tips (fold f xs w)"
  using assms by (induction xs arbitrary: w) auto

lemma sound_enqueue: "sound s tips w \<Longrightarrow> git_reaches s tips i \<Longrightarrow> sound s tips (enqueue i w)"
  by (auto simp: sound_def enqueue_def)

lemma sound_visit:
  assumes "visit s full i kind w = Inr w'" "os_type s i = Inr kind" "git_reaches s tips i" "sound s tips w"
  shows "sound s tips w'"
proof (cases kind)
  case CommitObject
  obtain tree ps where c: "os_commit s i = Inr (tree, ps)"
    and w': "w' = (if full then enqueue tree (fold add_parent ps w) else fold add_parent ps w)"
    using assms(1) CommitObject by (auto simp: visit_def and_then_def Let_def split: sum.splits)
  have "sound s tips (fold add_parent ps w)"
    using git_reaches_parent [OF assms(3) _ c] assms(2, 4) CommitObject
    by (intro sound_fold) (auto simp: sound_def add_parent_def)
  moreover have "git_reaches s tips tree" using git_reaches_root [OF assms(3) _ c] assms(2) CommitObject by simp
  ultimately show ?thesis by (simp add: w' sound_enqueue)
next
  case TreeObject
  show ?thesis
  proof (cases full)
    case True
    then obtain es where es: "os_tree s i = Inr es" "w' = fold see_entry es w"
      using assms(1) TreeObject by (auto simp: visit_def and_then_def split: sum.splits)
    have "sound s tips (see_entry e u)" if "e \<in> set es" "sound s tips u" for e u
    proof (cases "te_mode e = Submodule")
      case False
      then have "git_reaches s tips (te_hash e)"
        using git_reaches_entry [OF assms(3) _ es(1) that(1)] assms(2) TreeObject by simp
      with that(2) show ?thesis by (auto simp: see_entry_def Let_def sound_def enqueue_def)
    qed (simp add: see_entry_def that(2))
    then show ?thesis unfolding es(2) using assms(4) by (intro sound_fold)
  qed (use assms TreeObject in \<open>simp add: visit_def\<close>)
qed (use assms in \<open>auto simp: visit_def and_then_def intro: sound_enqueue git_reaches_target split: sum.splits\<close>)

definition walk_inv :: "object_storer \<Rightarrow> bool \<Rightarrow> git_hash set \<Rightarrow> walk_state \<Rightarrow> bool" where
  "walk_inv s full tips w \<longleftrightarrow> sound s tips w \<and> tips \<subseteq> ws_seen w
    \<and> (\<forall>i\<in>ws_seen w - set (ws_queue w). walked s full w i) \<and> (ws_queue w = [] \<longrightarrow> ws_parents w = [])"

lemma sound_next:
  assumes "\<And>xs. set (order xs) = set xs" "sound s tips w"
  shows "sound s tips (next_generation_ids order w)"
proof -
  have "sound s tips (fold enqueue (order (ws_parents w)) w)"
    using assms by (intro sound_fold sound_enqueue) (auto simp: sound_def)
  then show ?thesis using assms(2) by (simp add: next_generation_ids_def) (simp add: sound_def)
qed

lemma walk_inv_step:
  assumes order: "\<And>xs. set (order xs) = set xs" and inv: "walk_inv s full tips w" and q: "ws_queue w = i # rest"
    and kind: "os_type s i = Inr kind" and w1: "w1 = mark_visible full i kind (w\<lparr>ws_queue := rest\<rparr>)"
    and visit: "visit s full i kind w1 = Inr w2" and w3: "w3 = next_generation_ids order w2"
  shows "walk_inv s full tips w3" "ws_visible w \<subseteq> ws_visible w3" "ws_needed w \<subseteq> ws_needed w3 \<union> ws_visible w3"
proof -
  have i: "git_reaches s tips i" using inv q by (auto simp: walk_inv_def sound_def)
  have mark: "ws_seen w1 = ws_seen w" "ws_parents w1 = ws_parents w" "ws_queue w1 = rest" "ws_visible w \<subseteq> ws_visible w1"
    "ws_needed w \<subseteq> ws_needed w1 \<union> ws_visible w1" "full \<or> kind = CommitObject \<longrightarrow> i \<in> ws_visible w1"
    by (auto simp: w1 mark_visible_def)
  have "sound s tips w1" using inv q i by (auto simp: w1 mark_visible_def walk_inv_def sound_def)
  then have sound: "sound s tips w3" unfolding w3 by (intro sound_next order sound_visit [OF visit kind i])
  have grows: "grows w1 w3" unfolding w3 by (rule grows_trans [OF grows_visit [OF visit] grows_next [OF order]])
  have "walked s full w3 j" if "j \<in> ws_seen w3 - set (ws_queue w3)" for j
  proof (cases "j = i")
    case True
    then show ?thesis using visit_walked [OF visit kind mark(6)] walked_mono [OF grows_next [OF order]] w3 by simp
  next
    case False
    have "j \<in> ws_seen w - set (ws_queue w)" using that grows mark False q by (auto simp: grows_def)
    then have "walked s full w j" using inv by (simp add: walk_inv_def)
    then have "walked s full w1 j" by (rule walked_extend [rotated 3]) (use mark in auto)
    then show ?thesis by (rule walked_mono [OF grows])
  qed
  moreover have "ws_queue w3 = [] \<longrightarrow> ws_parents w3 = []" by (simp add: w3 next_generation_ids_def)
  ultimately show "walk_inv s full tips w3"
    using sound inv grows mark(1) by (auto simp: walk_inv_def grows_def)
  show "ws_visible w \<subseteq> ws_visible w3" "ws_needed w \<subseteq> ws_needed w3 \<union> ws_visible w3"
    using grows mark by (auto simp: grows_def)
qed

lemma walk_visible_result:
  assumes "walk_visible s order full w = Inr w'" "walk_inv s full tips w" "\<And>xs. set (order xs) = set xs"
  shows "sound s tips w' \<and> ws_visible w \<subseteq> ws_visible w' \<and> ws_needed w \<subseteq> ws_needed w' \<union> ws_visible w'
    \<and> (ws_needed w' = {} \<or> ws_queue w' = [] \<and> walk_inv s full tips w')"
  using assms
proof (induction s order full w rule: walk_visible.induct)
  case (1 s order full w)
  note unfolded = "1.prems"(1) [unfolded walk_visible.simps [of s order full w]]
  show ?case
  proof (cases "ws_needed w = {} \<or> ws_queue w = []")
    case True
    then have "w' = w" using unfolded by (auto split: if_splits)
    then show ?thesis using True "1.prems"(2) by (auto simp: walk_inv_def)
  next
    case False
    then obtain i rest where q: "ws_queue w = i # rest" by (cases "ws_queue w") auto
    obtain kind where kind: "os_type s i = Inr kind"
      using unfolded False q by (cases "os_type s i") auto
    define w1 where "w1 = mark_visible full i kind (w\<lparr>ws_queue := rest\<rparr>)"
    show ?thesis
    proof (cases "ws_needed w1 = {}")
      case True
      then have "w' = w1" using unfolded False q kind by (simp add: w1_def Let_def)
      moreover have "sound s tips w1 \<and> ws_visible w \<subseteq> ws_visible w1 \<and> ws_needed w \<subseteq> ws_needed w1 \<union> ws_visible w1"
        using "1.prems"(2) q by (auto simp: w1_def mark_visible_def walk_inv_def sound_def)
      ultimately show ?thesis using True by simp
    next
      case needed: False
      obtain w2 where w2: "visit s full i kind w1 = Inr w2"
        using unfolded False q kind needed by (cases "visit s full i kind w1") (auto simp: w1_def Let_def)
      have rest: "walk_visible s order full (next_generation_ids order w2) = Inr w'"
        using unfolded False q kind needed w2 by (simp add: w1_def Let_def)
      note step = walk_inv_step [OF "1.prems"(3) "1.prems"(2) q kind w1_def w2 refl]
      have "ws_needed w \<noteq> {}" using False by simp
      from "1.IH" [OF this q kind w1_def needed w2 rest step(1) "1.prems"(3)] step(2, 3) show ?thesis
        by blast
    qed
  qed
qed


section \<open>The policy\<close>

lemma needed_ids_commits:
  assumes "needed_ids s visible wanted ids (needed, full) = Inr (needed', full')"
  shows "needed \<subseteq> needed' \<and> (\<forall>i\<in>set ids. os_type s i = Inr CommitObject \<longrightarrow> i \<in> visible \<or> i \<in> needed')"
  using assms
proof (induction ids arbitrary: needed full)
  case (Cons i ids)
  show ?case
  proof (cases "i \<in> visible")
    case False
    then show ?thesis
      using Cons.prems Cons.IH by (cases "os_type s i") (force simp: Let_def split: if_splits)+
  qed (use Cons in auto)
qed simp

lemma walk_inv_start:
  "walk_inv s full (set tips) (fold enqueue tips
    \<lparr>ws_queue = [], ws_seen = {}, ws_parents = [], ws_visible = set tips, ws_needed = needed\<rparr>)" (is "walk_inv _ _ _ (fold enqueue tips ?w)")
proof -
  have "ws_seen (fold enqueue tips ?w) - set (ws_queue (fold enqueue tips ?w)) = {}"
    using grows_enqueues [of ?w tips] by (simp add: grows_def)
  moreover have "sound s (set tips) (fold enqueue tips ?w)"
    by (intro sound_fold sound_enqueue) (auto simp: sound_def intro: git_reaches_tip)
  ultimately show ?thesis unfolding walk_inv_def by (simp only: ball_empty) (simp add: seen_fold_enqueue)
qed

lemma commits_visible:
  assumes "walk_inv s full tips w" "ws_queue w = []" "commit_reaches s tips i" "os_type s i = Inr CommitObject"
  shows "i \<in> ws_visible w"
proof -
  have walked: "walked s full w j" if "j \<in> ws_seen w" for j
    using assms(1, 2) that by (simp add: walk_inv_def)
  have "ws_parents w = []" using assms(1, 2) by (simp add: walk_inv_def)
  with assms(3) have "i \<in> ws_seen w"
  proof (induction rule: commit_reaches.induct)
    case (commit_tip i)
    then show ?case using assms(1) by (auto simp: walk_inv_def)
  next
    case (commit_parent i tree parents j)
    with walked [of i] show ?case by (auto simp: walked_def)
  next
    case (commit_target i j)
    with walked [of i] show ?case by (simp add: walked_def)
  qed
  with walked [of i] assms(4) show ?thesis by (simp add: walked_def)
qed

lemma visible_fetch_walk:
  assumes order: "\<And>xs. set (order xs) = set xs"
    and n1: "needed_ids s (set tips) True wants ({}, False) = Inr (n1, f1)"
    and n2: "needed_ids s (set tips) False haves (n1, f1) = Inr (n2, f2)"
    and walk: "walk_visible s order f2 (fold enqueue tips
      \<lparr>ws_queue = [], ws_seen = {}, ws_parents = [], ws_visible = set tips, ws_needed = n2\<rparr>) = Inr w"
  shows "ws_visible w \<subseteq> Collect (git_reaches s (set tips))"
    "\<And>i. i \<in> set wants \<union> set haves \<Longrightarrow> os_type s i = Inr CommitObject \<Longrightarrow> commit_reaches s (set tips) i \<Longrightarrow> i \<in> ws_visible w"
proof -
  note result = walk_visible_result [OF walk walk_inv_start order]
  show "ws_visible w \<subseteq> Collect (git_reaches s (set tips))" using result by (auto simp: sound_def)
  fix i
  assume i: "i \<in> set wants \<union> set haves" "os_type s i = Inr CommitObject" "commit_reaches s (set tips) i"
  have "i \<in> set tips \<union> n2" using needed_ids_commits [OF n1] needed_ids_commits [OF n2] i by blast
  then show "i \<in> ws_visible w"
    using result i commits_visible [of s f2 "set tips" w i] by (auto simp: seen_fold_enqueue)
qed

lemma visible_fetch_cases:
  assumes "\<And>xs. set (order xs) = set xs"
  shows "(\<exists>e. visible_fetch s order tips wants haves = Inl (ReadFailure e))
    \<or> (\<exists>V. V \<subseteq> Collect (git_reaches s (set tips))
        \<and> (\<forall>i\<in>set wants \<union> set haves. os_type s i = Inr CommitObject \<and> commit_reaches s (set tips) i \<longrightarrow> i \<in> V)
        \<and> visible_fetch s order tips wants haves =
            (if list_ex (\<lambda>i. i \<notin> V) wants then Inl NotReachable else Inr (filter (\<lambda>i. i \<in> V) haves)))"
proof (cases "needed_ids s (set tips) True wants ({}, False)")
  case n1: (Inr start)
  show ?thesis
  proof (cases "needed_ids s (set tips) False haves start")
    case n2: (Inr p)
    obtain n1' f1 n2' f2 where p: "start = (n1', f1)" "p = (n2', f2)" by fastforce
    show ?thesis
    proof (cases "walk_visible s order f2 (fold enqueue tips
        \<lparr>ws_queue = [], ws_seen = {}, ws_parents = [], ws_visible = set tips, ws_needed = n2'\<rparr>)")
      case w: (Inr w)
      note walk = visible_fetch_walk [OF assms n1 [unfolded p] n2 [unfolded p] w]
      have "visible_fetch s order tips wants haves = (if list_ex (\<lambda>i. i \<notin> ws_visible w) wants then Inl NotReachable
          else Inr (filter (\<lambda>i. i \<in> ws_visible w) haves))"
        using n1 n2 w by (simp add: visible_fetch_def p map_err_def)
      then show ?thesis using walk by (intro disjI2 exI [of _ "ws_visible w"]) blast
    qed (use n1 n2 p in \<open>simp add: visible_fetch_def map_err_def\<close>)
  qed (use n1 in \<open>simp add: visible_fetch_def map_err_def\<close>)
qed (simp add: visible_fetch_def map_err_def)

text \<open>
  C27. The fetch policy discloses only published objects and refuses no ordinary fetch. When \<open>visibleFetch\<close> admits a
  request, the published references reach every want and every have that it keeps, and it keeps every have that is a commit which
  they reach through parents and tags. When it refuses a request, some want is not such a commit. This holds for every
  iteration order of Go's maps.
\<close>

theorem fetch_discloses_published:
  assumes order: "\<And>xs. set (order xs) = set xs"
  shows "case visible_fetch s order tips wants haves of
      Inr kept \<Rightarrow> (\<forall>i\<in>set wants. git_reaches s (set tips) i) \<and> (\<forall>i\<in>set kept. i \<in> set haves \<and> git_reaches s (set tips) i)
        \<and> (\<forall>i\<in>set haves. os_type s i = Inr CommitObject \<and> commit_reaches s (set tips) i \<longrightarrow> i \<in> set kept)
    | Inl NotReachable \<Rightarrow> \<exists>i\<in>set wants. \<not> (os_type s i = Inr CommitObject \<and> commit_reaches s (set tips) i)
    | Inl (ReadFailure e) \<Rightarrow> True"
  using visible_fetch_cases [OF order, of s tips wants haves]
proof (elim disjE exE conjE)
  fix V
  assume "V \<subseteq> Collect (git_reaches s (set tips))"
    "\<forall>i\<in>set wants \<union> set haves. os_type s i = Inr CommitObject \<and> commit_reaches s (set tips) i \<longrightarrow> i \<in> V"
    "visible_fetch s order tips wants haves =
      (if list_ex (\<lambda>i. i \<notin> V) wants then Inl NotReachable else Inr (filter (\<lambda>i. i \<in> V) haves))"
  then show ?thesis by (cases "list_ex (\<lambda>i. i \<notin> V) wants") (auto simp: list_ex_iff)
qed simp

definition sample_storer :: object_storer where
  "sample_storer = \<lparr>
    os_type = (\<lambda>i. if i = 1 \<or> i = 3 then Inr CommitObject else Inl ObjectNotFound),
    os_commit = (\<lambda>i. if i = 1 then Inr (2, [3]) else Inr (4, [])),
    os_tag = (\<lambda>_. Inl ObjectNotFound), os_tree = (\<lambda>_. Inl ObjectNotFound)\<rparr>"

theorem fetch_discloses_published_witness:
  "visible_fetch sample_storer (\<lambda>xs. xs) [1] [3] [5, 3] = Inr [3] \<and> git_reaches sample_storer {1} 3"
proof -
  have run: "visible_fetch sample_storer (\<lambda>xs. xs) [1] [3] [5, 3] = Inr [3]"
    by (simp add: visible_fetch_def sample_storer_def walk_visible.simps mark_visible_def visit_def enqueue_def add_parent_def
        next_generation_ids_def Let_def)
  with fetch_discloses_published [where order = "\<lambda>xs. xs" and s = sample_storer and tips = "[1]" and wants = "[3]" and haves = "[5, 3]"] show ?thesis by simp
qed

end
