(* ===== verification/Git_Catalog.thy ===== *)
theory Git_Catalog
  imports Prelude "HOL-Library.AList"
begin

text \<open>
  The object catalog of the Git server (\<^verbatim>\<open>examples/git/index.go\<close>): a radix tree over object names in immutable
  nodes. A Go map is an association list with distinct keys; the order in which Go iterates over its keys and the
  functions that load and save a node are parameters, as they are in the code. The state \<open>'s\<close> is that of the node store.
\<close>

type_synonym 'v gomap = "(string \<times> 'v) list"

text \<open>\<open>nil\<close> children are \<open>None\<close>.\<close>

record ('v, 'h) radix_node =
  Items :: "'v gomap"
  Children :: "'h gomap option"

definition empty_node :: "('v, 'h) radix_node" where
  "empty_node = \<lparr>Items = [], Children = None\<rparr>"

definition indexLeafTarget :: nat where
  "indexLeafTarget = 128"

definition maps_copy :: "'v gomap \<Rightarrow> 'v gomap \<Rightarrow> 'v gomap" where
  "maps_copy dst src = fold (\<lambda>(k, v). AList.update k v) src dst"

text \<open>\<open>for k, v := range m\<close>.\<close>

definition range_map :: "(string list \<Rightarrow> string list) \<Rightarrow> 'v gomap \<Rightarrow> 'v gomap" where
  "range_map order m = List.map_filter (\<lambda>k. map_option (Pair k) (map_of m k)) (order (map fst m))"

definition group_item :: "nat \<Rightarrow> string \<times> 'v \<Rightarrow> 'v gomap gomap \<Rightarrow> 'v gomap gomap" where
  "group_item width item groups =
    (case item of (i, v) \<Rightarrow>
     AList.update (take width i) (AList.update i v (case map_of groups (take width i) of Some g \<Rightarrow> g | None \<Rightarrow> [])) groups)"

definition partition_items :: "'v gomap \<Rightarrow> nat \<Rightarrow> string + 'v gomap gomap" where
  "partition_items items width =
    (if list_ex (\<lambda>(i, _). length i < width) items then Inl ''invalid index key''
     else Inr (fold (group_item width) items []))"


section \<open>Facts about maps\<close>

lemma map_of_update [simp]: "map_of (AList.update k v m) = (map_of m)(k \<mapsto> v)"
  by (rule update_conv')

lemma map_of_maps_copy: "distinct (map fst src) \<Longrightarrow> map_of (maps_copy dst src) = map_of dst ++ map_of src"
proof (induction src arbitrary: dst)
  case (Cons e src)
  obtain k v where e: "e = (k, v)" by fastforce
  have "k \<notin> dom (map_of src)" using Cons.prems e by (simp add: dom_map_of_conv_image_fst)
  moreover have "map_of (maps_copy (AList.update k v dst) src) = map_of (AList.update k v dst) ++ map_of src"
    using Cons e by simp
  ultimately show ?case
    by (auto simp: e maps_copy_def map_add_def fun_eq_iff split: option.splits)
qed (simp add: maps_copy_def)

lemma distinct_maps_copy: "distinct (map fst dst) \<Longrightarrow> distinct (map fst (maps_copy dst src))"
  by (induction src arbitrary: dst) (auto simp: maps_copy_def distinct_update split: prod.splits)

lemma set_maps_copy: "set (maps_copy a b) \<subseteq> set a \<union> set b"
proof (induction b arbitrary: a)
  case (Cons e b)
  obtain k v where e: "e = (k, v)" by fastforce
  have "set (AList.update k v a) \<subseteq> insert e (set a)" for a by (induction a) (auto simp: e)
  with Cons [of "AList.update k v a"] show ?case by (fastforce simp: maps_copy_def e)
qed (simp add: maps_copy_def)

lemma range_map_subset: "(k, v) \<in> set (range_map order m) \<Longrightarrow> (k, v) \<in> set m"
  by (auto simp: range_map_def List.map_filter_def dest: map_of_SomeD split: option.splits)

lemma map_of_map_filter:
  "map_of (List.map_filter (\<lambda>k. map_option (Pair k) (f k)) ks) k = (if k \<in> set ks then f k else None)"
  by (induction ks) (auto simp: List.map_filter_simps split: option.splits)

lemma map_of_range_map: "set (order (map fst m)) = set (map fst m) \<Longrightarrow> map_of (range_map order m) = map_of m"
  by (rule ext) (auto simp: range_map_def map_of_map_filter map_of_eq_None_iff [THEN iffD2])

lemma distinct_map_filter_keys:
  "distinct ks \<Longrightarrow> distinct (map fst (List.map_filter (\<lambda>k. map_option (Pair k) (f k)) ks))"
proof (induction ks)
  case (Cons k ks)
  have "fst ` set (List.map_filter (\<lambda>k. map_option (Pair k) (f k)) ks) \<subseteq> set ks"
    by (auto simp: List.map_filter_def)
  with Cons show ?case by (auto simp: List.map_filter_simps split: option.splits)
qed (simp add: List.map_filter_simps)

lemma distinct_range_map: "distinct (order (map fst m)) \<Longrightarrow> distinct (map fst (range_map order m))"
  unfolding range_map_def by (rule distinct_map_filter_keys)

lemma map_of_fold_group:
  "map_of (fold (group_item width) items groups) k =
    (let new = filter (\<lambda>(i, _). take width i = k) items in
     if new = [] then map_of groups k
     else Some (maps_copy (case map_of groups k of Some g \<Rightarrow> g | None \<Rightarrow> []) new))"
proof (induction items arbitrary: groups)
  case (Cons e items)
  obtain i v where e: "e = (i, v)" by fastforce
  show ?case using Cons [of "group_item width e groups"]
    by (auto simp: e group_item_def maps_copy_def Let_def split: option.splits)
qed simp

text \<open>A group holds exactly the items whose name starts with its key.\<close>

lemma partition_groups:
  assumes "partition_items items width = Inr groups" "distinct (map fst items)"
  shows "map_of groups k = (let new = filter (\<lambda>(i, _). take width i = k) items in if new = [] then None else Some (maps_copy [] new))"
    "distinct (map fst groups)" "(i, v) \<in> set items \<Longrightarrow> width \<le> length i"
proof -
  have g: "groups = fold (group_item width) items []" and len: "\<forall>(i, _)\<in>set items. \<not> length i < width"
    using assms(1) by (auto simp: partition_items_def list_ex_iff split: if_splits)
  show "map_of groups k = (let new = filter (\<lambda>(i, _). take width i = k) items in if new = [] then None else Some (maps_copy [] new))"
    unfolding g map_of_fold_group by (simp add: Let_def)
  have "distinct (map fst gs) \<Longrightarrow> distinct (map fst (fold (group_item width) items gs))" for gs
    by (induction items arbitrary: gs) (auto simp: group_item_def distinct_update split: prod.splits)
  then show "distinct (map fst groups)" by (simp add: g)
  show "(i, v) \<in> set items \<Longrightarrow> width \<le> length i" using len by auto
qed

lemma map_of_filter_keys: "map_of (filter (\<lambda>(i, _). P i) m) i = (if P i then map_of m i else None)"
  by (induction m) auto

lemma partition_lookup:
  assumes "partition_items items width = Inr groups" "distinct (map fst items)"
  shows "(case map_of groups (take width i) of Some g \<Rightarrow> map_of g i | None \<Rightarrow> None) = map_of items i"
    "map_of groups k = Some g \<Longrightarrow> distinct (map fst g) \<and> (map_of g i \<noteq> None \<longrightarrow> take width i = k)"
proof -
  have d: "distinct (map fst (filter P items))" for P using assms(2) by (simp add: distinct_map_filter)
  have m: "map_of (maps_copy [] (filter (\<lambda>(i, _). take width i = k) items)) i
      = (if take width i = k then map_of items i else None)" for k i
    using map_of_maps_copy [OF d, of "[]"] by (simp add: map_of_filter_keys)
  show "(case map_of groups (take width i) of Some g \<Rightarrow> map_of g i | None \<Rightarrow> None) = map_of items i"
    using partition_groups(1) [OF assms, of "take width i"] m [of "take width i" i]
      map_of_filter_keys [of "\<lambda>j. take width j = take width i" items i]
    by (auto simp: Let_def split: if_splits)
  show "map_of groups k = Some g \<Longrightarrow> distinct (map fst g) \<and> (map_of g i \<noteq> None \<longrightarrow> take width i = k)"
    using partition_groups(1) [OF assms, of k] m [of k i] by (auto simp: Let_def distinct_maps_copy split: if_splits)
qed


section \<open>Operations\<close>

type_synonym ('v, 'h, 's) load_node = "string \<Rightarrow> 'h \<Rightarrow> 's \<Rightarrow> (string + ('v, 'h) radix_node) \<times> 's"
type_synonym ('v, 'h, 's) save_node = "('v, 'h) radix_node \<Rightarrow> 's \<Rightarrow> (string + 'h) \<times> 's"

definition longest :: "'v gomap \<Rightarrow> nat" where
  "longest m = foldr (\<lambda>(i, _) n. max (length i) n) m 0"

lemma longest_le: "(\<And>i v. (i, v) \<in> set m \<Longrightarrow> length i \<le> n) \<Longrightarrow> longest m \<le> n"
  unfolding longest_def by (induction m) fastforce+

lemma le_longest: "(i, v) \<in> set m \<Longrightarrow> length i \<le> longest m"
  unfolding longest_def by (induction m) fastforce+

definition deepest :: "'v gomap gomap \<Rightarrow> nat" where
  "deepest groups = foldr (\<lambda>(k, g) n. max (Suc (longest g) - length k) n) groups 0"

lemma deepest_le: "(\<And>k g. (k, g) \<in> set groups \<Longrightarrow> Suc (longest g) - length k \<le> n) \<Longrightarrow> deepest groups \<le> n"
  unfolding deepest_def by (induction groups) fastforce+

text \<open>The updates that a node distributes: a leaf adds them to its own items.\<close>

definition merged_items :: "('v, 'h) radix_node \<Rightarrow> 'v gomap \<Rightarrow> 'v gomap" where
  "merged_items node updates =
    (if Children node = None then maps_copy (maps_copy [] (Items node)) updates else updates)"

definition radix_rank :: "string \<Rightarrow> ('v, 'h) radix_node \<Rightarrow> 'v gomap \<Rightarrow> nat \<times> nat \<times> nat" where
  "radix_rank prefix node updates =
    (case Children node of
       None \<Rightarrow> (0, Suc (longest (merged_items node updates)) - length prefix, 1)
     | Some _ \<Rightarrow> (Suc (Suc (longest updates) - length prefix), 0, 1))"

definition groups_rank :: "'h gomap option \<Rightarrow> 'v gomap gomap \<Rightarrow> nat \<times> nat \<times> nat" where
  "groups_rank old groups =
    (case old of
       None \<Rightarrow> (0, deepest groups, 2 * length groups)
     | Some _ \<Rightarrow> (Suc (deepest groups), 0, 2 * length groups))"

abbreviation rank_less :: "((nat \<times> nat \<times> nat) \<times> nat \<times> nat \<times> nat) set" where
  "rank_less \<equiv> less_than <*lex*> less_than <*lex*> less_than"

text \<open>Duplicate names do not occur, but the bounds hold for every list.\<close>

lemma partition_depth:
  assumes "partition_items items (Suc n) = Inr groups"
  shows "deepest (range_map order groups) \<le> longest items - n" "items \<noteq> [] \<Longrightarrow> n < longest items"
    "items = [] \<Longrightarrow> range_map order groups = []"
proof -
  have len: "\<forall>(i, _)\<in>set items. Suc n \<le> length i" and g: "groups = fold (group_item (Suc n)) items []"
    using assms by (auto simp: partition_items_def list_ex_iff split: if_splits)
  have "Suc (longest m) - length k \<le> longest items - n" if km: "(k, m) \<in> set (range_map order groups)" for k m
  proof -
    have "map_of groups k = Some m"
      using km by (auto simp: range_map_def List.map_filter_def split: option.splits)
    then have m: "m = maps_copy [] (filter (\<lambda>(i, _). take (Suc n) i = k) items)"
      and "filter (\<lambda>(i, _). take (Suc n) i = k) items \<noteq> []"
      unfolding g map_of_fold_group by (auto simp: Let_def split: if_splits)
    then obtain i v where "(i, v) \<in> set items" "take (Suc n) i = k" by (fastforce simp: filter_empty_conv)
    then have "length k = Suc n" using len by force
    moreover have "longest m \<le> longest items"
      using set_maps_copy [of "[]" "filter (\<lambda>(i, _). take (Suc n) i = k) items"] by (intro longest_le le_longest) (auto simp: m)
    ultimately show ?thesis by simp
  qed
  then show "deepest (range_map order groups) \<le> longest items - n" by (rule deepest_le)
  show "n < longest items" if "items \<noteq> []"
    using that len le_longest [of "fst (hd items)" "snd (hd items)" items] by (cases items) auto
  show "range_map order groups = []" if "items = []"
    using that g by (simp add: range_map_def List.map_filter_def)
qed

lemma le_deepest: "(k, g) \<in> set groups \<Longrightarrow> Suc (longest g) - length k \<le> deepest groups"
  unfolding deepest_def by (induction groups) fastforce+

lemma rank_groups:
  assumes "partition_items (merged_items node updates) (length prefix + 1) = Inr groups"
    and "\<not> (Children node = None \<and> length (merged_items node updates) \<le> indexLeafTarget)"
  shows "(groups_rank (Children node) (range_map order groups), radix_rank prefix node updates) \<in> rank_less"
proof -
  have part: "partition_items (merged_items node updates) (Suc (length prefix)) = Inr groups" using assms(1) by simp
  note depth = partition_depth(1) [OF part, of order] partition_depth(2) [OF part] partition_depth(3) [OF part, of order]
  show ?thesis
  proof (cases "Children node")
    case None
    then have "merged_items node updates \<noteq> []" using assms(2) by auto
    then show ?thesis using depth(1, 2) None by (auto simp: groups_rank_def radix_rank_def)
  next
    case (Some cs)
    then have "merged_items node updates = updates" by (simp add: merged_items_def)
    then show ?thesis
      using depth Some by (cases "updates = []") (auto simp: groups_rank_def radix_rank_def deepest_def)
  qed
qed

lemma rank_child:
  assumes "Option.bind old (\<lambda>cs. map_of cs key) = None \<longrightarrow> child = empty_node"
  shows "(radix_rank key child members, groups_rank old ((key, members) # groups)) \<in> rank_less"
proof (cases "Children child")
  case None
  show ?thesis
  proof (cases old)
    case old: None
    then have "merged_items child members = maps_copy [] members"
      using assms by (simp add: merged_items_def empty_node_def maps_copy_def)
    then have "longest (merged_items child members) \<le> longest members"
      using set_maps_copy [of "[]" members] by (intro longest_le le_longest) auto
    then show ?thesis
      using None old le_deepest [of key members "(key, members) # groups"] by (auto simp: groups_rank_def radix_rank_def)
  qed (use None in \<open>simp add: groups_rank_def radix_rank_def\<close>)
next
  case (Some cs)
  then have "old \<noteq> None" using assms by (cases old) (auto simp: empty_node_def)
  then show ?thesis
    using Some le_deepest [of key members "(key, members) # groups"] by (auto simp: groups_rank_def radix_rank_def)
qed

lemma rank_tail: "(groups_rank old groups, groups_rank old (e # groups)) \<in> rank_less"
proof -
  have "deepest groups \<le> deepest (e # groups)" by (intro deepest_le le_deepest) simp
  then show ?thesis by (auto simp: groups_rank_def split: option.splits)
qed

text \<open>
  Every level of \<open>updateRadix\<close> takes one more digit of the names it distributes: of the updates while it descends in
  stored branches, and of all items once it splits a leaf. \<open>update_groups\<close> is the loop over the groups; the children that it
  replaces are looked up in the node's own children, since the keys of the groups are distinct.
\<close>

function update_radix ::
    "(string list \<Rightarrow> string list) \<Rightarrow> ('v, 'h, 's) load_node \<Rightarrow> ('v, 'h, 's) save_node
      \<Rightarrow> string \<Rightarrow> ('v, 'h) radix_node \<Rightarrow> 'v gomap \<Rightarrow> 's \<Rightarrow> (string + 'h) \<times> 's"
and update_groups ::
    "(string list \<Rightarrow> string list) \<Rightarrow> ('v, 'h, 's) load_node \<Rightarrow> ('v, 'h, 's) save_node
      \<Rightarrow> 'h gomap option \<Rightarrow> 'v gomap gomap \<Rightarrow> 'h gomap \<Rightarrow> 's \<Rightarrow> (string + 'h gomap) \<times> 's" where
  "update_radix order load save prefix node updates s =
    (let items = merged_items node updates in
     if Children node = None \<and> length items \<le> indexLeafTarget then save \<lparr>Items = items, Children = None\<rparr> s
     else
       (case partition_items items (length prefix + 1) of
          Inl e \<Rightarrow> (Inl e, s)
        | Inr groups \<Rightarrow>
            (case update_groups order load save (Children node) (range_map order groups)
                 (case Children node of Some cs \<Rightarrow> cs | None \<Rightarrow> []) s of
               (Inl e, s) \<Rightarrow> (Inl e, s)
             | (Inr children, s) \<Rightarrow> save \<lparr>Items = [], Children = Some children\<rparr> s)))"
| "update_groups order load save old [] children s = (Inr children, s)"
| "update_groups order load save old ((key, members) # groups) children s =
    (case (case Option.bind old (\<lambda>cs. map_of cs key) of None \<Rightarrow> (Inr empty_node, s) | Some root \<Rightarrow> load key root s) of
       (Inl e, s) \<Rightarrow> (Inl e, s)
     | (Inr child, s) \<Rightarrow>
         (case update_radix order load save key child members s of
            (Inl e, s) \<Rightarrow> (Inl e, s)
          | (Inr root, s) \<Rightarrow> update_groups order load save old groups (AList.update key root children) s))"
  by pat_completeness auto

termination
proof (relation "inv_image rank_less (case_sum
      (\<lambda>(order, load, save, prefix, node, updates, s). radix_rank prefix node updates)
      (\<lambda>(order, load, save, old, groups, children, s). groups_rank old groups))", goal_cases)
  case 1
  then show ?case by (intro wf_inv_image wf_lex_prod) auto
next
  case 2
  then show ?case using rank_groups by simp
next
  case 3
  then show ?case by (auto intro!: rank_child split: option.splits)
next
  case 4
  then show ?case using rank_tail by simp
qed

declare update_radix.simps [simp del]

function lookup_radix ::
    "('v, 'h, 's) load_node \<Rightarrow> string \<Rightarrow> string \<Rightarrow> 'h \<Rightarrow> 's \<Rightarrow> (string + 'v option) \<times> 's" where
  "lookup_radix load i prefix root s =
    (case load prefix root s of
       (Inl e, s) \<Rightarrow> (Inl e, s)
     | (Inr node, s) \<Rightarrow>
         (case Children node of
            None \<Rightarrow> (Inr (map_of (Items node) i), s)
          | Some children \<Rightarrow>
              if length i \<le> length prefix then (Inr None, s)
              else
                (case map_of children (take (length prefix + 1) i) of
                   None \<Rightarrow> (Inr None, s)
                 | Some child \<Rightarrow> lookup_radix load i (take (length prefix + 1) i) child s)))"
  by pat_completeness auto

termination
  by (relation "measure (\<lambda>(load, i, prefix, root, s). length i - length prefix)") auto

declare lookup_radix.simps [simp del]

text \<open>
  The loop of \<open>filterRadix\<close> over the items of a leaf. Its state is the lazily copied map (\<open>None\<close> while it is \<open>nil\<close>), whether an
  item has been dropped, and whether one has been kept.
\<close>

definition filter_item ::
    "(string \<Rightarrow> bool) \<Rightarrow> 'v gomap \<Rightarrow> string \<times> 'v \<Rightarrow> 'v gomap option \<times> bool \<times> bool \<Rightarrow> 'v gomap option \<times> bool \<times> bool" where
  "filter_item keep all item state =
    (case (item, state) of ((i, v), (items, changed, kept)) \<Rightarrow>
     if keep i then
       (if changed then Some (AList.update i v (case items of Some m \<Rightarrow> m | None \<Rightarrow> [])) else items, changed, True)
     else
       (map_option (AList.delete i) (if \<not> changed \<and> kept then Some all else items), True, kept))"

definition filter_leaf :: "(string list \<Rightarrow> string list) \<Rightarrow> (string \<Rightarrow> bool) \<Rightarrow> 'v gomap \<Rightarrow> 'v gomap option \<times> bool \<times> bool" where
  "filter_leaf order keep all = fold (filter_item keep all) (range_map order all) (None, False, False)"

text \<open>The children are copied when the first of them changes.\<close>

abbreviation or_all :: "'h gomap \<Rightarrow> 'h gomap option \<Rightarrow> 'h gomap" where
  "or_all all children \<equiv> (case children of Some m \<Rightarrow> m | None \<Rightarrow> all)"

definition replaced_child :: "string \<Rightarrow> 'h \<Rightarrow> 'h option \<Rightarrow> 'h gomap \<Rightarrow> 'h gomap option \<Rightarrow> 'h gomap option" where
  "replaced_child key child r all children =
    (if r = Some child then children
     else let m = or_all all children in Some (case r of Some h \<Rightarrow> AList.update key h m | None \<Rightarrow> AList.delete key m))"

text \<open>The recursion follows stored nodes, so it is bounded by fuel; \<open>None\<close> means that the fuel is used up.\<close>

fun filter_radix ::
    "nat \<Rightarrow> (string list \<Rightarrow> string list) \<Rightarrow> (string \<Rightarrow> bool) \<Rightarrow> ('v, 'h, 's) load_node \<Rightarrow> ('v, 'h, 's) save_node
      \<Rightarrow> string \<Rightarrow> 'h \<Rightarrow> 's \<Rightarrow> ((string + 'h option) \<times> 's) option"
and filter_children ::
    "nat \<Rightarrow> (string list \<Rightarrow> string list) \<Rightarrow> (string \<Rightarrow> bool) \<Rightarrow> ('v, 'h, 's) load_node \<Rightarrow> ('v, 'h, 's) save_node
      \<Rightarrow> 'h gomap \<Rightarrow> 'h gomap \<Rightarrow> 'h gomap option \<Rightarrow> 's \<Rightarrow> ((string + 'h gomap option) \<times> 's) option" where
  "filter_radix 0 order keep load save prefix root s = None"
| "filter_radix (Suc n) order keep load save prefix root s =
    (case load prefix root s of
       (Inl e, s) \<Rightarrow> Some (Inl e, s)
     | (Inr node, s) \<Rightarrow>
         (case Children node of
            None \<Rightarrow>
              (case filter_leaf order keep (Items node) of (items, changed, kept) \<Rightarrow>
               if \<not> changed then Some (Inr (Some root), s)
               else if (case items of None \<Rightarrow> True | Some m \<Rightarrow> m = []) then Some (Inr None, s)
               else
                 (case save \<lparr>Items = the items, Children = None\<rparr> s of
                    (Inl e, s) \<Rightarrow> Some (Inl e, s)
                  | (Inr h, s) \<Rightarrow> Some (Inr (Some h), s)))
          | Some all \<Rightarrow>
              (case filter_children n order keep load save (range_map order all) all None s of
                 None \<Rightarrow> None
               | Some (Inl e, s) \<Rightarrow> Some (Inl e, s)
               | Some (Inr None, s) \<Rightarrow> Some (Inr (Some root), s)
               | Some (Inr (Some children), s) \<Rightarrow>
                   if children = [] then Some (Inr None, s)
                   else
                     (case save \<lparr>Items = [], Children = Some children\<rparr> s of
                        (Inl e, s) \<Rightarrow> Some (Inl e, s)
                      | (Inr h, s) \<Rightarrow> Some (Inr (Some h), s)))))"
| "filter_children n order keep load save [] all children s = Some (Inr children, s)"
| "filter_children n order keep load save ((key, child) # rest) all children s =
    (case filter_radix n order keep load save key child s of
       None \<Rightarrow> None
     | Some (Inl e, s) \<Rightarrow> Some (Inl e, s)
     | Some (Inr replacement, s) \<Rightarrow>
         filter_children n order keep load save rest all
           (replaced_child key child replacement all children) s)"

end
