(* ===== verification/Spec2Isabelle.thy ===== *)
theory Spec2Isabelle
  imports Head_Properties Format_Properties Protocol_Properties Data_Properties Store_Properties Fault_Properties
    Transport_Properties Session_Properties Wal_Executor Git_Fetch Git_Catalog_Safety
begin

text \<open>
  A verification development for object-log, a write-ahead log on an object store.

  \<^bold>\<open>The program.\<close> A log is one mutable \<^emph>\<open>head\<close> object and a set of immutable objects. Clients prepare commits
  against a view of the head, store the commit entry and its objects under fresh immutable keys, and publish
  by one conditional update of the head. An update whose answer is lost is \<^emph>\<open>pending\<close> and is settled later, by the same
  process or from a recovery token by another one. Checkpoints compact the head; retentions and garbage
  collection remove immutable objects that no head reaches. Around the log stand a fault-injecting store for its tests
  and two examples: a component that serves logs to a WASI host, and a Git server that keeps its repositories in such logs.

  \<^bold>\<open>Conventions.\<close> A \<open>Result\<close> is a sum with the error on the left and \<open>and_then\<close> is the operator \<^verbatim>\<open>?\<close>; \<open>u64\<close> is \<open>64 word\<close>
  with Rust's checked operations; \<open>usize\<close> is \<open>nat\<close> with the bound \<open>usize_MAX E\<close> where it is converted. An asynchronous method is
  an effect tree \<open>'a prog\<close>, one node per request with a continuation for each answer. Code outside the repository (minicbor, BLAKE3,
  hex and UUID text) is the record \<open>E\<close> of parameters; the locale \<open>cbor\<close> states its documented laws and
  \<open>Rfc8949\<close> interprets it on a concrete codec.

  \<^bold>\<open>Theories and sources\<close> (paths under \<^verbatim>\<open>src/\<close>).

  \<^item> \<open>Prelude\<close>: results, checked integers, traversals, shared lemmas.
  \<^item> \<open>Identity\<close> (\<^verbatim>\<open>src/lib.rs\<close>): identifiers, references, keys with their order, errors.
  \<^item> \<open>Head\<close>, \<open>Head_Log\<close> (\<^verbatim>\<open>src/format.rs\<close>, \<^verbatim>\<open>src/log.rs\<close>): \<open>Head\<close>, \<open>Head::validate\<close>, the head updates, and
    the abstract append-only log that a head represents.
  \<^item> \<open>Wire\<close>, \<open>Minicbor\<close>, \<open>Envelope\<close>, \<open>Head_Shape\<close>, \<open>Format\<close>, \<open>Node_Format\<close>, \<open>Plan_Format\<close>, \<open>Rfc8949\<close>
    (\<^verbatim>\<open>src/format.rs\<close>): wire structures, the checked envelope, the shape check, and the codecs of heads, commits,
    checkpoints, tokens, nodes and plans.
  \<^item> \<open>Prog\<close>, \<open>Scoped_Store\<close> (\<^verbatim>\<open>src/store.rs\<close>): effect trees with their run on a memory store, and the scoped store.
  \<^item> \<open>Log_Core\<close>, \<open>Log_Read\<close>, \<open>Log_Graph\<close>, \<open>Log_Objects\<close>, \<open>Log_Publish\<close>, \<open>Log_Maintain\<close> (\<^verbatim>\<open>src/log.rs\<close>): handles, views and
    loading; verified reads; the bounded graph walk; object creation; commits, checkpoints and recovery; retentions and collection.
  \<^item> \<open>History\<close> (\<^verbatim>\<open>src/history.rs\<close>) and \<open>Byte_Stream\<close> (\<^verbatim>\<open>src/byte_stream.rs\<close>).
  \<^item> \<open>Fault_State\<close>, \<open>Fault_Store\<close> (\<^verbatim>\<open>src/sim.rs\<close>): the fault-injecting store.
  \<^item> \<open>Wal_Transport\<close>, \<open>Wal_Session\<close>, \<open>Wal_Executor\<close> (\<^verbatim>\<open>examples/wal-component/src/\<close>): the HTTP transport with its budget and
    replay, the sessions and resources offered to the host, and the polling executor.
  \<^item> \<open>Git_Fetch\<close>, \<open>Git_Catalog\<close> (\<^verbatim>\<open>examples/git/fetch_policy.go\<close>, \<^verbatim>\<open>examples/git/index.go\<close>): the reachability walk of
    \<open>visibleFetch\<close>, and the radix catalog of Git objects (\<open>partition\<close>, \<open>updateRadix\<close>, \<open>lookupRadix\<close>, \<open>filterRadix\<close>). The order in
    which Go iterates over a map is a parameter, any permutation of its keys.

  \<^bold>\<open>What the lemmas show.\<close>

  \<^item> \<open>Head_Properties\<close>: validation accepts exactly the well-formed heads, every update keeps them so, published heads
    refine one append-only log, and a publication base that was left never returns.
  \<^item> \<open>Format_Properties\<close>: each decoder accepts exactly the canonical encodings; the node preflight is exact.
  \<^item> \<open>Protocol\<close>, \<open>World\<close>, \<open>Publication\<close>, \<open>Commit_Safety\<close>, \<open>Resolve_Safety\<close>, \<open>Checkpoint_Safety\<close>, \<open>Maintain_Safety\<close>,
    \<open>Recovery_Safety\<close>: a weakest precondition over worlds in which other clients publish legal heads at any time
    and the store answers anything, loses answers and delays writes. \<open>Protocol_Properties\<close>: commits, resolutions, checkpoints,
    retentions and collections report only what holds of the published log.
  \<^item> \<open>Outcomes\<close>, \<open>Effects\<close>, \<open>Client_Effects\<close>, \<open>Read_Safety\<close>, \<open>Graph_Safety\<close>, \<open>Collection_Safety\<close>, with
    \<open>Data_Properties\<close>: immutable objects are never overwritten, reads are authenticated, the walk finds all that is reachable,
    and a collection plans and deletes only what is dead.
  \<^item> \<open>Admission\<close>, \<open>Request_Bounds\<close>, with \<open>Store_Properties\<close>: every request is admitted by every guard, and their number is bounded.
  \<^item> \<open>Fault_Accounting\<close>, \<open>Fault_Runs\<close>, \<open>Progress\<close>, with \<open>Fault_Properties\<close>: the counters add up under every interleaving
    of lock scopes, simulated runs are runs of the protocol, and an uncontended commit completes.
  \<^item> \<open>Transport_Properties\<close>, \<open>Session_Properties\<close>, \<open>Wal_Executor\<close>: the budget is exact, a replayed conditional write takes
    effect at most once, the component reports commits truthfully, and no subscription is lost.
  \<^item> \<open>Git_Fetch\<close>, \<open>Git_Catalog_Safety\<close>: a fetch names only objects that the published references reach, a lookup finds what was
    put into the catalog, and a filter keeps exactly the chosen entries.

  \<^bold>\<open>Bounds.\<close> Counters stand for the loop bounds of the code and need no choice: sixteen publication attempts, three reads, two
  transport attempts. The graph walk recurses on the measure of its table limit, the fetch walk on the ids not yet seen, and a
  catalog update on the digits left in the names. \<open>filter_radix\<close> follows stored nodes and takes fuel: one unit per digit of a name is
  shown to be enough when loading checks the names of children. The host's streams are finite scripts; an
  exchange whose script ends early, and a run of the executor that never ends, are \<open>None\<close>.

  \<^bold>\<open>Not modelled.\<close> Allocation failure (\<open>try_reserve\<close>), failing encoders (writing to a vector cannot fail), the pointer check of
  \<open>shared_bytes\<close>, \<open>debug_assert\<close>, and the texts of \<open>Debug\<close> and \<open>Display\<close>. Buffered reads are performed when their result is
  taken, in any order the store chooses; a listing is obtained whole; the streaming hasher is the hash of the
  concatenation. Fresh UUIDs are not assumed to be fresh. The futures of \<open>PauseControl\<close>, \<open>RefCell\<close> borrow panics, generated WIT
  bindings, the S3 client and test modules are left out. Of the Git server in \<^verbatim>\<open>examples/git\<close> only the fetch policy and the catalog
  tree are modelled: its request handling, authentication, configuration, pack import and object codecs, its web viewer and its
  deployment are not, nor are benchmarks and scripts.
\<close>

end
